(* ===== verification/Prelude.thy ===== *)
theory Prelude
  imports Complex_Main "HOL-Library.Sublist"
begin

text \<open>
  Shared material of the development: the fact collections the component theories
  fill and use, ceiling division on \<open>nat\<close> (the number of batches of a list), the
  slicing lemmas the batcher rests on, counting in lists (how many events of a kind a
  trace holds), and results of type \<open>'e + 'a\<close> (\<open>Inl\<close> an exception that was
  raised, \<open>Inr\<close> a value that was returned).
\<close>

section \<open>Fact collections\<close>

named_theorems py_eval "evaluation rules of the modelled Python primitives"
named_theorems frame "fields of the world an operation leaves unchanged"
named_theorems trace_ext "how an operation extends the trace of the world"

section \<open>Results\<close>

type_synonym ('e, 'a) result = "'e + 'a"

definition raised :: "('e, 'a) result \<Rightarrow> bool" where
  "raised r = isl r"

definition returned :: "('e, 'a) result \<Rightarrow> bool" where
  "returned r = (\<not> isl r)"

lemma raised_simps [simp]: "raised (Inl e)" "\<not> raised (Inr x)"
  by (simp_all add: raised_def)

lemma returned_simps [simp]: "\<not> returned (Inl e)" "returned (Inr x)"
  by (simp_all add: returned_def)

lemma returned_iff: "returned r \<longleftrightarrow> (\<exists>x. r = Inr x)"
  by (cases r) simp_all

lemma raised_iff: "raised r \<longleftrightarrow> (\<exists>e. r = Inl e)"
  by (cases r) simp_all

lemma raised_not_returned [simp]: "raised r \<longleftrightarrow> \<not> returned r"
  by (cases r) simp_all

section \<open>Ceiling division\<close>

definition ceil_div :: "nat \<Rightarrow> nat \<Rightarrow> nat" where
  "ceil_div n k = (n + k - 1) div k"

lemma ceil_div_0 [simp]: "ceil_div 0 k = 0"
  by (cases k) (simp_all add: ceil_div_def)

lemma ceil_div_step:
  assumes k: "0 < k" and n: "0 < n"
  shows "ceil_div n k = Suc (ceil_div (n - k) k)"
proof (cases "k \<le> n")
  case True
  then have a: "n - k + k - 1 = n - 1" by arith
  from n have b: "n + k - 1 = (n - 1) + k" by arith
  from k show ?thesis unfolding ceil_div_def a b by simp
next
  case False
  with k n have "k * 1 \<le> n + k - 1" "n + k - 1 < k * Suc 1" by arith+
  then have "(n + k - 1) div k = 1" by (rule div_nat_eqI)
  moreover from False have "n - k = 0" by simp
  ultimately show ?thesis using k by (simp add: ceil_div_def)
qed

lemma ceil_div_eq_0_iff [simp]: "0 < k \<Longrightarrow> ceil_div n k = 0 \<longleftrightarrow> n = 0"
  by (cases "n = 0") (simp_all add: ceil_div_step)

lemma ceil_div_pos: "0 < k \<Longrightarrow> 0 < n \<Longrightarrow> 0 < ceil_div n k"
  by (simp add: ceil_div_step)

lemma ceil_div_covers: "0 < k \<Longrightarrow> n \<le> ceil_div n k * k"
proof (induction n rule: less_induct)
  case (less n)
  show ?case
  proof (cases "n = 0")
    case True
    then show ?thesis by simp
  next
    case False
    with less.prems have "n - k < n" by simp
    then have "n - k \<le> ceil_div (n - k) k * k"
      using less.prems by (rule less.IH)
    moreover from False less.prems have "ceil_div n k = Suc (ceil_div (n - k) k)"
      by (intro ceil_div_step) simp_all
    ultimately show ?thesis by simp
  qed
qed

lemma ceil_div_tight: "0 < k \<Longrightarrow> 0 < n \<Longrightarrow> (ceil_div n k - 1) * k < n"
proof (induction n rule: less_induct)
  case (less n)
  from less.prems have step: "ceil_div n k = Suc (ceil_div (n - k) k)"
    by (rule ceil_div_step)
  show ?case
  proof (cases "n \<le> k")
    case True
    then have "n - k = 0" by simp
    with less.prems show ?thesis by (simp add: step)
  next
    case False
    with less.prems have "n - k < n" "0 < n - k" by simp_all
    then have "(ceil_div (n - k) k - 1) * k < n - k"
      using less.prems(1) by (intro less.IH)
    moreover from \<open>0 < n - k\<close> less.prems(1) have "0 < ceil_div (n - k) k"
      by (intro ceil_div_pos)
    then have "ceil_div (n - k) k * k = (ceil_div (n - k) k - 1) * k + k"
      by (cases "ceil_div (n - k) k") simp_all
    ultimately show ?thesis using False by (simp add: step)
  qed
qed

lemma ceil_div_ceiling:
  assumes k: "0 < k"
  shows "int (ceil_div n k) = \<lceil>real n / real k\<rceil>"
proof -
  let ?c = "ceil_div n k"
  from k have rk: "0 < real k" by simp
  have "real n \<le> real (?c * k)"
    using ceil_div_covers [OF k, of n] by (simp only: of_nat_le_iff)
  then have "real n \<le> real ?c * real k" by simp
  with rk have up: "real n / real k \<le> real ?c"
    by (simp add: pos_divide_le_eq)
  have low: "real ?c - 1 < real n / real k"
  proof (cases "n = 0")
    case True
    then show ?thesis by simp
  next
    case False
    with k have pos: "0 < ?c" by (intro ceil_div_pos) simp_all
    from False k have "(?c - 1) * k < n" by (intro ceil_div_tight) simp_all
    then have "real ((?c - 1) * k) < real n" by (simp only: of_nat_less_iff)
    moreover from pos have "real (?c - 1) = real ?c - 1" by (simp add: of_nat_diff)
    ultimately have "(real ?c - 1) * real k < real n" by simp
    with rk show ?thesis by (simp add: pos_less_divide_eq)
  qed
  from low up have "\<lceil>real n / real k\<rceil> = int ?c"
    by (intro ceiling_unique) simp_all
  then show ?thesis by simp
qed

section \<open>Floors of rational literals\<close>

lemma floor_rat_divide_numeral [simp, py_eval]:
  "\<lfloor>numeral a / numeral b :: rat\<rfloor> = numeral a div numeral b"
  by (metis floor_divide_of_int_eq of_int_numeral)

lemma floor_rat_one_divide_numeral [simp, py_eval]:
  "\<lfloor>1 / numeral b :: rat\<rfloor> = 1 div numeral b"
  by (metis floor_divide_of_int_eq of_int_1 of_int_numeral)

lemma ceiling_rat_divide_numeral [simp, py_eval]:
  "\<lceil>numeral a / numeral b :: rat\<rceil> = - (- numeral a div numeral b)"
  by (metis ceiling_divide_eq_div of_int_numeral)

section \<open>Slices of a list\<close>

lemma upt_0_Suc_shift: "[0..<Suc n] = 0 # map Suc [0..<n]"
  by (simp only: upt_conv_Cons zero_less_Suc map_Suc_upt)

lemma drop_Suc_mult: "drop (Suc i * k) xs = drop (i * k) (drop k xs)"
  by (simp add: add.commute)

section \<open>Counting in lists\<close>

definition count_where :: "('a \<Rightarrow> bool) \<Rightarrow> 'a list \<Rightarrow> nat" where
  "count_where P xs = length (filter P xs)"

lemma count_where_Nil [simp]: "count_where P [] = 0"
  by (simp add: count_where_def)

lemma count_where_Cons [simp]:
  "count_where P (x # xs) = (if P x then Suc (count_where P xs) else count_where P xs)"
  by (simp add: count_where_def)

lemma count_where_append [simp]:
  "count_where P (xs @ ys) = count_where P xs + count_where P ys"
  by (simp add: count_where_def)

lemma count_where_concat:
  "count_where P (concat xss) = sum_list (map (count_where P) xss)"
  by (induction xss) simp_all

lemma count_where_le_length: "count_where P xs \<le> length xs"
  by (simp add: count_where_def)

lemma count_where_map: "count_where P (map f xs) = count_where (P \<circ> f) xs"
  by (induction xs) simp_all

lemma sum_list_replicate_const [simp]: "sum_list (map (\<lambda>_. c) xs) = length xs * (c::nat)"
  by (induction xs) simp_all

lemma sum_length_take_less:
  assumes "list_all (\<lambda>ys. ys \<noteq> []) yss" "j < length yss"
  shows "sum_list (map length (take j yss)) < sum_list (map length yss)"
proof -
  from assms(2) have "yss = take j yss @ yss ! j # drop (Suc j) yss"
    by (simp add: id_take_nth_drop)
  then have "sum_list (map length yss) =
      sum_list (map length (take j yss)) + length (yss ! j) + sum_list (map length (drop (Suc j) yss))"
    by (metis (no_types) add.assoc list.simps(9) map_append sum_list.Cons sum_list.append)
  moreover from assms have "yss ! j \<noteq> []" by (simp add: list_all_length)
  ultimately show ?thesis by simp
qed

end
