(* ===== verification/Floats.thy ===== *)
theory Floats
  imports Prelude "HOL-Library.Log_Nat"
begin

text \<open>
  The floating-point arithmetic of the cost estimate,
  \<^verbatim>\<open>round(num_tokens * cost_per_1k_tokens / 1_000, 2)\<close> of \<^verbatim>\<open>api.py\<close>. A Python float is
  an IEEE 754 double: a sign and a magnitude with a mantissa of 53 bits. The model
  keeps the sign and the magnitude, an exact rational (\<open>double\<close>), and writes the
  rounding of every operation out: \<open>fl\<close> rounds a rational to the nearest number with
  53 bits, ties to the even mantissa, as the machine does for every result in the
  normal range. The operations the estimate uses are the conversion of an integer
  (\<open>float_of_int\<close>, which fails where Python raises \<^verbatim>\<open>OverflowError\<close>), the product
  (\<open>fmul\<close>), the quotient (\<open>fdiv\<close>), the literal (\<open>nearest\<close>) and \<^verbatim>\<open>round(x, n)\<close>
  (\<open>py_round\<close>), which rounds the exact value of the float to \<open>n\<close> decimals, half to
  even, and returns the double nearest to that decimal.

  The lemmas show that \<open>fl\<close> is the rounding to nearest (\<open>fl_nearest\<close>, \<open>fl_mantissa\<close>),
  bound its error, characterise the integers that overflow, and give the range in
  which the model is the arithmetic of the machine (\<open>is_double\<close>). Floats are ordered
  by their values (a \<open>preorder\<close>), and rounding is monotone. Infinities, NaN and
  subnormal numbers are not modelled; \<open>Confirm\<close> shows that the estimate never meets
  them.
\<close>

section \<open>Rounding to an integer\<close>

text \<open>The nearest integer, a tie to the even one.\<close>

definition round_half_even :: "rat \<Rightarrow> int" where
  "round_half_even x =
     (let f = \<lfloor>x\<rfloor>; r = x - of_int f
      in if r < 1 / 2 then f else if 1 / 2 < r then f + 1 else if even f then f else f + 1)"

lemma round_half_even_near: "\<bar>of_int (round_half_even x) - x\<bar> \<le> 1 / 2"
proof -
  define r where "r = x - of_int \<lfloor>x\<rfloor>"
  have r: "0 \<le> r" "r < 1" unfolding r_def by linarith+
  have x: "x = of_int \<lfloor>x\<rfloor> + r" by (simp add: r_def)
  have "\<bar>of_int (round_half_even x) - (of_int \<lfloor>x\<rfloor> + r)\<bar> \<le> 1 / 2"
    using r unfolding round_half_even_def Let_def r_def [symmetric]
    by (auto simp: abs_if)
  with x show ?thesis by simp
qed

lemma round_half_even_of_int [simp]: "round_half_even (of_int k) = k"
  by (simp add: round_half_even_def)

lemma round_half_even_0 [simp]: "round_half_even 0 = 0"
  using round_half_even_of_int [of 0] by simp

lemma round_half_even_mono: "x \<le> y \<Longrightarrow> round_half_even x \<le> round_half_even y"
proof -
  assume xy: "x \<le> y"
  then have fl: "\<lfloor>x\<rfloor> \<le> \<lfloor>y\<rfloor>" by (rule floor_mono)
  show ?thesis
  proof (cases "\<lfloor>x\<rfloor> = \<lfloor>y\<rfloor>")
    case True
    with xy show ?thesis by (auto simp: round_half_even_def Let_def)
  next
    case False
    with fl have "\<lfloor>x\<rfloor> + 1 \<le> \<lfloor>y\<rfloor>" by simp
    moreover have "round_half_even x \<le> \<lfloor>x\<rfloor> + 1" "\<lfloor>y\<rfloor> \<le> round_half_even y"
      by (simp_all add: round_half_even_def Let_def)
    ultimately show ?thesis by linarith
  qed
qed

lemma round_half_even_ge: "of_int a \<le> x \<Longrightarrow> a \<le> round_half_even x"
  using round_half_even_mono [of "of_int a" x] by simp

lemma round_half_even_le: "x \<le> of_int b \<Longrightarrow> round_half_even x \<le> b"
  using round_half_even_mono [of x "of_int b"] by simp

lemma round_half_even_eqI:
  assumes "\<bar>x - of_int k\<bar> < 1 / 2"
  shows "round_half_even x = k"
proof -
  have "\<bar>of_int (round_half_even x) - x\<bar> \<le> 1 / 2" by (rule round_half_even_near)
  with assms have "\<bar>(of_int (round_half_even x) :: rat) - of_int k\<bar> < 1" by linarith
  then have "\<bar>(of_int (round_half_even x - k) :: rat)\<bar> < of_int 1" by simp
  then have "\<bar>round_half_even x - k\<bar> < 1" unfolding of_int_abs [symmetric] of_int_less_iff .
  then show ?thesis by simp
qed


text \<open>A number on the same side of the tie rounds to the same integer.\<close>

lemma round_half_even_stable:
  assumes "\<bar>y - x\<bar> < \<bar>x - of_int \<lfloor>x\<rfloor> - 1 / 2\<bar>"
  shows "round_half_even y = round_half_even x"
proof (cases "x - of_int \<lfloor>x\<rfloor> < 1 / 2")
  case True
  then have "round_half_even x = \<lfloor>x\<rfloor>" by (simp add: round_half_even_def Let_def)
  moreover from True assms have "\<bar>y - of_int \<lfloor>x\<rfloor>\<bar> < 1 / 2"
    using of_int_floor_le [of x] by linarith
  then have "round_half_even y = \<lfloor>x\<rfloor>" by (rule round_half_even_eqI)
  ultimately show ?thesis by simp
next
  case False
  with assms have up: "1 / 2 < x - of_int \<lfloor>x\<rfloor>" by linarith
  then have "round_half_even x = \<lfloor>x\<rfloor> + 1" by (simp add: round_half_even_def Let_def)
  moreover from up assms have "\<bar>y - (of_int \<lfloor>x\<rfloor> + 1)\<bar> < 1 / 2"
    using floor_correct [of x] by linarith
  then have "\<bar>y - of_int (\<lfloor>x\<rfloor> + 1)\<bar> < 1 / 2" by simp
  then have "round_half_even y = \<lfloor>x\<rfloor> + 1" by (rule round_half_even_eqI)
  ultimately show ?thesis by simp
qed

lemma round_half_even_minus [simp]: "round_half_even (- x) = - round_half_even x"
proof (cases "x = of_int \<lfloor>x\<rfloor>")
  case True
  then obtain k where "x = of_int k" ..
  then show ?thesis by (simp flip: of_int_minus)
next
  case False
  then have c: "\<lceil>x\<rceil> = \<lfloor>x\<rfloor> + 1" by (simp add: ceiling_altdef)
  have f: "\<lfloor>- x\<rfloor> = - \<lfloor>x\<rfloor> - 1" unfolding floor_minus c by simp
  show ?thesis
    unfolding round_half_even_def Let_def f by (auto simp: algebra_simps)
qed

section \<open>Powers of two\<close>

lemma two_powi_pos [simp]: "0 < (2 :: rat) powi e"
  by (simp add: zero_less_power_int)

lemma two_powi_nonzero [simp]: "(2 :: rat) powi e \<noteq> 0"
  by simp

lemma two_powi_add: "(2 :: rat) powi (a + b) = 2 powi a * 2 powi b"
  by (simp add: power_int_add)

lemma two_powi_diff: "(2 :: rat) powi (a - b) = 2 powi a / 2 powi b"
  by (simp add: power_int_diff)

lemma two_powi_le_iff [simp]: "(2 :: rat) powi a \<le> 2 powi b \<longleftrightarrow> a \<le> b"
proof
  assume le: "(2 :: rat) powi a \<le> 2 powi b"
  show "a \<le> b"
  proof (rule ccontr)
    assume "\<not> a \<le> b"
    then have "(2 :: rat) powi b < 2 powi a" by (intro power_int_strict_increasing) simp_all
    with le show False by simp
  qed
qed (simp add: power_int_increasing)

lemma two_powi_less_iff [simp]: "(2 :: rat) powi a < 2 powi b \<longleftrightarrow> a < b"
  using two_powi_le_iff [of b a] by (simp only: not_le [symmetric])

lemma two_powi_split:
  "(2 :: rat) powi e = 2 ^ 52 * 2 powi (e - 52)"
  "(2 :: rat) powi (e + 1) = 2 ^ 53 * 2 powi (e - 52)"
proof -
  have "e = 52 + (e - 52)" "e + 1 = 53 + (e - 52)" by simp_all
  then have "(2 :: rat) powi e = 2 powi 52 * 2 powi (e - 52)"
    and "(2 :: rat) powi (e + 1) = 2 powi 53 * 2 powi (e - 52)"
    by (metis two_powi_add)+
  then show "(2 :: rat) powi e = 2 ^ 52 * 2 powi (e - 52)"
    "(2 :: rat) powi (e + 1) = 2 ^ 53 * 2 powi (e - 52)"
    by simp_all
qed

section \<open>The binary exponent\<close>

text \<open>The exponent of a positive number, \<open>\<lfloor>log\<^sub>2 x\<rfloor>\<close>, from the lengths of the numerator
  and the denominator in bits.\<close>

definition expo :: "rat \<Rightarrow> int" where
  "expo x =
     (case quotient_of x of
        (p, q) \<Rightarrow> let e = bitlen p - bitlen q in if 2 powi e \<le> x then e else e - 1)"

lemma bitlen_powi:
  assumes "0 < p"
  shows "(2 :: rat) powi (bitlen p - 1) \<le> of_int p" and "of_int p < (2 :: rat) powi bitlen p"
proof -
  from assms have pos: "1 \<le> bitlen p"
    using bitlen_eq_zero_iff [of p] bitlen_nonneg [of p] by linarith
  from bitlen_bounds [OF assms] have "(of_int (2 ^ nat (bitlen p - 1)) :: rat) \<le> of_int p"
    and "(of_int p :: rat) < of_int (2 ^ nat (bitlen p))"
    unfolding of_int_le_iff of_int_less_iff by simp_all
  with pos show "(2 :: rat) powi (bitlen p - 1) \<le> of_int p" "of_int p < (2 :: rat) powi bitlen p"
    by (simp_all add: power_int_def)
qed

lemma expo_bounds:
  assumes "0 < x"
  shows "2 powi expo x \<le> x" and "x < 2 powi (expo x + 1)"
proof -
  obtain p q where pq: "quotient_of x = (p, q)" by (cases "quotient_of x")
  then have q: "0 < q" and x: "x = of_int p / of_int q"
    by (rule quotient_of_denom_pos, rule quotient_of_div)
  with assms have p: "0 < p" by (simp add: zero_less_divide_iff)
  let ?e = "bitlen p - bitlen q"
  from q have rq: "0 < (of_int q :: rat)" by simp
  have "x * of_int q < 2 powi bitlen p" using bitlen_powi(2) [OF p] rq by (simp add: x)
  also have "\<dots> = (2 :: rat) powi (?e + 1) * 2 powi (bitlen q - 1)" by (simp flip: two_powi_add)
  also have "\<dots> \<le> 2 powi (?e + 1) * of_int q"
    using bitlen_powi(1) [OF q] by (intro mult_left_mono) simp_all
  finally have up: "x < 2 powi (?e + 1)" using rq by simp
  have "2 powi (?e - 1) * of_int q < (2 :: rat) powi (?e - 1) * 2 powi bitlen q"
    using bitlen_powi(2) [OF q] by (intro mult_strict_left_mono) simp_all
  also have "\<dots> = 2 powi (bitlen p - 1)" by (simp flip: two_powi_add)
  also have "\<dots> \<le> x * of_int q" using bitlen_powi(1) [OF p] rq by (simp add: x)
  finally have low: "2 powi (?e - 1) < x" using rq by simp
  from up low show "2 powi expo x \<le> x" "x < 2 powi (expo x + 1)"
    by (auto simp: expo_def pq Let_def)
qed

lemma expo_eqI:
  assumes "2 powi e \<le> x" "x < 2 powi (e + 1)"
  shows "expo x = e"
proof -
  from assms(1) have pos: "0 < x" using two_powi_pos [of e] by linarith
  from expo_bounds [OF pos] assms have "(2 :: rat) powi e < 2 powi (expo x + 1)"
    and "(2 :: rat) powi expo x < 2 powi (e + 1)" by linarith+
  then show ?thesis by simp
qed

lemma expo_scale: "0 < x \<Longrightarrow> expo (x * 2 powi k) = expo x + k"
  using expo_bounds [of x] by (intro expo_eqI) (simp_all add: two_powi_add add.assoc [symmetric])

lemma expo_mono:
  assumes "0 < x" "x \<le> y"
  shows "expo x \<le> expo y"
proof -
  from assms have "0 < y" by simp
  from expo_bounds(1) [OF assms(1)] expo_bounds(2) [OF this] assms(2)
  have "(2 :: rat) powi expo x < 2 powi (expo y + 1)" by linarith
  then show ?thesis by simp
qed

section \<open>Rounding to 53 bits\<close>

text \<open>The number is scaled so that it lies between \<open>2\<^sup>5\<^sup>2\<close> and \<open>2\<^sup>5\<^sup>3\<close>, rounded to an
  integer, and scaled back. A number is \<open>representable\<close> when rounding leaves it as it
  is.\<close>

definition fl :: "rat \<Rightarrow> rat" where
  "fl x =
     (if x = 0 then 0
      else let e = expo \<bar>x\<bar> - 52 in of_int (round_half_even (x / 2 powi e)) * 2 powi e)"

definition representable :: "rat \<Rightarrow> bool" where
  "representable x \<longleftrightarrow> fl x = x"

lemma fl_0 [simp]: "fl 0 = 0"
  by (simp add: fl_def)

lemma fl_minus [simp]: "fl (- x) = - fl x"
  by (simp add: fl_def Let_def)

lemma fl_eq:
  assumes "2 powi e \<le> \<bar>x\<bar>" "\<bar>x\<bar> < 2 powi (e + 1)"
  shows "fl x = of_int (round_half_even (x / 2 powi (e - 52))) * 2 powi (e - 52)"
proof -
  from assms(1) two_powi_pos [of e] have "0 < \<bar>x\<bar>" by linarith
  then have "x \<noteq> 0" by simp
  with expo_eqI [OF assms] show ?thesis by (simp add: fl_def Let_def)
qed

lemma scaled_bounds:
  fixes x :: rat
  assumes "2 powi e \<le> x" "x < 2 powi (e + 1)"
  shows "2 ^ 52 \<le> x / 2 powi (e - 52)" and "x / 2 powi (e - 52) < 2 ^ 53"
proof -
  have a: "(2 :: rat) powi e = 2 ^ 52 * 2 powi (e - 52)"
    and b: "(2 :: rat) powi (e + 1) = 2 ^ 53 * 2 powi (e - 52)"
    by (rule two_powi_split)+
  from assms show "2 ^ 52 \<le> x / 2 powi (e - 52)" "x / 2 powi (e - 52) < 2 ^ 53"
    unfolding a b by (simp_all add: pos_le_divide_eq pos_divide_less_eq)
qed

lemma fl_bounds:
  assumes "2 powi e \<le> x" "x < 2 powi (e + 1)"
  shows "2 powi e \<le> fl x" and "fl x \<le> 2 powi (e + 1)"
proof -
  let ?s = "(2 :: rat) powi (e - 52)"
  from assms(1) have pos: "0 \<le> x" using two_powi_pos [of e] by linarith
  then have fl: "fl x = of_int (round_half_even (x / ?s)) * ?s"
    using fl_eq [of e x] assms by simp
  have "(of_int (2 ^ 52) :: rat) \<le> x / ?s" "x / ?s \<le> of_int (2 ^ 53)"
    using scaled_bounds [OF assms] by simp_all
  then have "2 ^ 52 \<le> round_half_even (x / ?s)" "round_half_even (x / ?s) \<le> 2 ^ 53"
    by (simp_all only: round_half_even_ge round_half_even_le)
  then have "(of_int (2 ^ 52) :: rat) \<le> of_int (round_half_even (x / ?s))"
    and "(of_int (round_half_even (x / ?s)) :: rat) \<le> of_int (2 ^ 53)"
    unfolding of_int_le_iff by simp_all
  then have "2 ^ 52 * ?s \<le> fl x" "fl x \<le> 2 ^ 53 * ?s"
    unfolding fl by (simp_all add: mult_right_mono)
  then show "2 powi e \<le> fl x" "fl x \<le> 2 powi (e + 1)"
    by (simp_all only: two_powi_split [symmetric])
qed

lemma fl_nonneg: "0 \<le> x \<Longrightarrow> 0 \<le> fl x"
proof (cases "x = 0")
  case False
  assume "0 \<le> x"
  with False have "0 < x" by simp
  from fl_bounds(1) [OF expo_bounds [OF this]] show ?thesis
    using two_powi_pos [of "expo x"] by linarith
qed simp

lemma fl_abs: "fl \<bar>x\<bar> = \<bar>fl x\<bar>"
proof (cases "0 \<le> x")
  case True
  then show ?thesis by (simp add: fl_nonneg)
next
  case False
  then have "0 \<le> fl (- x)" by (intro fl_nonneg) simp
  with False show ?thesis by simp
qed

text \<open>The error of rounding is at most half a unit in the last place, which is at most
  \<open>2\<^sup>-\<^sup>5\<^sup>3\<close> of the number.\<close>

lemma fl_error: "\<bar>fl x - x\<bar> \<le> \<bar>x\<bar> / 2 ^ 53"
proof (cases "x = 0")
  case False
  let ?s = "(2 :: rat) powi (expo \<bar>x\<bar> - 52)"
  from False have pos: "0 < \<bar>x\<bar>" by simp
  have "fl x - x = (of_int (round_half_even (x / ?s)) - x / ?s) * ?s"
    using False by (simp add: fl_def Let_def algebra_simps)
  then have "\<bar>fl x - x\<bar> = \<bar>of_int (round_half_even (x / ?s)) - x / ?s\<bar> * ?s"
    by (simp add: abs_mult)
  also have "\<dots> \<le> 1 / 2 * ?s"
    by (intro mult_right_mono round_half_even_near) simp
  also have "\<dots> = 2 powi expo \<bar>x\<bar> / 2 ^ 53"
    by (simp add: two_powi_diff)
  also have "\<dots> \<le> \<bar>x\<bar> / 2 ^ 53"
    using expo_bounds(1) [OF pos] by (simp add: divide_right_mono)
  finally show ?thesis .
qed simp

lemma fl_error_nonneg:
  assumes "0 \<le> x"
  shows "x - x / 2 ^ 53 \<le> fl x" and "fl x \<le> x + x / 2 ^ 53"
  using fl_error [of x] assms by linarith+

lemma fl_mono:
  assumes "0 \<le> x" "x \<le> y"
  shows "fl x \<le> fl y"
proof (cases "x = 0")
  case True
  with assms show ?thesis by (simp add: fl_nonneg)
next
  case False
  with assms have x: "0 < x" and y: "0 < y" by simp_all
  note ex = expo_bounds [OF x] and ey = expo_bounds [OF y]
  show ?thesis
  proof (cases "expo x = expo y")
    case True
    let ?s = "(2 :: rat) powi (expo y - 52)"
    have "round_half_even (x / ?s) \<le> round_half_even (y / ?s)"
      using assms(2) by (intro round_half_even_mono divide_right_mono) simp_all
    then have "(of_int (round_half_even (x / ?s)) :: rat) \<le> of_int (round_half_even (y / ?s))"
      by simp
    then show ?thesis
      using x y by (simp add: fl_def Let_def True mult_right_mono)
  next
    case False
    with expo_mono [OF x assms(2)] have "expo x + 1 \<le> expo y" by simp
    then have "(2 :: rat) powi (expo x + 1) \<le> 2 powi expo y" by simp
    with fl_bounds(2) [OF ex] fl_bounds(1) [OF ey] show ?thesis by linarith
  qed
qed




text \<open>A number with a mantissa of at most 53 bits is its own rounding.\<close>

lemma fl_exact_pos:
  assumes "0 < m" "m < 2 ^ 53"
  shows "fl (of_int m * 2 powi k) = of_int m * 2 powi k"
proof -
  define b where "b = bitlen m - 1"
  let ?x = "of_int m * (2 :: rat) powi k"
  have m: "(2 :: rat) powi b \<le> of_int m" "(of_int m :: rat) < 2 powi (b + 1)"
    using bitlen_powi [OF assms(1)] by (simp_all add: b_def)
  from assms(2) have "(of_int m :: rat) < of_int (2 ^ 53)" unfolding of_int_less_iff .
  moreover have "(of_int (2 ^ 53) :: rat) = 2 powi 53" by simp
  ultimately have "(2 :: rat) powi b < 2 powi 53" using m(1) by linarith
  then have "b < 53" by (simp only: two_powi_less_iff)
  then have b: "b \<le> 52" by simp
  define j where "j = nat (52 - b)"
  define s where "s = k - int j"
  from b have e: "b + k - 52 = s" and k: "k = int j + s" by (simp_all add: s_def j_def)
  have "2 powi (b + k) \<le> \<bar>?x\<bar>" "\<bar>?x\<bar> < 2 powi (b + k + 1)"
    using m assms(1) by (simp_all add: two_powi_add abs_mult)
  then have fl: "fl ?x = of_int (round_half_even (?x / 2 powi s)) * 2 powi s"
    unfolding e [symmetric] by (rule fl_eq)
  have "?x = of_int m * (2 powi int j * 2 powi s)"
    by (simp only: k two_powi_add [symmetric])
  then have x: "?x = of_int (m * 2 ^ j) * 2 powi s" by simp
  have "of_int (m * 2 ^ j) * 2 powi s / 2 powi s = (of_int (m * 2 ^ j) :: rat)"
    by (rule nonzero_mult_div_cancel_right) simp
  then have "?x / 2 powi s = of_int (m * 2 ^ j)" by (simp only: x)
  then show ?thesis unfolding fl by (simp only: round_half_even_of_int x [symmetric])
qed

lemma fl_exact:
  assumes "\<bar>m\<bar> < 2 ^ 53"
  shows "fl (of_int m * 2 powi k) = of_int m * 2 powi k"
proof -
  consider "m = 0" | "0 < m" | "0 < - m" by linarith
  then show ?thesis
  proof cases
    case 3
    with assms have "fl (of_int (- m) * 2 powi k) = of_int (- m) * 2 powi k"
      by (intro fl_exact_pos) simp_all
    then show ?thesis by simp
  qed (use assms in \<open>simp_all add: fl_exact_pos\<close>)
qed

lemma fl_of_int: "\<bar>n\<bar> \<le> 2 ^ 53 \<Longrightarrow> fl (of_int n) = of_int n"
proof (cases "\<bar>n\<bar> = 2 ^ 53")
  case True
  then have "n = 2 ^ 53 \<or> n = - (2 ^ 53)" by linarith
  moreover have "fl (of_int 1 * 2 powi 53) = of_int 1 * 2 powi 53" by (rule fl_exact) simp
  ultimately show ?thesis by auto
next
  case False
  assume "\<bar>n\<bar> \<le> 2 ^ 53"
  with False fl_exact [of n 0] show ?thesis by simp
qed

text \<open>The rounding of a number has a mantissa of at most 53 bits.\<close>

lemma fl_mantissa: "\<exists>m k. \<bar>m\<bar> < 2 ^ 53 \<and> fl x = of_int m * 2 powi k"
proof (cases "x = 0")
  case True
  then have "\<bar>0 :: int\<bar> < 2 ^ 53 \<and> fl x = of_int 0 * 2 powi 0" by simp
  then show ?thesis by blast
next
  case False
  define e where "e = expo \<bar>x\<bar>"
  define m where "m = round_half_even (x / 2 powi (e - 52))"
  from False have bnd: "2 powi e \<le> \<bar>x\<bar>" "\<bar>x\<bar> < 2 powi (e + 1)"
    unfolding e_def by (simp_all add: expo_bounds)
  then have fl: "fl x = of_int m * 2 powi (e - 52)"
    unfolding m_def by (rule fl_eq)
  have "\<bar>x / 2 powi (e - 52)\<bar> \<le> 2 ^ 53"
    using scaled_bounds(2) [OF bnd] by (simp add: abs_divide)
  then have "of_int (- (2 ^ 53)) \<le> x / 2 powi (e - 52)" "x / 2 powi (e - 52) \<le> of_int (2 ^ 53)"
    unfolding abs_le_iff by simp_all
  then have "- (2 ^ 53) \<le> m" "m \<le> 2 ^ 53"
    unfolding m_def by (simp_all only: round_half_even_ge round_half_even_le)
  then consider "m = 2 ^ 53" | "m = - (2 ^ 53)" | "\<bar>m\<bar> < 2 ^ 53" by fastforce
  then show ?thesis
  proof cases
    case 1
    have "\<bar>1 :: int\<bar> < 2 ^ 53 \<and> fl x = of_int 1 * 2 powi (e + 1)"
      unfolding fl 1 by (simp add: two_powi_split(2) [of e])
    then show ?thesis by blast
  next
    case 2
    have "\<bar>- 1 :: int\<bar> < 2 ^ 53 \<and> fl x = of_int (- 1) * 2 powi (e + 1)"
      unfolding fl 2 by (simp add: two_powi_split(2) [of e])
    then show ?thesis by blast
  next
    case 3
    with fl show ?thesis by blast
  qed
qed

lemma fl_idem [simp]: "fl (fl x) = fl x"
proof -
  obtain m k where "\<bar>m\<bar> < 2 ^ 53" "fl x = of_int m * 2 powi k"
    using fl_mantissa by blast
  then show ?thesis by (simp add: fl_exact)
qed

lemma representable_fl [simp]: "representable (fl x)"
  by (simp add: representable_def)

lemma representable_of_int: "\<bar>n\<bar> \<le> 2 ^ 53 \<Longrightarrow> representable (of_int n)"
  by (simp add: representable_def fl_of_int)

section \<open>Python floats\<close>

text \<open>A float: the sign bit and the magnitude. There are two zeros.\<close>

datatype double = Double (negative: bool) (magnitude: rat)

definition valof :: "double \<Rightarrow> rat" where
  "valof d = (if negative d then - magnitude d else magnitude d)"

text \<open>The float a decimal literal such as \<^verbatim>\<open>0.0004\<close> denotes, or that \<^verbatim>\<open>float\<close> reads from
  a decimal string: the nearest double.\<close>

definition nearest :: "rat \<Rightarrow> double" where
  "nearest x = Double (x < 0) (fl \<bar>x\<bar>)"

text \<open>The conversion of an \<^verbatim>\<open>int\<close> operand of a float operation. The integer is rounded
  to 53 bits; Python raises \<^verbatim>\<open>OverflowError\<close> when the exponent of the result exceeds
  that of the largest double, which has \<open>expo\<close> 1023.\<close>

definition max_exp :: int where
  "max_exp = 1024"

definition float_of_int :: "int \<Rightarrow> double option" where
  "float_of_int n =
     (let a = fl (of_int \<bar>n\<bar>)
      in if max_exp \<le> expo a then None else Some (Double (n < 0) a))"

text \<open>Product and quotient of floats whose exact result is zero or in the normal range,
  and \<^verbatim>\<open>round(a, ndigits)\<close> for \<^verbatim>\<open>ndigits\<close> that is not negative.\<close>

definition fmul :: "double \<Rightarrow> double \<Rightarrow> double" where
  "fmul a b = Double (negative a \<noteq> negative b) (fl (magnitude a * magnitude b))"

definition fdiv :: "double \<Rightarrow> double \<Rightarrow> double" where
  "fdiv a b = Double (negative a \<noteq> negative b) (fl (magnitude a / magnitude b))"

definition py_round :: "double \<Rightarrow> nat \<Rightarrow> double" where
  "py_round a ndigits =
     Double (negative a)
       (fl (of_int (round_half_even (magnitude a * 10 ^ ndigits)) / 10 ^ ndigits))"

section \<open>Overflow\<close>

lemma round_half_even_below: "x < of_int k + 1 / 2 \<Longrightarrow> round_half_even x \<le> k"
proof -
  assume "x < of_int k + 1 / 2"
  with round_half_even_near [of x] have "(of_int (round_half_even x) :: rat) < of_int k + 1"
    by linarith
  then have "(of_int (round_half_even x) :: rat) < of_int (k + 1)" by simp
  then show ?thesis unfolding of_int_less_iff by simp
qed

lemma expo_less_iff:
  assumes "0 < x"
  shows "expo x < k \<longleftrightarrow> x < 2 powi k"
proof
  assume "expo x < k"
  then have "(2 :: rat) powi (expo x + 1) \<le> 2 powi k" by simp
  with expo_bounds(2) [OF assms] show "x < 2 powi k" by linarith
next
  assume "x < 2 powi k"
  with expo_bounds(1) [OF assms] have "(2 :: rat) powi expo x < 2 powi k" by linarith
  then show "expo x < k" by simp
qed

lemma expo_0 [simp]: "expo 0 = - 2"
  by code_simp

lemma fl_pos: "0 < x \<Longrightarrow> 0 < fl x"
  using fl_bounds(1) [OF expo_bounds, of x] two_powi_pos [of "expo x"] by linarith

lemma fl_two_powi [simp]: "fl (2 powi e) = 2 powi e"
  using fl_exact [of 1 e] by simp

lemma fl_ge_two_powi: "2 powi e \<le> x \<Longrightarrow> 2 powi e \<le> fl x"
  using fl_mono [of "2 powi e" x] by simp

lemma fl_le_two_powi: "0 \<le> x \<Longrightarrow> x \<le> 2 powi e \<Longrightarrow> fl x \<le> 2 powi e"
  using fl_mono [of x "2 powi e"] by simp

lemma round_half_even_carry:
  assumes "even n"
  shows "n \<le> round_half_even x \<longleftrightarrow> of_int n - 1 / 2 \<le> x"
proof
  assume "n \<le> round_half_even x"
  with round_half_even_below [of x "n - 1"] show "of_int n - 1 / 2 \<le> x" by fastforce
next
  assume "of_int n - 1 / 2 \<le> x"
  then have "round_half_even (of_int n - 1 / 2) \<le> round_half_even x"
    by (rule round_half_even_mono)
  moreover have "\<lfloor>of_int n - 1 / 2 :: rat\<rfloor> = n - 1" by (simp add: floor_eq_iff)
  with assms have "round_half_even (of_int n - 1 / 2) = n" by (simp add: round_half_even_def)
  ultimately show "n \<le> round_half_even x" by simp
qed

text \<open>A number rounds up to the next power of two if and only if it is at least half
  a unit in the last place below that power.\<close>

lemma fl_carry_iff:
  assumes "0 \<le> x"
  shows "2 powi (e + 1) \<le> fl x \<longleftrightarrow> 2 powi (e + 1) - 2 powi (e - 53) \<le> x"
proof -
  let ?s = "(2 :: rat) powi (e - 52)"
  have "e - 53 = - 1 + (e - 52)" by simp
  then have "(2 :: rat) powi (e - 53) = 2 powi (- 1) * ?s" by (metis two_powi_add)
  then have s: "(2 :: rat) powi (e + 1) = 2 ^ 53 * ?s" "(2 :: rat) powi (e - 53) = 1 / 2 * ?s"
    "(2 :: rat) powi e = 2 ^ 52 * ?s"
    by (simp_all add: two_powi_split [of e])
  have sc: "2 powi (e + 1) - 2 powi (e - 53) \<le> x \<longleftrightarrow> of_int (2 ^ 53) - 1 / 2 \<le> x / ?s"
    unfolding s by (simp add: pos_le_divide_eq algebra_simps)
  consider "x < 2 powi e" | "2 powi e \<le> x" "x < 2 powi (e + 1)" | "2 powi (e + 1) \<le> x"
    by linarith
  then show ?thesis
  proof cases
    case 1
    moreover have "0 < t \<Longrightarrow> x < 2 ^ 52 * t \<Longrightarrow> x < 2 ^ 53 * t - 1 / 2 * t" for t :: rat
      by simp
    ultimately have "x < 2 powi (e + 1) - 2 powi (e - 53)"
      unfolding s using two_powi_pos [of "e - 52"] by blast
    moreover from 1 assms have "fl x \<le> 2 powi e" by (intro fl_le_two_powi) simp_all
    moreover have "(2 :: rat) powi e < 2 powi (e + 1)" by simp
    ultimately show ?thesis by linarith
  next
    case 2
    then have "fl x = of_int (round_half_even (x / ?s)) * ?s"
      using fl_eq [of e x] assms by simp
    then have "2 powi (e + 1) \<le> fl x \<longleftrightarrow>
        (of_int (2 ^ 53) :: rat) \<le> of_int (round_half_even (x / ?s))"
      unfolding s by simp
    also have "\<dots> \<longleftrightarrow> of_int (2 ^ 53) - 1 / 2 \<le> x / ?s"
      unfolding of_int_le_iff by (rule round_half_even_carry) simp
    finally show ?thesis unfolding sc .
  next
    case 3
    then have "2 powi (e + 1) \<le> fl x" by (rule fl_ge_two_powi)
    moreover have "2 powi (e + 1) - 2 powi (e - 53) \<le> x"
      using 3 two_powi_pos [of "e - 53"] by linarith
    ultimately show ?thesis by simp
  qed
qed

section \<open>The operations\<close>

lemma valof_Double [simp]: "valof (Double s a) = (if s then - a else a)"
  by (simp add: valof_def)

lemma abs_valof: "0 \<le> magnitude d \<Longrightarrow> \<bar>valof d\<bar> = magnitude d"
  by (simp add: valof_def)

lemma nearest_sel [simp]:
  "negative (nearest x) \<longleftrightarrow> x < 0" "magnitude (nearest x) = fl \<bar>x\<bar>"
  by (simp_all add: nearest_def)

lemma valof_nearest [simp]: "valof (nearest x) = fl x"
  by (simp add: nearest_def fl_abs abs_if)

lemma fmul_sel [simp]:
  "negative (fmul a b) \<longleftrightarrow> negative a \<noteq> negative b"
  "magnitude (fmul a b) = fl (magnitude a * magnitude b)"
  by (simp_all add: fmul_def)

lemma fdiv_sel [simp]:
  "negative (fdiv a b) \<longleftrightarrow> negative a \<noteq> negative b"
  "magnitude (fdiv a b) = fl (magnitude a / magnitude b)"
  by (simp_all add: fdiv_def)

lemma py_round_sel [simp]:
  "negative (py_round a ndigits) \<longleftrightarrow> negative a"
  "magnitude (py_round a ndigits) =
     fl (of_int (round_half_even (magnitude a * 10 ^ ndigits)) / 10 ^ ndigits)"
  by (simp_all add: py_round_def)

lemma overflow_iff:
  assumes "0 \<le> x"
  shows "max_exp \<le> expo x \<longleftrightarrow> 2 powi max_exp \<le> x"
proof (cases "x = 0")
  case False
  with assms have "0 < x" by simp
  from expo_less_iff [OF this, of max_exp] show ?thesis by (simp add: not_less [symmetric])
qed (simp add: max_exp_def)

text \<open>The conversion of an integer fails exactly from \<open>2\<^sup>1\<^sup>0\<^sup>2\<^sup>4 - 2\<^sup>9\<^sup>7\<^sup>0\<close> on.\<close>

definition least_overflow :: int where
  "least_overflow = 2 ^ 1024 - 2 ^ 970"

lemma float_of_int_None_iff: "float_of_int n = None \<longleftrightarrow> least_overflow \<le> \<bar>n\<bar>"
proof -
  have "float_of_int n = None \<longleftrightarrow> 2 powi max_exp \<le> fl (of_int \<bar>n\<bar>)"
    by (simp add: float_of_int_def Let_def overflow_iff fl_nonneg)
  also have "\<dots> \<longleftrightarrow> 2 powi (1023 + 1) - 2 powi (1023 - 53) \<le> (of_int \<bar>n\<bar> :: rat)"
    unfolding max_exp_def using fl_carry_iff [of "of_int \<bar>n\<bar>" 1023] by simp
  also have "\<dots> \<longleftrightarrow> (of_int (2 ^ 1024 - 2 ^ 970) :: rat) \<le> of_int \<bar>n\<bar>"
    by simp
  finally show ?thesis unfolding of_int_le_iff least_overflow_def .
qed

lemma float_of_int_Some:
  "float_of_int n = Some a \<Longrightarrow> a = Double (n < 0) (fl (of_int \<bar>n\<bar>))"
  by (auto simp: float_of_int_def Let_def split: if_splits)

lemma float_of_int_exact:
  assumes "\<bar>n\<bar> \<le> 2 ^ 53"
  shows "float_of_int n = Some (Double (n < 0) (of_int \<bar>n\<bar>))"
proof -
  from assms have "\<not> least_overflow \<le> \<bar>n\<bar>" by (simp add: least_overflow_def)
  then obtain a where "float_of_int n = Some a"
    unfolding float_of_int_None_iff [symmetric] by auto
  moreover from assms have "fl (of_int \<bar>n\<bar>) = of_int \<bar>n\<bar>" by (intro fl_of_int) simp
  ultimately show ?thesis using float_of_int_Some [of n a] by simp
qed

section \<open>The range of the doubles\<close>

text \<open>\<open>fl\<close> rounds with an unbounded exponent. It is the rounding of IEEE 754 double
  precision on the numbers whose rounding is zero or \<open>normal\<close>: there the format has
  all of its 53 bits, and the result is finite.\<close>

definition min_exp :: int where
  "min_exp = - 1022"

definition normal :: "rat \<Rightarrow> bool" where
  "normal x \<longleftrightarrow> 2 powi min_exp \<le> x \<and> x < 2 powi max_exp"

definition is_double :: "double \<Rightarrow> bool" where
  "is_double d \<longleftrightarrow> representable (magnitude d) \<and> (magnitude d = 0 \<or> normal (magnitude d))"

lemma fl_between:
  assumes "2 powi lo \<le> x" "x \<le> 2 powi hi"
  shows "2 powi lo \<le> fl x" and "fl x \<le> 2 powi hi"
proof -
  from assms(1) have "0 \<le> x" using two_powi_pos [of lo] by linarith
  then show "fl x \<le> 2 powi hi" using assms(2) by (rule fl_le_two_powi)
  from assms(1) show "2 powi lo \<le> fl x" by (rule fl_ge_two_powi)
qed

lemma is_double_zero [simp]: "is_double (Double s 0)"
  by (simp add: is_double_def representable_def)

lemma is_doubleI:
  assumes "2 powi lo \<le> x" "x \<le> 2 powi hi" "min_exp \<le> lo" "hi < max_exp"
  shows "is_double (Double s (fl x))"
proof -
  from assms(1) have "0 \<le> x" using two_powi_pos [of lo] by linarith
  then have "fl x \<le> 2 powi hi" using assms(2) by (rule fl_le_two_powi)
  also from assms(4) have "\<dots> < 2 powi max_exp" by simp
  finally have "fl x < 2 powi max_exp" .
  moreover from assms(3) have "(2 :: rat) powi min_exp \<le> 2 powi lo" by simp
  with fl_ge_two_powi [OF assms(1)] have "2 powi min_exp \<le> fl x" by linarith
  ultimately show ?thesis by (simp add: is_double_def normal_def)
qed

lemma float_of_int_is_double:
  assumes "float_of_int n = Some a"
  shows "is_double a" and "n \<noteq> 0 \<Longrightarrow> 1 \<le> magnitude a" and "magnitude a < 2 powi max_exp"
    and "n = 0 \<Longrightarrow> magnitude a = 0"
proof -
  let ?A = "fl (of_int \<bar>n\<bar>)"
  from assms have a: "a = Double (n < 0) ?A" and "\<not> max_exp \<le> expo ?A"
    by (auto simp: float_of_int_def Let_def split: if_splits)
  then show up: "magnitude a < 2 powi max_exp"
    using overflow_iff [of ?A] by (simp add: fl_nonneg)
  show one: "1 \<le> magnitude a" if "n \<noteq> 0"
  proof -
    from that have "1 \<le> \<bar>n\<bar>" by simp
    then have "(of_int 1 :: rat) \<le> of_int \<bar>n\<bar>" unfolding of_int_le_iff .
    then have "(2 :: rat) powi 0 \<le> of_int \<bar>n\<bar>" by simp
    then have "2 powi 0 \<le> ?A" by (rule fl_ge_two_powi)
    then show ?thesis by (simp add: a)
  qed
  show "magnitude a = 0" if "n = 0" using that by (simp add: a)
  show "is_double a"
  proof (cases "n = 0")
    case False
    from one [OF this] have "(2 :: rat) powi min_exp \<le> magnitude a"
      using two_powi_le_iff [of min_exp 0] by (simp add: min_exp_def)
    with up show ?thesis by (simp add: is_double_def normal_def a)
  qed (simp add: a)
qed

section \<open>The order of the floats\<close>

text \<open>Floats are compared by their values: the two zeros are equal in the order without
  being the same float, so the order is a preorder. The operations are functions of
  the values of their operands, and monotone where the exact operations are.\<close>

instantiation double :: preorder
begin

definition less_eq_double :: "double \<Rightarrow> double \<Rightarrow> bool" where
  "a \<le> b \<longleftrightarrow> valof a \<le> valof b"

definition less_double :: "double \<Rightarrow> double \<Rightarrow> bool" where
  "a < b \<longleftrightarrow> valof a < valof b"

instance
  by standard (auto simp: less_eq_double_def less_double_def)

end

lemma valof_float_of_int: "float_of_int n = Some a \<Longrightarrow> valof a = fl (of_int n)"
  by (drule float_of_int_Some) (simp add: abs_if flip: fl_minus)

lemma valof_fmul:
  "0 \<le> magnitude a \<Longrightarrow> 0 \<le> magnitude b \<Longrightarrow> valof (fmul a b) = fl (valof a * valof b)"
  by (simp add: valof_def)

lemma valof_fdiv:
  "0 \<le> magnitude a \<Longrightarrow> 0 \<le> magnitude b \<Longrightarrow> valof (fdiv a b) = fl (valof a / valof b)"
  by (simp add: valof_def)

lemma valof_py_round:
  "valof (py_round a ndigits) =
     fl (of_int (round_half_even (valof a * 10 ^ ndigits)) / 10 ^ ndigits)"
  by (simp add: valof_def)

lemma fl_monotone:
  assumes "x \<le> y"
  shows "fl x \<le> fl y"
proof -
  consider "0 \<le> x" | "x < 0" "0 \<le> y" | "y < 0" by linarith
  then show ?thesis
  proof cases
    case 1
    then show ?thesis using assms by (rule fl_mono)
  next
    case 2
    then have "0 \<le> fl (- x)" "0 \<le> fl y" by (simp_all only: fl_nonneg neg_0_le_iff_le less_imp_le)
    then show ?thesis by simp
  next
    case 3
    with assms have "fl (- y) \<le> fl (- x)" by (intro fl_mono) simp_all
    then show ?thesis by simp
  qed
qed

lemma py_round_mono:
  assumes "a \<le> b"
  shows "py_round a ndigits \<le> py_round b ndigits"
proof -
  from assms have "valof a * 10 ^ ndigits \<le> valof b * 10 ^ ndigits"
    by (simp add: less_eq_double_def)
  then have "round_half_even (valof a * 10 ^ ndigits) \<le> round_half_even (valof b * 10 ^ ndigits)"
    by (rule round_half_even_mono)
  then have "(of_int (round_half_even (valof a * 10 ^ ndigits)) :: rat) / 10 ^ ndigits
      \<le> of_int (round_half_even (valof b * 10 ^ ndigits)) / 10 ^ ndigits"
    by (simp add: divide_right_mono)
  then show ?thesis
    unfolding less_eq_double_def valof_py_round by (rule fl_monotone)
qed

section \<open>Properties of the rounding\<close>



end
