(* ===== verification/Effects.thy ===== *)
theory Effects
  imports Floats
begin

text \<open>
  The world \<^verbatim>\<open>api.py\<close> runs in, as far as the module can observe or change it: the
  values keyword arguments carry, the exceptions that travel through the module, the
  remote endpoint as a state-transforming method, the clock (\<^verbatim>\<open>time.sleep\<close>), the
  logger, the terminal (\<^verbatim>\<open>input\<close>) and the progress bar. Every effect is an event
  appended to one trace, so the order in which calls, sleeps, log records, prompts and
  progress updates happen is part of the state. The component theories are written
  against this interface: they never look inside the endpoint's state \<open>'s\<close> or its
  keyword arguments \<open>'k\<close>.
\<close>

section \<open>Values and exceptions\<close>

text \<open>
  Python values that reach the module through keyword arguments. A float is
  idealised as a rational: NaN and the infinities have no counterpart.
\<close>

datatype pyval = VNone | VBool bool | VInt int | VFloat rat | VStr string | VList "pyval list"

text \<open>
  The exceptions the module raises, catches or lets through. The two transient
  kinds and \<open>OtherError\<close> (any other exception of the remote call) carry the text
  \<^verbatim>\<open>str(e)\<close> that the log records print.
\<close>

datatype error =
    ServiceUnavailableError string
  | RateLimitError string
  | OtherError string
  | UserCanceled
  | UnboundLocalError
  | TypeError
  | ValueError
  | EOFError
  | OverflowError

fun is_transient :: "error \<Rightarrow> bool" where
  "is_transient (ServiceUnavailableError _) = True"
| "is_transient (RateLimitError _) = True"
| "is_transient _ = False"

fun_cases is_transientE: "is_transient e"

text \<open>The number a value stands for in a comparison or as a duration (\<^verbatim>\<open>bool\<close> is a
  subclass of \<^verbatim>\<open>int\<close>); \<open>None\<close> for a value that is no number.\<close>

fun as_rat :: "pyval \<Rightarrow> rat option" where
  "as_rat (VBool b) = Some (if b then 1 else 0)"
| "as_rat (VInt i) = Some (of_int i)"
| "as_rat (VFloat r) = Some r"
| "as_rat _ = None"

text \<open>\<^verbatim>\<open>n < v\<close> for an \<^verbatim>\<open>int\<close> \<open>n\<close>: a \<^verbatim>\<open>TypeError\<close> unless \<open>v\<close> is a number.\<close>

definition py_int_less :: "int \<Rightarrow> pyval \<Rightarrow> error + bool" where
  "py_int_less n v = (case as_rat v of None \<Rightarrow> Inl TypeError | Some r \<Rightarrow> Inr (of_int n < r))"

lemma py_int_less_VInt [simp, py_eval]: "py_int_less n (VInt m) = Inr (n < m)"
  by (simp add: py_int_less_def)

lemma py_int_less_VFloat [simp, py_eval]: "py_int_less n (VFloat r) = Inr (of_int n < r)"
  by (simp add: py_int_less_def)

lemma py_int_less_VBool [simp, py_eval]: "py_int_less n (VBool b) = Inr (n < (if b then 1 else 0))"
  by (simp add: py_int_less_def)

lemma py_int_less_not_number [py_eval]: "as_rat v = None \<Longrightarrow> py_int_less n v = Inl TypeError"
  by (simp add: py_int_less_def)

lemma py_int_less_True_iff:
  "py_int_less n v = Inr True \<longleftrightarrow> (\<exists>r. as_rat v = Some r \<and> of_int n < r)"
  by (auto simp: py_int_less_def split: option.splits)

lemma py_int_less_False_iff:
  "py_int_less n v = Inr False \<longleftrightarrow> (\<exists>r. as_rat v = Some r \<and> r \<le> of_int n)"
  by (auto simp: py_int_less_def split: option.splits)

lemma py_int_less_error_iff:
  "py_int_less n v = Inl e \<longleftrightarrow> as_rat v = None \<and> e = TypeError"
  by (auto simp: py_int_less_def split: option.splits)

section \<open>Events and the world\<close>

datatype level = INFO | ERROR

text \<open>The three log messages of the retry loop, as the values their f-strings print.\<close>

datatype log_record =
    Openai_error error
  | Try_sleeping int pyval
  | Max_retries_exceeded error

text \<open>The cost the confirmation prompt shows, the string \<^verbatim>\<open>'unknown'\<close> or a float, and
  the prompt itself: the cost and the number of tokens.\<close>

datatype cost = Unknown | Cost double

datatype prompt = Prompt cost int

datatype 'k event =
    Call 'k
  | Sleep rat
  | Log level log_record
  | Prompted prompt
  | Bar_open nat
  | Bar_update nat
  | Bar_close

record ('k, 's) world =
  service :: 's
  stdin :: "string list"
  trace :: "'k event list"

type_synonym ('k, 'r, 's) endpoint = "'k \<Rightarrow> 's \<Rightarrow> (error + 'r) \<times> 's"

type_synonym ('a, 'k, 's) outcome = "(error + 'a) \<times> ('k, 's) world"

section \<open>Primitive effects\<close>

definition emit :: "'k event \<Rightarrow> ('k, 's) world \<Rightarrow> ('k, 's) world" where
  "emit e w = w\<lparr>trace := trace w @ [e]\<rparr>"

definition logger_info :: "log_record \<Rightarrow> ('k, 's) world \<Rightarrow> ('k, 's) world" where
  "logger_info r w = emit (Log INFO r) w"

definition logger_error :: "log_record \<Rightarrow> ('k, 's) world \<Rightarrow> ('k, 's) world" where
  "logger_error r w = emit (Log ERROR r) w"

text \<open>\<^verbatim>\<open>time.sleep(v)\<close>: a \<^verbatim>\<open>TypeError\<close> for a value that is no number, a
  \<^verbatim>\<open>ValueError\<close> for a negative one; otherwise the clock advances.\<close>

definition time_sleep :: "pyval \<Rightarrow> ('k, 's) world \<Rightarrow> error + ('k, 's) world" where
  "time_sleep v w =
     (case as_rat v of
        None \<Rightarrow> Inl TypeError
      | Some d \<Rightarrow> if d < 0 then Inl ValueError else Inr (emit (Sleep d) w))"

text \<open>A call of the remote method with its keyword arguments: the endpoint's state
  moves on, whether the call returns or raises.\<close>

definition invoke :: "('k, 'r, 's) endpoint \<Rightarrow> 'k \<Rightarrow> ('k, 's) world \<Rightarrow> ('r, 'k, 's) outcome" where
  "invoke m kw w =
     (case m kw (service w) of (res, s') \<Rightarrow> (res, (emit (Call kw) w)\<lparr>service := s'\<rparr>))"

text \<open>\<^verbatim>\<open>input(p)\<close>: the prompt is written, then a line is read; at the end of the
  input the read raises \<^verbatim>\<open>EOFError\<close>.\<close>

definition py_input :: "prompt \<Rightarrow> ('k, 's) world \<Rightarrow> (string, 'k, 's) outcome" where
  "py_input p w =
     (case stdin w of
        [] \<Rightarrow> (Inl EOFError, emit (Prompted p) w)
      | l # ls \<Rightarrow> (Inr l, (emit (Prompted p) w)\<lparr>stdin := ls\<rparr>))"

text \<open>The progress bar: entering the \<^verbatim>\<open>with\<close> block, \<^verbatim>\<open>progress_bar.update(n)\<close>, and
  leaving the block.\<close>

definition bar_open :: "nat \<Rightarrow> ('k, 's) world \<Rightarrow> ('k, 's) world" where
  "bar_open n w = emit (Bar_open n) w"

definition bar_update :: "nat \<Rightarrow> ('k, 's) world \<Rightarrow> ('k, 's) world" where
  "bar_update n w = emit (Bar_update n) w"

definition bar_close :: "('k, 's) world \<Rightarrow> ('k, 's) world" where
  "bar_close w = emit Bar_close w"

section \<open>Frame and trace lemmas of the primitives\<close>

lemma bar_frame [simp, frame]:
  "service (bar_open n w) = service w" "stdin (bar_open n w) = stdin w"
  "service (bar_update n w) = service w" "stdin (bar_update n w) = stdin w"
  "service (bar_close w) = service w" "stdin (bar_close w) = stdin w"
  by (simp_all add: bar_open_def bar_update_def bar_close_def emit_def)

lemma bar_trace [simp, trace_ext]:
  "trace (bar_open n w) = trace w @ [Bar_open n]"
  "trace (bar_update n w) = trace w @ [Bar_update n]"
  "trace (bar_close w) = trace w @ [Bar_close]"
  by (simp_all add: bar_open_def bar_update_def bar_close_def emit_def)

lemma emit_frame [simp, frame]:
  "service (emit e w) = service w" "stdin (emit e w) = stdin w"
  by (simp_all add: emit_def)

lemma emit_trace [simp, trace_ext]: "trace (emit e w) = trace w @ [e]"
  by (simp add: emit_def)

lemma emit_update_commute [simp]:
  "emit e (w\<lparr>service := s\<rparr>) = (emit e w)\<lparr>service := s\<rparr>"
  "emit e (w\<lparr>stdin := ls\<rparr>) = (emit e w)\<lparr>stdin := ls\<rparr>"
  by (simp_all add: emit_def)

lemma logger_frame [simp, frame]:
  "service (logger_info r w) = service w" "stdin (logger_info r w) = stdin w"
  "service (logger_error r w) = service w" "stdin (logger_error r w) = stdin w"
  by (simp_all add: logger_info_def logger_error_def)

lemma logger_trace [simp, trace_ext]:
  "trace (logger_info r w) = trace w @ [Log INFO r]"
  "trace (logger_error r w) = trace w @ [Log ERROR r]"
  by (simp_all add: logger_info_def logger_error_def)

lemma time_sleep_ok [py_eval]:
  "as_rat v = Some d \<Longrightarrow> 0 \<le> d \<Longrightarrow> time_sleep v w = Inr (emit (Sleep d) w)"
  by (simp add: time_sleep_def)

lemma time_sleep_negative [py_eval]:
  "as_rat v = Some d \<Longrightarrow> d < 0 \<Longrightarrow> time_sleep v w = Inl ValueError"
  by (simp add: time_sleep_def)

lemma time_sleep_not_number [py_eval]: "as_rat v = None \<Longrightarrow> time_sleep v w = Inl TypeError"
  by (simp add: time_sleep_def)

lemma time_sleep_Inr_iff:
  "time_sleep v w = Inr w' \<longleftrightarrow> (\<exists>d. as_rat v = Some d \<and> 0 \<le> d \<and> w' = emit (Sleep d) w)"
  by (auto simp: time_sleep_def split: option.splits)

lemma time_sleep_Inl_iff:
  "time_sleep v w = Inl e \<longleftrightarrow>
     (as_rat v = None \<and> e = TypeError) \<or> (\<exists>d. as_rat v = Some d \<and> d < 0 \<and> e = ValueError)"
  by (auto simp: time_sleep_def split: option.splits)

lemma invoke_result [simp]: "fst (invoke m kw w) = fst (m kw (service w))"
  by (simp add: invoke_def split: prod.splits)

lemma invoke_frame [simp, frame]:
  "service (snd (invoke m kw w)) = snd (m kw (service w))"
  "stdin (snd (invoke m kw w)) = stdin w"
  by (simp_all add: invoke_def split: prod.splits)

lemma invoke_trace [simp, trace_ext]: "trace (snd (invoke m kw w)) = trace w @ [Call kw]"
  by (simp add: invoke_def split: prod.splits)

lemma invoke_eq:
  "invoke m kw w = (fst (m kw (service w)),
     w\<lparr>service := snd (m kw (service w)), trace := trace w @ [Call kw]\<rparr>)"
  by (simp add: invoke_def emit_def split: prod.splits)

lemma py_input_frame [simp, frame]: "service (snd (py_input p w)) = service w"
  by (simp add: py_input_def split: list.splits)

lemma py_input_trace [simp, trace_ext]: "trace (snd (py_input p w)) = trace w @ [Prompted p]"
  by (simp add: py_input_def split: list.splits)

lemma py_input_stdin [simp]: "stdin (snd (py_input p w)) = tl (stdin w)"
  by (simp add: py_input_def split: list.splits)

lemma py_input_result:
  "fst (py_input p w) = (case stdin w of [] \<Rightarrow> Inl EOFError | l # _ \<Rightarrow> Inr l)"
  by (simp add: py_input_def split: list.splits)

section \<open>Projections of a trace\<close>

fun is_call :: "'k event \<Rightarrow> bool" where
  "is_call (Call _) = True"
| "is_call _ = False"

fun is_sleep :: "'k event \<Rightarrow> bool" where
  "is_sleep (Sleep _) = True"
| "is_sleep _ = False"

fun is_prompt :: "'k event \<Rightarrow> bool" where
  "is_prompt (Prompted _) = True"
| "is_prompt _ = False"

definition calls :: "'k event list \<Rightarrow> 'k list" where
  "calls es = concat (map (\<lambda>e. case e of Call kw \<Rightarrow> [kw] | _ \<Rightarrow> []) es)"

definition sleeps :: "'k event list \<Rightarrow> rat list" where
  "sleeps es = concat (map (\<lambda>e. case e of Sleep d \<Rightarrow> [d] | _ \<Rightarrow> []) es)"

definition logs :: "'k event list \<Rightarrow> (level \<times> log_record) list" where
  "logs es = concat (map (\<lambda>e. case e of Log l r \<Rightarrow> [(l, r)] | _ \<Rightarrow> []) es)"

definition bar_updates :: "'k event list \<Rightarrow> nat list" where
  "bar_updates es = concat (map (\<lambda>e. case e of Bar_update n \<Rightarrow> [n] | _ \<Rightarrow> []) es)"

lemma calls_simps [simp]:
  "calls [] = []" "calls (Call kw # es) = kw # calls es"
  "calls (Sleep d # es) = calls es" "calls (Log l r # es) = calls es"
  "calls (Prompted p # es) = calls es" "calls (Bar_open n # es) = calls es"
  "calls (Bar_update n # es) = calls es" "calls (Bar_close # es) = calls es"
  by (simp_all add: calls_def)

lemma calls_append [simp]: "calls (es @ fs) = calls es @ calls fs"
  by (simp add: calls_def)

lemma sleeps_simps [simp]:
  "sleeps [] = []" "sleeps (Sleep d # es) = d # sleeps es"
  "sleeps (Call kw # es) = sleeps es" "sleeps (Log l r # es) = sleeps es"
  "sleeps (Prompted p # es) = sleeps es" "sleeps (Bar_open n # es) = sleeps es"
  "sleeps (Bar_update n # es) = sleeps es" "sleeps (Bar_close # es) = sleeps es"
  by (simp_all add: sleeps_def)

lemma sleeps_append [simp]: "sleeps (es @ fs) = sleeps es @ sleeps fs"
  by (simp add: sleeps_def)

lemma logs_simps [simp]:
  "logs [] = []" "logs (Log l r # es) = (l, r) # logs es"
  "logs (Call kw # es) = logs es" "logs (Sleep d # es) = logs es"
  "logs (Prompted p # es) = logs es" "logs (Bar_open n # es) = logs es"
  "logs (Bar_update n # es) = logs es" "logs (Bar_close # es) = logs es"
  by (simp_all add: logs_def)

lemma logs_append [simp]: "logs (es @ fs) = logs es @ logs fs"
  by (simp add: logs_def)

lemma bar_updates_simps [simp]:
  "bar_updates [] = []" "bar_updates (Bar_update n # es) = n # bar_updates es"
  "bar_updates (Call kw # es) = bar_updates es" "bar_updates (Sleep d # es) = bar_updates es"
  "bar_updates (Log l r # es) = bar_updates es" "bar_updates (Prompted p # es) = bar_updates es"
  "bar_updates (Bar_open m # es) = bar_updates es" "bar_updates (Bar_close # es) = bar_updates es"
  by (simp_all add: bar_updates_def)

lemma bar_updates_append [simp]: "bar_updates (es @ fs) = bar_updates es @ bar_updates fs"
  by (simp add: bar_updates_def)

text \<open>Induction over a trace, one case per kind of event.\<close>

lemma event_list_induct [case_names Nil Call Sleep Log Prompted Bar_open Bar_update Bar_close]:
  assumes "P []"
    and "\<And>kw es. P es \<Longrightarrow> P (Call kw # es)"
    and "\<And>d es. P es \<Longrightarrow> P (Sleep d # es)"
    and "\<And>l r es. P es \<Longrightarrow> P (Log l r # es)"
    and "\<And>p es. P es \<Longrightarrow> P (Prompted p # es)"
    and "\<And>n es. P es \<Longrightarrow> P (Bar_open n # es)"
    and "\<And>n es. P es \<Longrightarrow> P (Bar_update n # es)"
    and "\<And>es. P es \<Longrightarrow> P (Bar_close # es)"
  shows "P es"
proof (induction es)
  case Nil
  show ?case by (rule assms(1))
next
  case (Cons e es)
  then show ?case by (cases e) (auto intro: assms)
qed

lemma length_calls: "length (calls es) = count_where is_call es"
  by (induction es rule: event_list_induct) simp_all

lemma length_sleeps: "length (sleeps es) = count_where is_sleep es"
  by (induction es rule: event_list_induct) simp_all

text \<open>The events of the progress bar, in order.\<close>

fun is_bar :: "'k event \<Rightarrow> bool" where
  "is_bar (Bar_open n) = True"
| "is_bar (Bar_update n) = True"
| "is_bar Bar_close = True"
| "is_bar _ = False"

definition bar_events :: "'k event list \<Rightarrow> 'k event list" where
  "bar_events es = filter is_bar es"

lemma bar_events_simps [simp]:
  "bar_events [] = []"
  "bar_events (Bar_open n # es) = Bar_open n # bar_events es"
  "bar_events (Bar_update n # es) = Bar_update n # bar_events es"
  "bar_events (Bar_close # es) = Bar_close # bar_events es"
  "bar_events (Call kw # es) = bar_events es"
  "bar_events (Sleep d # es) = bar_events es"
  "bar_events (Log l r # es) = bar_events es"
  "bar_events (Prompted p # es) = bar_events es"
  by (simp_all add: bar_events_def)

lemma bar_events_append [simp]: "bar_events (es @ fs) = bar_events es @ bar_events fs"
  by (simp add: bar_events_def)

lemma bar_updates_bar_events [simp]: "bar_updates (bar_events es) = bar_updates es"
  by (induction es rule: event_list_induct) simp_all

lemma bar_updates_map_Bar_update [simp]:
  "bar_updates (map (\<lambda>x. Bar_update (f x)) xs) = map f xs"
  by (induction xs) simp_all

lemma calls_bar_events [simp]: "calls (bar_events es) = []"
  by (induction es rule: event_list_induct) simp_all

section \<open>Worlds that extend a world\<close>

text \<open>
  Every operation of the module only appends to the trace. \<open>extends w w'\<close> says that
  the trace of \<open>w'\<close> starts with the trace of \<open>w\<close>, and \<open>new_events w w'\<close> is what
  was appended.
\<close>

definition new_events :: "('k, 's) world \<Rightarrow> ('k, 's) world \<Rightarrow> 'k event list" where
  "new_events w w' = drop (length (trace w)) (trace w')"

definition extends :: "('k, 's) world \<Rightarrow> ('k, 's) world \<Rightarrow> bool" where
  "extends w w' \<longleftrightarrow> prefix (trace w) (trace w')"

lemma extends_refl [simp, intro]: "extends w w"
  by (simp add: extends_def)

lemma extends_trans [trans]: "extends w w1 \<Longrightarrow> extends w1 w2 \<Longrightarrow> extends w w2"
  by (auto simp: extends_def)

lemma new_events_refl [simp]: "new_events w w = []"
  by (simp add: new_events_def)

lemma new_events_trans:
  "extends w w1 \<Longrightarrow> extends w1 w2 \<Longrightarrow> new_events w w2 = new_events w w1 @ new_events w1 w2"
  by (auto simp: extends_def new_events_def prefix_def)

lemma extendsI: "trace w' = trace w @ evs \<Longrightarrow> extends w w'"
  by (simp add: extends_def)

lemma new_eventsI: "trace w' = trace w @ evs \<Longrightarrow> new_events w w' = evs"
  by (simp add: new_events_def)

lemma trace_new_events: "extends w w' \<Longrightarrow> trace w' = trace w @ new_events w w'"
  by (auto simp: extends_def new_events_def prefix_def)

lemma emit_extends [simp, intro]: "extends w (emit e w)"
  by (simp add: extends_def)

lemma bar_extends [simp, intro]:
  "extends w (bar_open n w)" "extends w (bar_update n w)" "extends w (bar_close w)"
  by (simp_all add: extends_def)

lemma new_events_emit [simp]: "new_events w (emit e w) = [e]"
  by (simp add: new_events_def)

lemma new_events_bar [simp]:
  "new_events w (bar_open n w) = [Bar_open n]"
  "new_events w (bar_update n w) = [Bar_update n]"
  "new_events w (bar_close w) = [Bar_close]"
  by (simp_all add: new_events_def)

section \<open>A scripted endpoint\<close>

text \<open>An endpoint that answers from a list of prepared replies, one per call, whatever
  the keyword arguments; it stands for the remote service in concrete runs.\<close>

definition scripted :: "('k, 'r, (error + 'r) list) endpoint" where
  "scripted kw s = (case s of [] \<Rightarrow> (Inl (OtherError ''no reply scripted''), []) | r # rs \<Rightarrow> (r, rs))"

lemma scripted_simps [simp]:
  "scripted kw [] = (Inl (OtherError ''no reply scripted''), [])"
  "scripted kw (r # rs) = (r, rs)"
  by (simp_all add: scripted_def)

section \<open>An endpoint with transient faults\<close>

text \<open>
  \<open>flaky m\<close> is the endpoint \<open>m\<close> behind a plan of faults: per call the next entry of
  the plan is taken; \<open>Some e\<close> makes the call raise \<open>e\<close> without reaching \<open>m\<close>,
  \<open>None\<close> (or the end of the plan) passes the call on. \<open>bursts_below k cur plan\<close>
  says that all faults of the plan are transient and that, after \<open>cur\<close> faults already
  in a row, it never has \<open>k\<close> or more in a row.
\<close>

definition flaky :: "('k, 'r, 's) endpoint \<Rightarrow> ('k, 'r, error option list \<times> 's) endpoint" where
  "flaky m kw = (\<lambda>(plan, s).
     case plan of
       Some e # plan' \<Rightarrow> (Inl e, (plan', s))
     | _ \<Rightarrow> (case m kw s of (r, s') \<Rightarrow> (r, (tl plan, s'))))"

fun bursts_below :: "nat \<Rightarrow> nat \<Rightarrow> error option list \<Rightarrow> bool" where
  "bursts_below k cur [] = True"
| "bursts_below k cur (None # plan) = bursts_below k 0 plan"
| "bursts_below k cur (Some e # plan) =
     (is_transient e \<and> Suc cur < k \<and> bursts_below k (Suc cur) plan)"

lemma flaky_simps [simp]:
  "flaky m kw (Some e # plan, s) = (Inl e, (plan, s))"
  "flaky m kw (None # plan, s) = (fst (m kw s), (plan, snd (m kw s)))"
  "flaky m kw ([], s) = (fst (m kw s), ([], snd (m kw s)))"
  by (simp_all add: flaky_def split: prod.splits)

end
