(* ===== verification/Retry.thy ===== *)
theory Retry
  imports Effects
begin

text \<open>
  The retrying caller, \<^verbatim>\<open>openai_method_retry\<close> of \<^verbatim>\<open>api.py\<close>. The \<^verbatim>\<open>while\<close> loop is
  the recursive function \<open>retry_loop\<close> over the loop's variables: the counter
  \<^verbatim>\<open>num_tries\<close> and the local \<^verbatim>\<open>exception\<close>, which is unbound (\<open>None\<close>) until the
  first handled failure. The function is total: the distance from the counter to the
  bound shrinks with every iteration. The lemmas give one equation per path through
  the loop body, the result and the trace for a given sequence of replies of the
  endpoint, and what holds of every run.
\<close>

section \<open>Definitions\<close>

definition default_max_num_tries :: pyval where
  "default_max_num_tries = VInt 5"

definition default_sleep_sec :: pyval where
  "default_sleep_sec = VInt 10"

function retry_loop ::
  "('k, 'r, 's) endpoint \<Rightarrow> pyval \<Rightarrow> pyval \<Rightarrow> 'k \<Rightarrow> int \<Rightarrow> error option \<Rightarrow> ('k, 's) world
     \<Rightarrow> ('r, 'k, 's) outcome" where
  "retry_loop openai_method max_num_tries sleep_sec kw num_tries exception w =
     (case py_int_less num_tries max_num_tries of
        Inl err \<Rightarrow> (Inl err, w)
      | Inr continue \<Rightarrow>
          if continue then
            (case invoke openai_method kw w of
               (Inr r, w1) \<Rightarrow> (Inr r, w1)
             | (Inl e, w1) \<Rightarrow>
                 if is_transient e then
                   (let num_tries' = num_tries + 1;
                        w2 = logger_info (Openai_error e) w1;
                        w3 = logger_info (Try_sleeping num_tries' sleep_sec) w2
                    in case time_sleep sleep_sec w3 of
                         Inl err \<Rightarrow> (Inl err, w3)
                       | Inr w4 \<Rightarrow>
                           retry_loop openai_method max_num_tries sleep_sec kw num_tries' (Some e) w4)
                 else (Inl e, w1))
          else
            (case exception of
               None \<Rightarrow> (Inl UnboundLocalError, w)
             | Some e \<Rightarrow> (Inl e, logger_error (Max_retries_exceeded e) w)))"
  by pat_completeness auto

text \<open>The number of iterations still possible: the bound, rounded up, less the counter.\<close>

definition tries_left :: "pyval \<Rightarrow> int \<Rightarrow> nat" where
  "tries_left max_num_tries num_tries =
     (case as_rat max_num_tries of None \<Rightarrow> 0 | Some r \<Rightarrow> nat (\<lceil>r\<rceil> - num_tries))"

lemma tries_left_decreases:
  "py_int_less n v = Inr True \<Longrightarrow> tries_left v (n + 1) < tries_left v n"
  by (auto simp: py_int_less_True_iff tries_left_def less_ceiling_iff)

termination retry_loop
  by (relation "measure (\<lambda>(m, v, sl, kw, n, exc, w). tries_left v n)")
     (auto simp: tries_left_decreases)

declare retry_loop.simps [simp del]

definition openai_method_retry ::
  "('k, 'r, 's) endpoint \<Rightarrow> pyval \<Rightarrow> pyval \<Rightarrow> 'k \<Rightarrow> ('k, 's) world \<Rightarrow> ('r, 'k, 's) outcome" where
  "openai_method_retry openai_method max_num_tries sleep_sec kw w =
     retry_loop openai_method max_num_tries sleep_sec kw 0 None w"

section \<open>One equation per path\<close>

lemma retry_loop_type_error:
  "as_rat v = None \<Longrightarrow> retry_loop m v sl kw n exc w = (Inl TypeError, w)"
  by (subst retry_loop.simps) (simp add: py_int_less_not_number)

lemma retry_loop_unbound:
  "py_int_less n v = Inr False \<Longrightarrow> retry_loop m v sl kw n None w = (Inl UnboundLocalError, w)"
  by (subst retry_loop.simps) simp

lemma retry_loop_exhausted:
  "py_int_less n v = Inr False \<Longrightarrow>
     retry_loop m v sl kw n (Some e) w = (Inl e, logger_error (Max_retries_exceeded e) w)"
  by (subst retry_loop.simps) simp

lemma retry_loop_returns:
  assumes "py_int_less n v = Inr True" "m kw (service w) = (Inr r, s')"
  shows "retry_loop m v sl kw n exc w = (Inr r, (emit (Call kw) w)\<lparr>service := s'\<rparr>)"
  using assms by (subst retry_loop.simps) (simp add: invoke_def)

lemma retry_loop_permanent:
  assumes "py_int_less n v = Inr True" "m kw (service w) = (Inl e, s')" "\<not> is_transient e"
  shows "retry_loop m v sl kw n exc w = (Inl e, (emit (Call kw) w)\<lparr>service := s'\<rparr>)"
  using assms by (subst retry_loop.simps) (simp add: invoke_def)

lemma retry_first_call_returns:
  assumes "as_rat v = Some b" "0 < b" "m kw (service w) = (Inr r, s')"
  shows "openai_method_retry m v sl kw w = (Inr r, w\<lparr>service := s', trace := trace w @ [Call kw]\<rparr>)"
proof -
  from assms(1,2) have "py_int_less 0 v = Inr True"
    by (simp add: py_int_less_True_iff)
  with assms(3) show ?thesis
    by (simp add: openai_method_retry_def retry_loop_returns emit_def)
qed

text \<open>The world after a handled failure, up to the sleep: the call, then the two log
  records.\<close>

definition after_failure :: "'k \<Rightarrow> pyval \<Rightarrow> int \<Rightarrow> error \<Rightarrow> 's \<Rightarrow> ('k, 's) world \<Rightarrow> ('k, 's) world" where
  "after_failure kw sl n e s' w =
     logger_info (Try_sleeping (n + 1) sl)
       (logger_info (Openai_error e) ((emit (Call kw) w)\<lparr>service := s'\<rparr>))"

lemma retry_loop_sleep_fails:
  assumes "py_int_less n v = Inr True" "m kw (service w) = (Inl e, s')" "is_transient e"
    and "time_sleep sl (after_failure kw sl n e s' w) = Inl err"
  shows "retry_loop m v sl kw n exc w = (Inl err, after_failure kw sl n e s' w)"
  using assms by (subst retry_loop.simps) (simp add: invoke_def after_failure_def Let_def)

lemma retry_loop_again:
  assumes "py_int_less n v = Inr True" "m kw (service w) = (Inl e, s')" "is_transient e"
    and "as_rat sl = Some d" "0 \<le> d"
  shows "retry_loop m v sl kw n exc w =
     retry_loop m v sl kw (n + 1) (Some e) (emit (Sleep d) (after_failure kw sl n e s' w))"
  using assms
  by (subst retry_loop.simps) (simp add: invoke_def after_failure_def time_sleep_ok Let_def)

lemma after_failure_frame [simp, frame]:
  "service (after_failure kw sl n e s' w) = s'"
  "stdin (after_failure kw sl n e s' w) = stdin w"
  by (simp_all add: after_failure_def)

lemma after_failure_trace [simp, trace_ext]:
  "trace (after_failure kw sl n e s' w) =
     trace w @ [Call kw, Log INFO (Openai_error e), Log INFO (Try_sleeping (n + 1) sl)]"
  by (simp add: after_failure_def)

section \<open>Runs against a sequence of replies\<close>

text \<open>
  The loop sees the endpoint only through what its calls return or raise. \<open>replies\<close>
  lists the results of the first \<open>n\<close> calls from a state of the endpoint,
  \<open>service_after\<close> is its state after them, and \<open>failed_rounds\<close> is the trace of a
  run of handled failures: per failure the call, the two log records and the sleep.
\<close>

fun replies :: "('k, 'r, 's) endpoint \<Rightarrow> 'k \<Rightarrow> 's \<Rightarrow> nat \<Rightarrow> (error + 'r) list" where
  "replies m kw s 0 = []"
| "replies m kw s (Suc n) = fst (m kw s) # replies m kw (snd (m kw s)) n"

fun service_after :: "('k, 'r, 's) endpoint \<Rightarrow> 'k \<Rightarrow> 's \<Rightarrow> nat \<Rightarrow> 's" where
  "service_after m kw s 0 = s"
| "service_after m kw s (Suc n) = service_after m kw (snd (m kw s)) n"

fun failed_rounds :: "'k \<Rightarrow> pyval \<Rightarrow> rat \<Rightarrow> int \<Rightarrow> error list \<Rightarrow> 'k event list" where
  "failed_rounds kw sl d n [] = []"
| "failed_rounds kw sl d n (e # es) =
     [Call kw, Log INFO (Openai_error e), Log INFO (Try_sleeping (n + 1) sl), Sleep d]
       @ failed_rounds kw sl d (n + 1) es"

lemma replies_Suc_Inl:
  "replies m kw s (Suc n) = Inl e # rs \<Longrightarrow> \<exists>s'. m kw s = (Inl e, s') \<and> replies m kw s' n = rs"
  by (cases "m kw s") auto

lemma retry_loop_failures:
  assumes sl: "as_rat sl = Some d" "0 \<le> d"
    and v: "as_rat v = Some b"
  shows "replies m kw (service w) (length es) = map Inl es \<Longrightarrow> list_all is_transient es \<Longrightarrow>
     (es \<noteq> [] \<Longrightarrow> of_int n + of_nat (length es) < b + 1) \<Longrightarrow>
     retry_loop m v sl kw n exc w =
       retry_loop m v sl kw (n + int (length es)) (if es = [] then exc else Some (last es))
         (w\<lparr>service := service_after m kw (service w) (length es),
            trace := trace w @ failed_rounds kw sl d n es\<rparr>)"
proof (induction es arbitrary: n exc w)
  case Nil
  then show ?case by simp
next
  case (Cons e es)
  from Cons.prems(1) obtain s' where m: "m kw (service w) = (Inl e, s')"
    and rest: "replies m kw s' (length es) = map Inl es"
    using replies_Suc_Inl [of m kw "service w" "length es" e "map Inl es"] by auto
  from Cons.prems(3) have "rat_of_int n < b" by simp
  with v have less: "py_int_less n v = Inr True"
    by (simp add: py_int_less_True_iff)
  let ?w = "emit (Sleep d) (after_failure kw sl n e s' w)"
  from less m Cons.prems(2) sl
  have "retry_loop m v sl kw n exc w = retry_loop m v sl kw (n + 1) (Some e) ?w"
    by (intro retry_loop_again) simp_all
  also have "\<dots> = retry_loop m v sl kw (n + 1 + int (length es))
       (if es = [] then Some e else Some (last es))
       (?w\<lparr>service := service_after m kw (service ?w) (length es),
            trace := trace ?w @ failed_rounds kw sl d (n + 1) es\<rparr>)"
    using rest Cons.prems(2,3) by (intro Cons.IH) simp_all
  also have "?w\<lparr>service := service_after m kw (service ?w) (length es),
            trace := trace ?w @ failed_rounds kw sl d (n + 1) es\<rparr> =
     w\<lparr>service := service_after m kw (service w) (length (e # es)),
            trace := trace w @ failed_rounds kw sl d n (e # es)\<rparr>"
    using m by (simp add: emit_def after_failure_def logger_info_def)
  finally show ?case by (simp add: add.assoc)
qed


lemma length_replies [simp]: "length (replies m kw s n) = n"
  by (induction n arbitrary: s) simp_all

lemma service_after_Suc: "service_after m kw s (Suc n) = snd (m kw (service_after m kw s n))"
  by (induction n arbitrary: s) simp_all

lemma replies_Suc: "replies m kw s (Suc n) = replies m kw s n @ [fst (m kw (service_after m kw s n))]"
  by (induction n arbitrary: s) simp_all

lemma replies_snoc_iff:
  "replies m kw s (Suc n) = rs @ [r] \<longleftrightarrow>
     replies m kw s n = rs \<and> fst (m kw (service_after m kw s n)) = r"
  by (simp only: replies_Suc append1_eq_conv)

lemma length_failed_rounds [simp]: "length (failed_rounds kw sl d n es) = 4 * length es"
  by (induction es arbitrary: n) simp_all

lemma calls_failed_rounds [simp]: "calls (failed_rounds kw sl d n es) = replicate (length es) kw"
  by (induction es arbitrary: n) simp_all

lemma sleeps_failed_rounds [simp]: "sleeps (failed_rounds kw sl d n es) = replicate (length es) d"
  by (induction es arbitrary: n) simp_all

lemma retry_loop_returns_after:
  assumes "as_rat sl = Some d" "0 \<le> d" "as_rat v = Some b"
    and rs: "replies m kw (service w) (Suc (length es)) = map Inl es @ [Inr r]"
    and "list_all is_transient es" "of_int n + of_nat (length es) < b"
  shows "retry_loop m v sl kw n exc w =
     (Inr r, w\<lparr>service := service_after m kw (service w) (Suc (length es)),
               trace := trace w @ failed_rounds kw sl d n es @ [Call kw]\<rparr>)"
proof -
  let ?s = "service_after m kw (service w) (length es)"
  let ?w = "w\<lparr>service := ?s, trace := trace w @ failed_rounds kw sl d n es\<rparr>"
  from rs have "replies m kw (service w) (length es) = map Inl es \<and> fst (m kw ?s) = Inr r"
    by (simp only: replies_snoc_iff)
  then have fails: "replies m kw (service w) (length es) = map Inl es"
    and last: "m kw ?s = (Inr r, service_after m kw (service w) (Suc (length es)))"
    by (simp_all add: service_after_Suc prod_eq_iff del: service_after.simps)
  from assms(3,6) have "py_int_less (n + int (length es)) v = Inr True"
    by (simp add: py_int_less_True_iff)
  with last have "retry_loop m v sl kw (n + int (length es))
      (if es = [] then exc else Some (last es)) ?w =
      (Inr r, (emit (Call kw) ?w)\<lparr>service := service_after m kw (service w) (Suc (length es))\<rparr>)"
    by (intro retry_loop_returns) simp_all
  moreover have "of_int n + of_nat (length es) < b + 1"
    using assms(6) by linarith
  then have "retry_loop m v sl kw n exc w =
      retry_loop m v sl kw (n + int (length es)) (if es = [] then exc else Some (last es)) ?w"
    by (intro retry_loop_failures [OF assms(1-3) fails assms(5)])
  ultimately show ?thesis by (simp add: emit_def)
qed

lemma retry_loop_exhausts_after:
  assumes "as_rat sl = Some d" "0 \<le> d" "as_rat v = Some b"
    and rs: "replies m kw (service w) (length es) = map Inl es"
    and "list_all is_transient es" "es \<noteq> []"
    and "of_int n + of_nat (length es) - 1 < b" "b \<le> of_int n + of_nat (length es)"
  shows "retry_loop m v sl kw n exc w =
     (Inl (last es), w\<lparr>service := service_after m kw (service w) (length es),
        trace := trace w @ failed_rounds kw sl d n es @ [Log ERROR (Max_retries_exceeded (last es))]\<rparr>)"
proof -
  let ?w = "w\<lparr>service := service_after m kw (service w) (length es),
     trace := trace w @ failed_rounds kw sl d n es\<rparr>"
  from assms(3,8) have "py_int_less (n + int (length es)) v = Inr False"
    by (simp add: py_int_less_False_iff)
  then have "retry_loop m v sl kw (n + int (length es)) (Some (last es)) ?w =
      (Inl (last es), logger_error (Max_retries_exceeded (last es)) ?w)"
    by (rule retry_loop_exhausted)
  moreover have "of_int n + of_nat (length es) < b + 1"
    using assms(7) by linarith
  then have "retry_loop m v sl kw n exc w =
      retry_loop m v sl kw (n + int (length es)) (if es = [] then exc else Some (last es)) ?w"
    by (intro retry_loop_failures [OF assms(1-3) rs assms(5)])
  ultimately show ?thesis using \<open>es \<noteq> []\<close> by (simp add: logger_error_def emit_def)
qed


section \<open>The loop as a function of the replies\<close>

text \<open>
  \<open>run_replies\<close> is the loop without the world: from the replies the endpoint will
  give, one per remaining iteration, it computes the result and the events of the run.
  \<open>retry_loop_refines\<close> states that the loop is this function, replayed on the world:
  the result and the new events depend on the endpoint through its replies only.
\<close>

lemma tries_left_0_iff: "as_rat v = Some b \<Longrightarrow> tries_left v n = 0 \<longleftrightarrow> b \<le> of_int n"
  by (simp add: tries_left_def ceiling_le_iff)

lemma tries_left_Suc:
  "as_rat v = Some b \<Longrightarrow> tries_left v n = Suc k \<Longrightarrow> of_int n < b \<and> tries_left v (n + 1) = k"
  by (auto simp: tries_left_def less_ceiling_iff [symmetric])

fun run_replies :: "'k \<Rightarrow> pyval \<Rightarrow> int \<Rightarrow> error option \<Rightarrow> (error + 'r) list
    \<Rightarrow> (error + 'r) \<times> 'k event list" where
  "run_replies kw sl n exc [] =
     (case exc of
        None \<Rightarrow> (Inl UnboundLocalError, [])
      | Some e \<Rightarrow> (Inl e, [Log ERROR (Max_retries_exceeded e)]))"
| "run_replies kw sl n exc (Inr r # rs) = (Inr r, [Call kw])"
| "run_replies kw sl n exc (Inl e # rs) =
     (if is_transient e then
        (let round = [Call kw, Log INFO (Openai_error e), Log INFO (Try_sleeping (n + 1) sl)]
         in case as_rat sl of
              None \<Rightarrow> (Inl TypeError, round)
            | Some d \<Rightarrow>
                if d < 0 then (Inl ValueError, round)
                else (case run_replies kw sl (n + 1) (Some e) rs of
                        (res, evs) \<Rightarrow> (res, round @ Sleep d # evs)))
      else (Inl e, [Call kw]))"

definition replay :: "('k, 'r, 's) endpoint \<Rightarrow> 'k \<Rightarrow> (error + 'r) \<times> 'k event list \<Rightarrow> ('k, 's) world
    \<Rightarrow> ('r, 'k, 's) outcome" where
  "replay m kw run w =
     (fst run, w\<lparr>service := service_after m kw (service w) (length (calls (snd run))),
                 trace := trace w @ snd run\<rparr>)"

text \<open>One iteration, for the loop and for the replayed run: both unfold to the same
  case analysis on the reply of the call and on the outcome of the sleep.\<close>

lemma retry_loop_unfold:
  assumes "py_int_less n v = Inr True" "m kw (service w) = (res, s')"
  shows "retry_loop m v sl kw n exc w =
     (case res of
        Inr r \<Rightarrow> (Inr r, (emit (Call kw) w)\<lparr>service := s'\<rparr>)
      | Inl e \<Rightarrow>
          if is_transient e then
            (case time_sleep sl (after_failure kw sl n e s' w) of
               Inl err \<Rightarrow> (Inl err, after_failure kw sl n e s' w)
             | Inr w4 \<Rightarrow> retry_loop m v sl kw (n + 1) (Some e) w4)
          else (Inl e, (emit (Call kw) w)\<lparr>service := s'\<rparr>))"
  using assms
  by (subst retry_loop.simps) (simp add: invoke_def after_failure_def Let_def split: sum.splits)

lemma after_failure_eq:
  "after_failure kw sl n e s' w =
     w\<lparr>service := s',
       trace := trace w @ [Call kw, Log INFO (Openai_error e), Log INFO (Try_sleeping (n + 1) sl)]\<rparr>"
  by (simp add: after_failure_def logger_info_def emit_def)

lemma replay_unfold:
  assumes m: "m kw (service w) = (res, s')"
  shows "replay m kw (run_replies kw sl n exc (res # replies m kw s' k)) w =
     (case res of
        Inr r \<Rightarrow> (Inr r, (emit (Call kw) w)\<lparr>service := s'\<rparr>)
      | Inl e \<Rightarrow>
          if is_transient e then
            (case time_sleep sl (after_failure kw sl n e s' w) of
               Inl err \<Rightarrow> (Inl err, after_failure kw sl n e s' w)
             | Inr w4 \<Rightarrow>
                 replay m kw (run_replies kw sl (n + 1) (Some e) (replies m kw (service w4) k)) w4)
          else (Inl e, (emit (Call kw) w)\<lparr>service := s'\<rparr>))"
proof (cases res)
  case (Inr r)
  with m show ?thesis by (simp add: replay_def emit_def)
next
  case res: (Inl e)
  show ?thesis
  proof (cases "is_transient e")
    case False
    with res m show ?thesis by (simp add: replay_def emit_def)
  next
    case True
    show ?thesis
    proof (cases "time_sleep sl (after_failure kw sl n e s' w)")
      case (Inl err)
      then have "as_rat sl = None \<and> err = TypeError \<or>
          (\<exists>d. as_rat sl = Some d \<and> d < 0 \<and> err = ValueError)"
        by (simp add: time_sleep_Inl_iff)
      with True m
      have "replay m kw (run_replies kw sl n exc (Inl e # replies m kw s' k)) w =
          (Inl err, after_failure kw sl n e s' w)"
        by (auto simp: replay_def Let_def after_failure_eq)
      with True Inl show ?thesis unfolding res by (simp only: sum.case if_True)
    next
      case (Inr w4)
      then obtain d where d: "as_rat sl = Some d" "0 \<le> d"
        and w4: "w4 = emit (Sleep d) (after_failure kw sl n e s' w)"
        by (auto simp: time_sleep_Inr_iff)
      with True m
      have "replay m kw (run_replies kw sl n exc (Inl e # replies m kw s' k)) w =
          replay m kw (run_replies kw sl (n + 1) (Some e) (replies m kw (service w4) k)) w4"
        by (simp add: replay_def Let_def after_failure_eq emit_def split: prod.splits)
      with True Inr show ?thesis unfolding res by (simp only: sum.case if_True)
    qed
  qed
qed

lemma retry_loop_refines:
  assumes v: "as_rat v = Some b"
  shows "tries_left v n = k \<Longrightarrow>
     retry_loop m v sl kw n exc w =
       replay m kw (run_replies kw sl n exc (replies m kw (service w) k)) w"
proof (induction k arbitrary: n exc w)
  case 0
  with v have "py_int_less n v = Inr False"
    by (simp add: tries_left_0_iff py_int_less_False_iff)
  then show ?case
    by (cases exc) (simp_all add: retry_loop_unbound retry_loop_exhausted replay_def
        logger_error_def emit_def)
next
  case (Suc k)
  with v have less: "py_int_less n v = Inr True" and left: "tries_left v (n + 1) = k"
    using tries_left_Suc [OF v Suc.prems] by (simp_all add: py_int_less_True_iff)
  obtain res s' where m: "m kw (service w) = (res, s')" by (cases "m kw (service w)")
  from m have "replies m kw (service w) (Suc k) = res # replies m kw s' k" by simp
  then show ?case
    by (simp only: retry_loop_unfold [where m = m and kw = kw, OF less m]
          replay_unfold [where m = m and kw = kw, OF m])
       (simp add: Suc.IH [OF left] split: sum.splits)
qed


lemma run_replies_calls_le: "length (calls (snd (run_replies kw sl n exc rs))) \<le> length rs"
  by (induction kw sl n exc rs rule: run_replies.induct)
     (auto simp: Let_def split: option.splits prod.splits)

lemma run_replies_sleeps_le:
  "length (sleeps (snd (run_replies kw sl n exc rs)))
     \<le> length (calls (snd (run_replies kw sl n exc rs)))"
  by (induction kw sl n exc rs rule: run_replies.induct)
     (auto simp: Let_def split: option.splits prod.splits)

lemma run_replies_returned_sleeps:
  "fst (run_replies kw sl n exc rs) = Inr r \<Longrightarrow>
     Suc (length (sleeps (snd (run_replies kw sl n exc rs))))
       = length (calls (snd (run_replies kw sl n exc rs)))"
  by (induction kw sl n exc rs rule: run_replies.induct)
     (auto simp: Let_def split: option.splits prod.splits if_splits)

lemma run_replies_returns_after:
  assumes "list_all is_transient es" "es \<noteq> [] \<Longrightarrow> \<exists>d. as_rat sl = Some d \<and> 0 \<le> d"
  shows "fst (run_replies kw sl n exc (map Inl es @ Inr r # rest)) = Inr r"
  using assms by (induction es arbitrary: n exc) (auto simp: Let_def case_prod_unfold)

lemma run_replies_returned_only_after:
  "fst (run_replies kw sl n exc rs) = Inr r \<Longrightarrow>
     \<exists>es rest. rs = map Inl es @ Inr r # rest \<and> list_all is_transient es \<and>
       (es \<noteq> [] \<longrightarrow> (\<exists>d. as_rat sl = Some d \<and> 0 \<le> d))"
proof (induction kw sl n exc rs rule: run_replies.induct)
  case (1 kw sl n exc)
  then show ?case by (simp split: option.splits)
next
  case (2 kw sl n exc r' rs)
  then show ?case by (intro exI [of _ "[]"] exI [of _ rs]) simp
next
  case (3 kw sl n exc e rs)
  from "3.prems" obtain d where e: "is_transient e" and d: "as_rat sl = Some d" "0 \<le> d"
    and ret: "fst (run_replies kw sl (n + 1) (Some e) rs) = Inr r"
    by (auto simp: Let_def split: if_splits option.splits prod.splits)
  from "3.IH" [OF e refl d(1)] d(2) ret
  obtain es rest where "rs = map Inl es @ Inr r # rest" "list_all is_transient es"
    by auto
  with e d have "Inl e # rs = map Inl (e # es) @ Inr r # rest \<and> list_all is_transient (e # es) \<and>
       (e # es \<noteq> [] \<longrightarrow> (\<exists>d. as_rat sl = Some d \<and> 0 \<le> d))"
    by simp
  then show ?case by blast
qed

section \<open>What holds of every run\<close>

text \<open>
  \<open>retry_event\<close> recognises the events a run can add to the trace: calls with the
  keyword arguments of the run, sleeps that are not negative, and log records.
  \<open>retry_events\<close> is the list a run adds; \<open>openai_method_retry_world\<close> and
  \<open>openai_method_retry_result\<close> give the world and the result of every run from it.
\<close>

fun retry_event :: "'k \<Rightarrow> 'k event \<Rightarrow> bool" where
  "retry_event kw (Call kw') = (kw' = kw)"
| "retry_event kw (Sleep d) = (0 \<le> d)"
| "retry_event kw (Log l r) = True"
| "retry_event kw _ = False"

lemma run_replies_events: "list_all (retry_event kw) (snd (run_replies kw sl n exc rs))"
  by (induction kw sl n exc rs rule: run_replies.induct)
     (auto simp: Let_def split: option.splits prod.splits)

lemma retry_event_calls: "list_all (retry_event kw) evs \<Longrightarrow> calls evs = replicate (length (calls evs)) kw"
  by (induction evs rule: event_list_induct) simp_all

lemma retry_event_bar: "list_all (retry_event kw) evs \<Longrightarrow> bar_updates evs = []"
  by (induction evs rule: event_list_induct) simp_all

text \<open>The events a run adds to the trace.\<close>

definition retry_events ::
  "('k, 'r, 's) endpoint \<Rightarrow> pyval \<Rightarrow> pyval \<Rightarrow> 'k \<Rightarrow> ('k, 's) world \<Rightarrow> 'k event list" where
  "retry_events m v sl kw w =
     (if as_rat v = None then []
      else snd (run_replies kw sl 0 None (replies m kw (service w) (tries_left v 0))))"

lemma openai_method_retry_world:
  "snd (openai_method_retry m v sl kw w) =
     w\<lparr>service := service_after m kw (service w) (length (calls (retry_events m v sl kw w))),
       trace := trace w @ retry_events m v sl kw w\<rparr>"
proof (cases "as_rat v")
  case None
  then show ?thesis
    by (simp add: openai_method_retry_def retry_loop_type_error retry_events_def)
next
  case (Some b)
  then show ?thesis
    by (simp add: openai_method_retry_def retry_loop_refines [OF Some refl] retry_events_def
        replay_def)
qed

lemma retry_events_shape:
  "list_all (retry_event kw) (retry_events m v sl kw w)"
  "length (calls (retry_events m v sl kw w)) \<le> tries_left v 0"
  "length (sleeps (retry_events m v sl kw w)) \<le> length (calls (retry_events m v sl kw w))"
  using run_replies_calls_le [of kw sl 0 None "replies m kw (service w) (tries_left v 0)"]
  by (simp_all add: retry_events_def run_replies_events run_replies_sleeps_le)

text \<open>
  The log records of a run: an \<^verbatim>\<open>INFO\<close> record with the error and one with the number
  of the try and the sleep after every handled failure, an \<^verbatim>\<open>ERROR\<close> record when the
  tries are used up. The errors they carry are transient ones, the numbers start at 1.
\<close>

fun log_ok :: "pyval \<Rightarrow> level \<times> log_record \<Rightarrow> bool" where
  "log_ok sl (l, Openai_error e) \<longleftrightarrow> l = INFO \<and> is_transient e"
| "log_ok sl (l, Try_sleeping n sl') \<longleftrightarrow> l = INFO \<and> 0 < n \<and> sl' = sl"
| "log_ok sl (l, Max_retries_exceeded e) \<longleftrightarrow> l = ERROR \<and> is_transient e"

lemma run_replies_logs:
  assumes "0 \<le> n" "\<And>e. exc = Some e \<Longrightarrow> is_transient e"
  shows "list_all (log_ok sl) (logs (snd (run_replies kw sl n exc rs)))"
  using assms
  by (induction kw sl n exc rs rule: run_replies.induct)
     (auto simp: Let_def split: option.splits prod.splits)

lemma retry_logs_ok: "list_all (log_ok sl) (logs (retry_events m v sl kw w))"
  using run_replies_logs [of 0 None sl kw "replies m kw (service w) (tries_left v 0)"]
  by (simp add: retry_events_def)

lemma replies_add:
  "replies m kw s (a + c) = replies m kw s a @ replies m kw (service_after m kw s a) c"
  by (induction a arbitrary: s) simp_all

lemma replies_take: "n \<le> k \<Longrightarrow> take n (replies m kw s k) = replies m kw s n"
  using replies_add [of m kw s n "k - n"] by simp

lemma openai_method_retry_result:
  "fst (openai_method_retry m v sl kw w) =
     (if as_rat v = None then Inl TypeError
      else fst (run_replies kw sl 0 None (replies m kw (service w) (tries_left v 0))))"
proof (cases "as_rat v")
  case None
  then show ?thesis by (simp add: openai_method_retry_def retry_loop_type_error)
next
  case (Some b)
  then show ?thesis
    by (simp add: openai_method_retry_def retry_loop_refines [OF Some refl] replay_def)
qed

lemma tries_left_not_number [simp]: "as_rat v = None \<Longrightarrow> tries_left v n = 0"
  by (simp add: tries_left_def)

lemma retry_event_bar_events: "list_all (retry_event kw) evs \<Longrightarrow> bar_events evs = []"
  by (induction evs rule: event_list_induct) simp_all

lemma openai_method_retry_extends [simp, intro]: "extends w (snd (openai_method_retry m v sl kw w))"
  by (simp add: openai_method_retry_world extends_def)

lemma stdin_openai_method_retry [simp, frame]:
  "stdin (snd (openai_method_retry m v sl kw w)) = stdin w"
  by (simp add: openai_method_retry_world)

lemma new_events_openai_method_retry [simp]:
  "new_events w (snd (openai_method_retry m v sl kw w)) = retry_events m v sl kw w"
  by (simp add: openai_method_retry_world new_events_def)

lemma replies_range: "r \<in> set (replies m kw s n) \<Longrightarrow> \<exists>s'. r = fst (m kw s')"
  by (induction n arbitrary: s) auto

lemma openai_method_retry_returns_reply:
  assumes "fst (openai_method_retry m v sl kw w) = Inr r"
  shows "\<exists>s. fst (m kw s) = Inr r"
proof -
  from assms have "fst (run_replies kw sl 0 None (replies m kw (service w) (tries_left v 0))) = Inr r"
    by (simp add: openai_method_retry_result split: if_splits)
  from run_replies_returned_only_after [OF this]
  have "Inr r \<in> set (replies m kw (service w) (tries_left v 0))" by auto
  from replies_range [OF this] show ?thesis by metis
qed

section \<open>Runs against an endpoint with transient faults\<close>

lemma py_int_less_tries_left:
  assumes "as_rat v = Some b" "0 \<le> n" "n < int (tries_left v 0)"
  shows "py_int_less n v = Inr True"
proof -
  from assms have "n < \<lceil>b\<rceil>" by (simp add: tries_left_def split: if_splits)
  then have "of_int n < b" by (simp add: less_ceiling_iff)
  with assms(1) show ?thesis by (simp add: py_int_less_True_iff)
qed

lemma retry_loop_flaky:
  assumes sl: "as_rat sl = Some d" "0 \<le> d" and v: "as_rat v = Some b"
  shows "service w = (plan, s) \<Longrightarrow> bursts_below (tries_left v 0) (nat n) plan \<Longrightarrow> 0 \<le> n \<Longrightarrow>
     n < int (tries_left v 0) \<Longrightarrow> fst (m kw s) = Inr r \<Longrightarrow>
     \<exists>plan' w'. retry_loop (flaky m) v sl kw n exc w = (Inr r, w') \<and>
        service w' = (plan', snd (m kw s)) \<and> stdin w' = stdin w \<and>
        bursts_below (tries_left v 0) 0 plan'"
proof (induction plan arbitrary: n exc w)
  case Nil
  from v Nil(3,4) have less: "py_int_less n v = Inr True" by (rule py_int_less_tries_left)
  from Nil(1,5) have "flaky m kw (service w) = (Inr r, ([], snd (m kw s)))" by simp
  from retry_loop_returns [where m = "flaky m" and kw = kw, OF less this] show ?case by (simp add: emit_def)
next
  case (Cons a plan)
  from v Cons.prems(3,4) have less: "py_int_less n v = Inr True" by (rule py_int_less_tries_left)
  show ?case
  proof (cases a)
    case None
    with Cons.prems(1,5) have "flaky m kw (service w) = (Inr r, (plan, snd (m kw s)))" by simp
    from retry_loop_returns [where m = "flaky m" and kw = kw, OF less this] Cons.prems(2) None show ?thesis
      by (simp add: emit_def)
  next
    case (Some e)
    with Cons.prems(2) have e: "is_transient e" and room: "Suc (nat n) < tries_left v 0"
      and rest: "bursts_below (tries_left v 0) (Suc (nat n)) plan" by simp_all
    let ?w = "emit (Sleep d) (after_failure kw sl n e (plan, s) w)"
    from Some Cons.prems(1) have "flaky m kw (service w) = (Inl e, (plan, s))" by simp
    from retry_loop_again [where m = "flaky m" and kw = kw, OF less this e sl]
    have "retry_loop (flaky m) v sl kw n exc w = retry_loop (flaky m) v sl kw (n + 1) (Some e) ?w" .
    moreover from Cons.prems(3) have "nat (n + 1) = Suc (nat n)" by simp
    with rest room Cons.prems(3,5)
    have "\<exists>plan' w'. retry_loop (flaky m) v sl kw (n + 1) (Some e) ?w = (Inr r, w') \<and>
        service w' = (plan', snd (m kw s)) \<and> stdin w' = stdin ?w \<and>
        bursts_below (tries_left v 0) 0 plan'"
      by (intro Cons.IH) simp_all
    ultimately show ?thesis by simp
  qed
qed

lemma openai_method_retry_flaky:
  assumes "as_rat sl = Some d" "0 \<le> d" "as_rat v = Some b" "0 < b"
    and "service w = (plan, s)" "bursts_below (tries_left v 0) 0 plan" "fst (m kw s) = Inr r"
  obtains plan' w' where "openai_method_retry (flaky m) v sl kw w = (Inr r, w')"
    "service w' = (plan', snd (m kw s))" "stdin w' = stdin w"
    "bursts_below (tries_left v 0) 0 plan'"
proof -
  from assms(3,4) have "0 < int (tries_left v 0)" by (simp add: tries_left_def)
  with retry_loop_flaky [where m = m and kw = kw and n = 0 and exc = None, OF assms(1-3) assms(5)] assms(6,7)
  show ?thesis using that by (auto simp: openai_method_retry_def)
qed

section \<open>Runs against the scripted endpoint\<close>

lemma replies_scripted: "n \<le> length rs \<Longrightarrow> replies scripted kw rs n = take n rs"
proof (induction n arbitrary: rs)
  case 0
  show ?case by simp
next
  case (Suc n)
  then show ?case by (cases rs) simp_all
qed

lemma service_after_scripted: "service_after scripted kw rs n = drop n rs"
proof (induction n arbitrary: rs)
  case 0
  show ?case by simp
next
  case (Suc n)
  then show ?case by (cases rs) simp_all
qed

section \<open>Properties of the retrying caller\<close>

text \<open>
  C1: If the endpoint raises a transient error on each of the first \<open>n\<close> calls and
  returns \<open>r\<close> on the next, with \<open>n\<close> below the bound and a sleep that is a
  non-negative number, then \<^verbatim>\<open>openai_method_retry\<close> returns \<open>r\<close>; the endpoint has been
  called \<open>n + 1\<close> times, and the trace has grown by \<open>n\<close> rounds of call, two log
  records and sleep, followed by the call that succeeded.
\<close>

theorem retry_returns_after_failures:
  assumes "as_rat sleep_sec = Some d" "0 \<le> d" "as_rat max_num_tries = Some b"
    and "replies m kw (service w) (Suc (length es)) = map Inl es @ [Inr r]"
    and "list_all is_transient es" "of_nat (length es) < b"
  shows "openai_method_retry m max_num_tries sleep_sec kw w =
     (Inr r, w\<lparr>service := service_after m kw (service w) (Suc (length es)),
               trace := trace w @ failed_rounds kw sleep_sec d 0 es @ [Call kw]\<rparr>)"
  unfolding openai_method_retry_def using assms by (intro retry_loop_returns_after) simp_all

theorem retry_returns_after_failures_witness:
  "openai_method_retry scripted (VInt 5) (VInt 10) ''request''
     \<lparr>service = [Inl (RateLimitError ''slow down''), Inl (ServiceUnavailableError ''overloaded''),
                 Inr ''choices''],
      stdin = [], trace = []\<rparr> =
   (Inr ''choices'',
    \<lparr>service = [], stdin = [],
     trace = [Call ''request'', Log INFO (Openai_error (RateLimitError ''slow down'')),
              Log INFO (Try_sleeping 1 (VInt 10)), Sleep 10,
              Call ''request'', Log INFO (Openai_error (ServiceUnavailableError ''overloaded'')),
              Log INFO (Try_sleeping 2 (VInt 10)), Sleep 10,
              Call ''request'']\<rparr>)"
  using retry_returns_after_failures [where sleep_sec = "VInt 10" and d = 10
      and max_num_tries = "VInt 5" and b = 5 and m = scripted and kw = "''request''"
      and es = "[RateLimitError ''slow down'', ServiceUnavailableError ''overloaded'']"
      and r = "''choices''"
      and w = "\<lparr>service = [Inl (RateLimitError ''slow down''),
                 Inl (ServiceUnavailableError ''overloaded''), Inr ''choices''],
               stdin = [], trace = []\<rparr>"]
  by simp

text \<open>
  C2: If the endpoint raises a transient error on every one of the calls the bound
  allows, \<^verbatim>\<open>openai_method_retry\<close> raises the last of these errors, after logging it at
  level \<^verbatim>\<open>ERROR\<close>. It has slept after every failure, the last one included: the number
  of sleeps equals the number of calls.
\<close>

theorem retry_exhausted_raises_last:
  assumes "as_rat sleep_sec = Some d" "0 \<le> d" "as_rat max_num_tries = Some b" "0 < b"
    and "length es = nat \<lceil>b\<rceil>"
    and "replies m kw (service w) (length es) = map Inl es"
    and "list_all is_transient es"
  shows "openai_method_retry m max_num_tries sleep_sec kw w =
     (Inl (last es), w\<lparr>service := service_after m kw (service w) (length es),
        trace := trace w @ failed_rounds kw sleep_sec d 0 es
                   @ [Log ERROR (Max_retries_exceeded (last es))]\<rparr>)"
proof -
  from assms(4,5) have len: "of_nat (length es) = (of_int \<lceil>b\<rceil> :: rat)" and ne: "es \<noteq> []"
    by (auto simp: of_nat_nat)
  have "of_int \<lceil>b\<rceil> - 1 < b" "b \<le> of_int \<lceil>b\<rceil>"
    by linarith+
  with len have low: "of_int 0 + of_nat (length es) - 1 < b"
    and up: "b \<le> of_int 0 + of_nat (length es)"
    by simp_all
  show ?thesis
    unfolding openai_method_retry_def
    by (rule retry_loop_exhausts_after [OF assms(1-3) assms(6,7) ne low up])
qed

theorem retry_exhausted_raises_last_witness:
  "openai_method_retry scripted (VInt 2) (VFloat (1 / 2)) ''request''
     \<lparr>service = [Inl (RateLimitError ''first''), Inl (RateLimitError ''second''),
                 Inr ''never asked for''],
      stdin = [], trace = []\<rparr> =
   (Inl (RateLimitError ''second''),
    \<lparr>service = [Inr ''never asked for''], stdin = [],
     trace = [Call ''request'', Log INFO (Openai_error (RateLimitError ''first'')),
              Log INFO (Try_sleeping 1 (VFloat (1 / 2))), Sleep (1 / 2),
              Call ''request'', Log INFO (Openai_error (RateLimitError ''second'')),
              Log INFO (Try_sleeping 2 (VFloat (1 / 2))), Sleep (1 / 2),
              Log ERROR (Max_retries_exceeded (RateLimitError ''second''))]\<rparr>)"
  using retry_exhausted_raises_last [where sleep_sec = "VFloat (1 / 2)" and d = "1 / 2"
      and max_num_tries = "VInt 2" and b = 2 and m = scripted and kw = "''request''"
      and es = "[RateLimitError ''first'', RateLimitError ''second'']"
      and w = "\<lparr>service = [Inl (RateLimitError ''first''), Inl (RateLimitError ''second''),
                 Inr ''never asked for''], stdin = [], trace = []\<rparr>"]
  by simp


text \<open>
  C5: An exception of the endpoint that is not one of the two transient kinds is not
  handled: \<^verbatim>\<open>openai_method_retry\<close> raises it at once, after one call, without a log
  record and without sleeping.
\<close>

theorem retry_other_error_immediate:
  assumes "as_rat max_num_tries = Some b" "0 < b"
    and "m kw (service w) = (Inl e, s')" "\<not> is_transient e"
  shows "openai_method_retry m max_num_tries sleep_sec kw w =
     (Inl e, w\<lparr>service := s', trace := trace w @ [Call kw]\<rparr>)"
proof -
  from assms(1,2) have "py_int_less 0 max_num_tries = Inr True"
    by (simp add: py_int_less_True_iff)
  with assms(3,4) show ?thesis
    by (simp add: openai_method_retry_def retry_loop_permanent emit_def)
qed

theorem retry_other_error_immediate_witness:
  "openai_method_retry scripted (VInt 5) (VInt 10) ''request''
     \<lparr>service = [Inl (OtherError ''invalid request''), Inr ''unused''], stdin = [], trace = []\<rparr> =
   (Inl (OtherError ''invalid request''),
    \<lparr>service = [Inr ''unused''], stdin = [], trace = [Call ''request'']\<rparr>)"
  using retry_other_error_immediate [where max_num_tries = "VInt 5" and b = 5 and m = scripted
      and kw = "''request''" and e = "OtherError ''invalid request''" and s' = "[Inr ''unused'']"
      and sleep_sec = "VInt 10"
      and w = "\<lparr>service = [Inl (OtherError ''invalid request''), Inr ''unused''],
               stdin = [], trace = []\<rparr>"]
  by simp

text \<open>
  C19: With a bound that is zero or negative the loop body never runs, and the
  \<^verbatim>\<open>logger.error\<close> line after the loop reads the local \<^verbatim>\<open>exception\<close> before anything
  was assigned to it: \<^verbatim>\<open>openai_method_retry\<close> raises \<^verbatim>\<open>UnboundLocalError\<close>, without
  calling the endpoint and without any event.
\<close>

theorem retry_without_tries_unbound_local:
  assumes "as_rat max_num_tries = Some b" "b \<le> 0"
  shows "openai_method_retry m max_num_tries sleep_sec kw w = (Inl UnboundLocalError, w)"
proof -
  from assms have "py_int_less 0 max_num_tries = Inr False"
    by (simp add: py_int_less_False_iff)
  then show ?thesis
    by (simp add: openai_method_retry_def retry_loop_unbound)
qed

theorem retry_without_tries_unbound_local_witness:
  "openai_method_retry scripted (VInt 0) (VInt 10) ''request''
     \<lparr>service = [Inr ''choices''], stdin = [], trace = []\<rparr> =
   (Inl UnboundLocalError, \<lparr>service = [Inr ''choices''], stdin = [], trace = []\<rparr>)"
  using retry_without_tries_unbound_local [where max_num_tries = "VInt 0" and b = 0
      and m = scripted and kw = "''request''" and sleep_sec = "VInt 10"
      and w = "\<lparr>service = [Inr ''choices''], stdin = [], trace = []\<rparr>"]
  by simp

text \<open>
  C24: A sleep that is negative, or no number at all, makes \<^verbatim>\<open>time.sleep\<close> raise inside
  the handler of the first transient failure: \<^verbatim>\<open>openai_method_retry\<close> raises
  \<^verbatim>\<open>ValueError\<close> (or \<^verbatim>\<open>TypeError\<close>) after one call and the two log records, and never
  retries.
\<close>

theorem retry_bad_sleep_raises:
  assumes "as_rat max_num_tries = Some b" "0 < b"
    and "m kw (service w) = (Inl e, s')" "is_transient e"
    and "case as_rat sleep_sec of None \<Rightarrow> True | Some d \<Rightarrow> d < 0"
  shows "openai_method_retry m max_num_tries sleep_sec kw w =
     (Inl (if as_rat sleep_sec = None then TypeError else ValueError),
      w\<lparr>service := s',
        trace := trace w @ [Call kw, Log INFO (Openai_error e),
                            Log INFO (Try_sleeping 1 sleep_sec)]\<rparr>)"
proof -
  let ?w = "after_failure kw sleep_sec 0 e s' w"
  from assms(1,2) have less: "py_int_less 0 max_num_tries = Inr True"
    by (simp add: py_int_less_True_iff)
  from assms(5)
  have "time_sleep sleep_sec ?w = Inl (if as_rat sleep_sec = None then TypeError else ValueError)"
    by (simp add: time_sleep_def split: option.splits)
  with less assms(3,4) have "retry_loop m max_num_tries sleep_sec kw 0 None w =
      (Inl (if as_rat sleep_sec = None then TypeError else ValueError), ?w)"
    by (rule retry_loop_sleep_fails)
  then show ?thesis
    by (simp add: openai_method_retry_def after_failure_def logger_info_def emit_def)
qed

theorem retry_bad_sleep_raises_witness:
  "openai_method_retry scripted (VInt 5) (VInt (- 1)) ''request''
     \<lparr>service = [Inl (RateLimitError ''slow down''), Inr ''choices''], stdin = [], trace = []\<rparr> =
   (Inl ValueError,
    \<lparr>service = [Inr ''choices''], stdin = [],
     trace = [Call ''request'', Log INFO (Openai_error (RateLimitError ''slow down'')),
              Log INFO (Try_sleeping 1 (VInt (- 1)))]\<rparr>)"
  using retry_bad_sleep_raises [where max_num_tries = "VInt 5" and b = 5 and m = scripted
      and kw = "''request''" and e = "RateLimitError ''slow down''" and s' = "[Inr ''choices'']"
      and sleep_sec = "VInt (- 1)"
      and w = "\<lparr>service = [Inl (RateLimitError ''slow down''), Inr ''choices''],
               stdin = [], trace = []\<rparr>"]
  by simp

text \<open>
  C25: Every call of \<^verbatim>\<open>openai_method_retry\<close>, whatever the endpoint, the bound and the
  sleep are, leaves standard input alone and only appends events to the trace. The
  events it appends are calls with the keyword arguments it was given, sleeps that
  are not negative, and log records: \<^verbatim>\<open>INFO\<close> records of a transient error or of the
  number of a try, from 1 on, with the sleep it was given, and \<^verbatim>\<open>ERROR\<close> records of
  a transient error. There are at most as many calls as the bound rounded up, and
  never more sleeps than calls; the endpoint is left in the state that many calls
  lead to.
\<close>

theorem retry_run_shape:
  "\<exists>evs. snd (openai_method_retry m v sl kw w) =
            w\<lparr>service := service_after m kw (service w) (length (calls evs)),
              trace := trace w @ evs\<rparr> \<and>
         list_all (retry_event kw) evs \<and>
         list_all (log_ok sl) (logs evs) \<and>
         length (calls evs) \<le> tries_left v 0 \<and>
         length (sleeps evs) \<le> length (calls evs)"
  by (intro exI [of _ "retry_events m v sl kw w"] conjI openai_method_retry_world
      retry_events_shape retry_logs_ok)

text \<open>
  C14: \<^verbatim>\<open>openai_method_retry\<close> returns \<open>r\<close> exactly when, from the state the endpoint
  is in, some number of calls below the bound raise transient errors and the next
  call returns \<open>r\<close>, and, when there was a failure at all, the sleep is a number
  that is not negative. In every other case it raises.
\<close>

theorem retry_returns_iff:
  "fst (openai_method_retry m v sl kw w) = Inr r \<longleftrightarrow>
     (\<exists>es. length es < tries_left v 0 \<and>
        replies m kw (service w) (Suc (length es)) = map Inl es @ [Inr r] \<and>
        list_all is_transient es \<and> (es \<noteq> [] \<longrightarrow> (\<exists>d. as_rat sl = Some d \<and> 0 \<le> d)))"
  (is "?lhs \<longleftrightarrow> ?rhs")
proof
  let ?K = "tries_left v 0"
  assume ?lhs
  then have v: "as_rat v \<noteq> None"
    and run: "fst (run_replies kw sl 0 None (replies m kw (service w) ?K)) = Inr r"
    by (auto simp: openai_method_retry_result split: if_splits)
  from run_replies_returned_only_after [OF run]
  obtain es rest where rs: "replies m kw (service w) ?K = map Inl es @ Inr r # rest"
    and es: "list_all is_transient es" "es \<noteq> [] \<longrightarrow> (\<exists>d. as_rat sl = Some d \<and> 0 \<le> d)"
    by blast
  from rs have "length (replies m kw (service w) ?K) = length es + Suc (length rest)"
    by simp
  then have len: "length es < ?K" by simp
  then have "replies m kw (service w) (Suc (length es)) = take (Suc (length es)) (map Inl es @ Inr r # rest)"
    by (simp only: rs [symmetric] replies_take Suc_leI)
  then have "replies m kw (service w) (Suc (length es)) = map Inl es @ [Inr r]"
    by simp
  with len es show ?rhs by blast
next
  let ?K = "tries_left v 0"
  assume ?rhs
  then obtain es where len: "length es < ?K"
    and rs: "replies m kw (service w) (Suc (length es)) = map Inl es @ [Inr r]"
    and es: "list_all is_transient es" "es \<noteq> [] \<Longrightarrow> \<exists>d. as_rat sl = Some d \<and> 0 \<le> d"
    by blast
  from len have v: "as_rat v \<noteq> None" by (cases "as_rat v") (simp_all add: tries_left_def)
  from len have "?K = Suc (length es) + (?K - Suc (length es))" by simp
  then have "replies m kw (service w) ?K = (map Inl es @ [Inr r]) @
      replies m kw (service_after m kw (service w) (Suc (length es))) (?K - Suc (length es))"
    by (metis replies_add rs)
  then have "fst (run_replies kw sl 0 None (replies m kw (service w) ?K)) = Inr r"
    using run_replies_returns_after [OF es] by simp
  with v show ?lhs by (simp add: openai_method_retry_result)
qed

theorem retry_returns_iff_witness:
  "\<exists>es. length es < tries_left (VInt 5) 0 \<and>
     replies scripted ''request'' [Inl (RateLimitError ''slow down''), Inr ''choices'']
         (Suc (length es)) = map Inl es @ [Inr ''choices''] \<and>
     list_all is_transient es \<and> (es \<noteq> [] \<longrightarrow> (\<exists>d. as_rat (VInt 10) = Some d \<and> 0 \<le> d))"
proof -
  let ?w = "\<lparr>service = [Inl (RateLimitError ''slow down''), Inr ''choices''],
             stdin = [], trace = []\<rparr> :: (string, (error + string) list) world"
  have "fst (openai_method_retry scripted (VInt 5) (VInt 10) ''request'' ?w) = Inr ''choices''"
    by (simp add: openai_method_retry_result tries_left_def eval_nat_numeral)
  then show ?thesis
    using retry_returns_iff [of scripted "VInt 5" "VInt 10" "''request''" ?w "''choices''"]
    by simp
qed

text \<open>
  C15: \<^verbatim>\<open>openai_method_retry\<close> is the pure function \<open>run_replies\<close> of the replies the
  endpoint gives to the calls the bound allows, replayed on the world: its result is
  the result of \<open>run_replies\<close>, the trace grows by the events of \<open>run_replies\<close>, and
  the endpoint has answered as many calls as these events hold. A bound that is no
  number raises \<^verbatim>\<open>TypeError\<close> at the first comparison and changes nothing.
\<close>

theorem retry_refines_run_replies:
  "openai_method_retry m v sl kw w =
     (if as_rat v = None then (Inl TypeError, w)
      else replay m kw (run_replies kw sl 0 None (replies m kw (service w) (tries_left v 0))) w)"
proof (cases "as_rat v")
  case None
  then show ?thesis by (simp add: openai_method_retry_def retry_loop_type_error)
next
  case (Some b)
  then show ?thesis by (simp add: openai_method_retry_def retry_loop_refines [OF Some refl])
qed

text \<open>
  The caller observes the endpoint through its replies only. Two endpoints, in
  any two states, that give the same replies to the calls the bound allows make
  \<^verbatim>\<open>openai_method_retry\<close> return or raise the same and add the same events to the
  trace.
\<close>

lemma retry_observes_replies_only:
  assumes "replies m kw (service w) (tries_left v 0) = replies m' kw (service w') (tries_left v 0)"
  shows "fst (openai_method_retry m v sl kw w) = fst (openai_method_retry m' v sl kw w') \<and>
     drop (length (trace w)) (trace (snd (openai_method_retry m v sl kw w))) =
     drop (length (trace w')) (trace (snd (openai_method_retry m' v sl kw w')))"
  using assms
  by (simp add: openai_method_retry_result openai_method_retry_world retry_events_def)

lemma retry_observes_replies_only_example:
  "fst (openai_method_retry scripted (VInt 2) (VInt 10) ''request''
          \<lparr>service = [Inl (RateLimitError ''slow down''), Inr ''choices''],
            stdin = [], trace = []\<rparr>) =
   fst (openai_method_retry scripted (VInt 2) (VInt 10) ''request''
          \<lparr>service = [Inl (RateLimitError ''slow down''), Inr ''choices'', Inr ''more''],
            stdin = [''y''], trace = [Bar_open 1]\<rparr>)"
  using retry_observes_replies_only [of scripted "''request''"
      "\<lparr>service = [Inl (RateLimitError ''slow down''), Inr ''choices''],
            stdin = [], trace = []\<rparr>" "VInt 2" scripted
      "\<lparr>service = [Inl (RateLimitError ''slow down''), Inr ''choices'', Inr ''more''],
            stdin = [''y''], trace = [Bar_open 1]\<rparr>" "VInt 10"]
  by (simp add: tries_left_def eval_nat_numeral)

end
