(* ===== verification/Batch.thy ===== *)
theory Batch
  imports Effects
begin

text \<open>
  The batcher \<^verbatim>\<open>batch.constant\<close> that \<^verbatim>\<open>gpt3_complete\<close> iterates over. Its module is
  not among the sources, so it is modelled from the specification's contract
  (section 4.1): consecutive slices of the given size, the last one possibly shorter,
  and an error for a size that is not positive (\<open>batch_constant\<close>; \<open>constant\<close> is a keyword of Isabelle).
  \<open>slices\<close> takes the slice at every
  multiple of the size, as a loop over \<^verbatim>\<open>range(0, len(xs), size)\<close> does; the lemmas
  give its recursive reading, the contract, and that the contract determines it.
\<close>

section \<open>Definitions\<close>

definition slices :: "nat \<Rightarrow> 'a list \<Rightarrow> 'a list list" where
  "slices k xs = map (\<lambda>i. take k (drop (i * k) xs)) [0..<ceil_div (length xs) k]"

definition batch_constant :: "'a list \<Rightarrow> int \<Rightarrow> error + 'a list list" where
  "batch_constant xs sz = (if sz \<le> 0 then Inl ValueError else Inr (slices (nat sz) xs))"

text \<open>The contract: the chunks concatenate to the input, none is empty, none is longer
  than the size, and every chunk but the last has exactly the size.\<close>

definition is_batching :: "nat \<Rightarrow> 'a list \<Rightarrow> 'a list list \<Rightarrow> bool" where
  "is_batching k xs yss \<longleftrightarrow>
     concat yss = xs \<and> list_all (\<lambda>ys. ys \<noteq> [] \<and> length ys \<le> k) yss \<and>
     list_all (\<lambda>ys. length ys = k) (butlast yss)"

section \<open>The recursive reading\<close>

lemma slices_Nil [simp]: "slices k [] = []"
  by (simp add: slices_def)

lemma slices_rec:
  assumes "0 < k" "xs \<noteq> []"
  shows "slices k xs = take k xs # slices k (drop k xs)"
proof -
  from assms have "ceil_div (length xs) k = Suc (ceil_div (length xs - k) k)"
    by (intro ceil_div_step) simp_all
  then show ?thesis
    by (simp add: slices_def upt_0_Suc_shift comp_def ac_simps del: upt_Suc)
qed

lemma slices_short: "0 < k \<Longrightarrow> xs \<noteq> [] \<Longrightarrow> length xs \<le> k \<Longrightarrow> slices k xs = [xs]"
  by (simp add: slices_rec)

lemma slices_append_full:
  "0 < k \<Longrightarrow> length xs = k \<Longrightarrow> slices k (xs @ ys) = xs # slices k ys"
  by (cases "xs = []") (simp_all add: slices_rec)

lemma slices_induct [consumes 1, case_names Nil Slice]:
  assumes "0 < k"
    and "P []"
    and "\<And>xs. xs \<noteq> [] \<Longrightarrow> P (drop k xs) \<Longrightarrow> P xs"
  shows "P xs"
proof (induction xs rule: length_induct)
  case (1 xs)
  show ?case
  proof (cases "xs = []")
    case True
    with assms(2) show ?thesis by simp
  next
    case False
    with \<open>0 < k\<close> have "length (drop k xs) < length xs" by simp
    with 1 have "P (drop k xs)" by blast
    with False show ?thesis by (rule assms(3))
  qed
qed

section \<open>The contract\<close>

lemma concat_slices:
  assumes "0 < k"
  shows "concat (slices k xs) = xs"
  using assms by (induction xs rule: slices_induct) (simp_all add: slices_rec assms)

lemma length_slices [simp]: "length (slices k xs) = ceil_div (length xs) k"
  by (simp add: slices_def)

lemma nth_slices:
  "i < ceil_div (length xs) k \<Longrightarrow> slices k xs ! i = take k (drop (i * k) xs)"
  by (simp add: slices_def)

lemma slices_bounded:
  assumes "0 < k"
  shows "list_all (\<lambda>ys. ys \<noteq> [] \<and> length ys \<le> k) (slices k xs)"
  using assms by (induction xs rule: slices_induct) (simp_all add: slices_rec assms)

lemma slices_eq_Nil_iff [simp]: "0 < k \<Longrightarrow> slices k xs = [] \<longleftrightarrow> xs = []"
  by (cases "xs = []") (simp_all add: slices_rec)

lemma slices_full:
  assumes "0 < k"
  shows "list_all (\<lambda>ys. length ys = k) (butlast (slices k xs))"
  using assms
proof (induction xs rule: slices_induct)
  case Nil
  show ?case by simp
next
  case (Slice xs)
  show ?case
  proof (cases "drop k xs = []")
    case True
    with Slice assms show ?thesis by (simp add: slices_rec)
  next
    case False
    then have "k < length xs" by simp
    with Slice False assms show ?thesis by (simp add: slices_rec)
  qed
qed

lemma slices_is_batching: "0 < k \<Longrightarrow> is_batching k xs (slices k xs)"
  by (simp add: is_batching_def concat_slices slices_bounded slices_full)

lemma is_batching_unique:
  assumes "0 < k" "is_batching k xs yss"
  shows "yss = slices k xs"
  using assms(2)
proof (induction yss arbitrary: xs)
  case Nil
  then show ?case by (simp add: is_batching_def)
next
  case (Cons ys yss)
  from Cons.prems have ys: "ys \<noteq> []" "length ys \<le> k" and xs: "xs = ys @ concat yss"
    by (auto simp: is_batching_def)
  show ?case
  proof (cases "yss = []")
    case True
    with ys xs \<open>0 < k\<close> show ?thesis by (simp add: slices_short)
  next
    case False
    with Cons.prems have full: "length ys = k" and rest: "is_batching k (concat yss) yss"
      by (auto simp: is_batching_def)
    from rest have "yss = slices k (concat yss)" by (rule Cons.IH)
    with full xs \<open>0 < k\<close> show ?thesis by (simp add: slices_append_full)
  qed
qed

lemma is_batching_iff: "0 < k \<Longrightarrow> is_batching k xs yss \<longleftrightarrow> yss = slices k xs"
  using is_batching_unique slices_is_batching by blast

lemma sum_length_slices: "0 < k \<Longrightarrow> sum_list (map length (slices k xs)) = length xs"
  using concat_slices [of k xs] by (metis length_concat)

lemma sum_length_take_slices:
  assumes "0 < k" "j \<le> length (slices k xs)"
  shows "sum_list (map length (take j (slices k xs))) = length xs \<longleftrightarrow> j = length (slices k xs)"
proof (cases "j = length (slices k xs)")
  case True
  with assms(1) show ?thesis by (simp add: sum_length_slices del: length_slices)
next
  case False
  with assms(2) have "j < length (slices k xs)" by simp
  moreover have "list_all (\<lambda>ys. ys \<noteq> []) (slices k xs)"
    using slices_bounded [OF assms(1), of xs] by (simp add: list_all_iff)
  ultimately have "sum_list (map length (take j (slices k xs))) < sum_list (map length (slices k xs))"
    by (intro sum_length_take_less)
  with False assms(1) show ?thesis by (simp add: sum_length_slices)
qed

section \<open>The operation\<close>

lemma batch_constant_ok [simp]: "0 < sz \<Longrightarrow> batch_constant xs sz = Inr (slices (nat sz) xs)"
  by (simp add: batch_constant_def)

lemma batch_constant_error [simp]: "sz \<le> 0 \<Longrightarrow> batch_constant xs sz = Inl ValueError"
  by (simp add: batch_constant_def)

lemma batch_constant_20 [simp]: "batch_constant xs 20 = Inr (slices 20 xs)"
  by (simp add: batch_constant_def)

end
