(* ===== verification/Confirm.thy ===== *)
theory Confirm
  imports Effects
begin

text \<open>
  The cost table and the confirmation gate, \<^verbatim>\<open>model_to_cost_per_1k\<close> and
  \<^verbatim>\<open>_openai_api_call_is_ok\<close> of \<^verbatim>\<open>api.py\<close>. The gate computes the number of tokens of a
  request and its cost, then reads lines from standard input until one is \<^verbatim>\<open>y\<close> or
  \<^verbatim>\<open>n\<close>, showing the prompt before every read. The cost is computed in floating
  point, as the source does: the rates are the doubles nearest to the decimals
  written in the table, the number of tokens is converted to a double (an
  \<^verbatim>\<open>OverflowError\<close> when it is too large), and the product, the quotient and the result
  of \<^verbatim>\<open>round\<close> are rounded to doubles. The tokenizer is a parameter. The input loop is a
  total function because every read consumes a line of the input; on an input that
  ends before an answer, \<^verbatim>\<open>input\<close> raises \<^verbatim>\<open>EOFError\<close>.
\<close>

section \<open>The cost table\<close>

definition Model_args :: "string list" where
  "Model_args = [''text-ada-001'', ''text-babbage-001'', ''text-curie-001'', ''text-davinci-003'']"

definition costs :: "double list" where
  "costs = [nearest (4 / 10000), nearest (5 / 10000), nearest (2 / 1000), nearest (2 / 100)]"

text \<open>\<^verbatim>\<open>dict(pairs)\<close>: a later pair with the same key replaces an earlier one.\<close>

definition dict_of :: "('a \<times> 'b) list \<Rightarrow> 'a \<rightharpoonup> 'b" where
  "dict_of ps = map_of (rev ps)"

definition model_to_cost_per_1k :: "string \<rightharpoonup> double" where
  "model_to_cost_per_1k = dict_of (zip Model_args costs)"

section \<open>The gate\<close>

definition num_tokens_of :: "(string list \<Rightarrow> int list list) \<Rightarrow> string list \<Rightarrow> int \<Rightarrow> int" where
  "num_tokens_of tokenizer texts max_tokens =
     (let num_tokens_prompts = sum_list (map (\<lambda>tokens. int (length tokens)) (tokenizer texts));
          num_tokens_completions = int (length texts) * max_tokens
      in num_tokens_prompts + num_tokens_completions)"

text \<open>\<^verbatim>\<open>round(num_tokens * cost_per_1k_tokens / 1_000, 2)\<close>: the integer is converted to a
  float, which fails when it is too large; the divisor \<^verbatim>\<open>1_000\<close> is converted as well.\<close>

definition cost_of :: "string \<Rightarrow> int \<Rightarrow> error + cost" where
  "cost_of model num_tokens =
     (case model_to_cost_per_1k model of
        None \<Rightarrow> Inr Unknown
      | Some cost_per_1k_tokens \<Rightarrow>
          (case float_of_int num_tokens of
             None \<Rightarrow> Inl OverflowError
           | Some tokens \<Rightarrow>
               Inr (Cost (py_round (fdiv (fmul tokens cost_per_1k_tokens) (Double False 1000)) 2))))"

definition answered :: "string option \<Rightarrow> bool" where
  "answered output \<longleftrightarrow> output \<in> {Some ''y'', Some ''n''}"

function ask_loop :: "prompt \<Rightarrow> string option \<Rightarrow> ('k, 's) world \<Rightarrow> (string option, 'k, 's) outcome" where
  "ask_loop p output w =
     (if \<not> answered output then
        (case py_input p w of
           (Inl err, w') \<Rightarrow> (Inl err, w')
         | (Inr line, w') \<Rightarrow> ask_loop p (Some line) w')
      else (Inr output, w))"
  by pat_completeness auto

lemma py_input_consumes:
  "py_input p w = (Inr line, w') \<Longrightarrow> length (stdin w') < length (stdin w)"
  by (auto simp: py_input_def split: list.splits)

termination ask_loop
  by (relation "measure (\<lambda>(p, output, w). length (stdin w))")
     (auto dest: py_input_consumes [OF sym])

declare ask_loop.simps [simp del]

definition openai_api_call_is_ok ::
  "(string list \<Rightarrow> int list list) \<Rightarrow> string \<Rightarrow> string list \<Rightarrow> int \<Rightarrow> ('k, 's) world
     \<Rightarrow> (unit, 'k, 's) outcome" where
  "openai_api_call_is_ok tokenizer model texts max_tokens w =
     (let num_tokens = num_tokens_of tokenizer texts max_tokens
      in case cost_of model num_tokens of
           Inl err \<Rightarrow> (Inl err, w)
         | Inr cost \<Rightarrow>
             (case ask_loop (Prompt cost num_tokens) None w of
                (Inl err, w') \<Rightarrow> (Inl err, w')
              | (Inr output, w') \<Rightarrow>
                  if output = Some ''n'' then (Inl UserCanceled, w') else (Inr (), w')))"


section \<open>The cost table and the estimate\<close>

lemma dict_of_distinct: "distinct (map fst ps) \<Longrightarrow> dict_of ps = map_of ps"
  unfolding dict_of_def by (rule map_of_inject_set [THEN iffD2]) (simp_all add: rev_map [symmetric])

lemma model_to_cost_per_1k_simps [simp]:
  "model_to_cost_per_1k ''text-ada-001'' = Some (nearest (4 / 10000))"
  "model_to_cost_per_1k ''text-babbage-001'' = Some (nearest (5 / 10000))"
  "model_to_cost_per_1k ''text-curie-001'' = Some (nearest (2 / 1000))"
  "model_to_cost_per_1k ''text-davinci-003'' = Some (nearest (2 / 100))"
  by (simp_all add: model_to_cost_per_1k_def dict_of_def Model_args_def costs_def)

lemma dom_model_to_cost_per_1k: "dom model_to_cost_per_1k = set Model_args"
  by (auto simp: model_to_cost_per_1k_def dict_of_def Model_args_def costs_def dom_map_of_conv_image_fst)

lemma model_to_cost_per_1k_None_iff: "model_to_cost_per_1k model = None \<longleftrightarrow> model \<notin> set Model_args"
  using dom_model_to_cost_per_1k by (metis domIff)

lemma model_in_table: "model_to_cost_per_1k model = Some c \<Longrightarrow> model \<in> set Model_args"
  using dom_model_to_cost_per_1k by blast

lemma ran_model_to_cost_per_1k: "model_to_cost_per_1k model = Some c \<Longrightarrow> c \<in> set costs"
  by (auto simp: model_to_cost_per_1k_def dict_of_def Model_args_def costs_def split: if_splits)

lemma cost_of_Unknown_iff: "cost_of model n = Inr Unknown \<longleftrightarrow> model \<notin> set Model_args"
  by (simp add: cost_of_def model_to_cost_per_1k_None_iff [symmetric] split: option.splits)

lemma cost_of_priced:
  assumes "model_to_cost_per_1k model = Some c" "float_of_int n = Some a"
  shows "cost_of model n = Inr (Cost (py_round (fdiv (fmul a c) (Double False 1000)) 2))"
  using assms by (simp add: cost_of_def)

text \<open>The estimate fails only for a model of the table, with \<^verbatim>\<open>OverflowError\<close>, and only
  from \<open>2\<^sup>1\<^sup>0\<^sup>2\<^sup>4 - 2\<^sup>9\<^sup>7\<^sup>0\<close> tokens on.\<close>

lemma cost_of_error_iff:
  "cost_of model n = Inl err \<longleftrightarrow>
     model \<in> set Model_args \<and> least_overflow \<le> \<bar>n\<bar> \<and> err = OverflowError"
proof (cases "model_to_cost_per_1k model")
  case None
  then show ?thesis
    using model_to_cost_per_1k_None_iff [of model] by (simp add: cost_of_def)
next
  case (Some c)
  with model_in_table [OF this] show ?thesis
    by (cases "float_of_int n") (auto simp: cost_of_def float_of_int_None_iff [symmetric])
qed

lemma cost_of_cases [case_names Overflow Estimate]:
  obtains "cost_of model n = Inl OverflowError" "model \<in> set Model_args"
      "least_overflow \<le> \<bar>n\<bar>"
    | c where "cost_of model n = Inr c"
  by (cases "cost_of model n") (auto simp: cost_of_error_iff)

text \<open>The rates lie between \<open>2\<^sup>-\<^sup>1\<^sup>2\<close> and \<open>2\<^sup>-\<^sup>5\<close>.\<close>

lemma costs_bounds:
  assumes "c \<in> set costs"
  shows "\<not> negative c" "2 powi (- 12) \<le> magnitude c" "magnitude c \<le> 2 powi (- 5)"
proof -
  have "2 powi (- 12) \<le> fl (4 / 10000)" "fl (4 / 10000) \<le> 2 powi (- 12 + 1)"
    "2 powi (- 11) \<le> fl (5 / 10000)" "fl (5 / 10000) \<le> 2 powi (- 11 + 1)"
    "2 powi (- 9) \<le> fl (2 / 1000)" "fl (2 / 1000) \<le> 2 powi (- 9 + 1)"
    "2 powi (- 6) \<le> fl (2 / 100)" "fl (2 / 100) \<le> 2 powi (- 6 + 1)"
    by (rule fl_bounds; simp add: power_int_minus)+
  with assms show "\<not> negative c" "2 powi (- 12) \<le> magnitude c" "magnitude c \<le> 2 powi (- 5)"
    by (auto simp: costs_def power_int_minus)
qed

lemma costs_pos: "c \<in> set costs \<Longrightarrow> 0 < magnitude c"
  using costs_bounds(2) [of c] two_powi_pos [of "- 12"] by linarith

text \<open>The steps of the estimate: the quotient \<open>q\<close> before \<^verbatim>\<open>round\<close> is within a relative
  error of \<open>2\<^sup>-\<^sup>5\<^sup>1\<close> of the exact quotient, and the cost is the double nearest to a whole
  number \<open>k\<close> of hundredths, with the sign of the number of tokens.\<close>

lemma cost_of_steps:
  assumes "model_to_cost_per_1k model = Some c" "float_of_int n = Some a"
  obtains q k where
    "cost_of model n = Inr (Cost (Double (n < 0) (fl (of_int k / 100))))"
    "k = round_half_even (q * 100)" "0 \<le> q"
    "\<bar>q - of_int \<bar>n\<bar> * magnitude c / 1000\<bar> \<le> of_int \<bar>n\<bar> * magnitude c / 1000 / 2 ^ 51"
proof -
  define N :: rat where "N = of_int \<bar>n\<bar>"
  define C where "C = magnitude c"
  define P where "P = N * C"
  define P' where "P' = fl N * C"
  define m where "m = fl P'"
  define q where "q = fl (m / 1000)"
  note c = costs_bounds [OF ran_model_to_cost_per_1k [OF assms(1)], folded C_def]
  from c(2) have C: "0 \<le> C" using two_powi_pos [of "- 12"] by linarith
  have N: "0 \<le> N" "0 \<le> fl N" by (simp_all add: N_def fl_nonneg)
  with C have P: "0 \<le> P" "0 \<le> P'" by (simp_all add: P_def P'_def)
  then have m: "0 \<le> m" unfolding m_def by (simp add: fl_nonneg)
  then have q: "0 \<le> q" unfolding q_def by (simp add: fl_nonneg)
  from assms have "cost_of model n =
      Inr (Cost (py_round (fdiv (fmul a c) (Double False 1000)) 2))"
    by (rule cost_of_priced)
  moreover have "a = Double (n < 0) (fl N)"
    unfolding N_def using assms(2) by (rule float_of_int_Some)
  ultimately have cost: "cost_of model n =
      Inr (Cost (Double (n < 0) (fl (of_int (round_half_even (q * 100)) / 100))))"
    using c(1) by (simp add: py_round_def fmul_def fdiv_def q_def m_def P'_def C_def)
  have "\<bar>fl N - N\<bar> * C \<le> N / 2 ^ 53 * C"
    using fl_error [of N] N(1) C by (intro mult_right_mono) simp_all
  then have "\<bar>P' - P\<bar> \<le> P / 2 ^ 53"
    using C by (simp add: P_def P'_def abs_mult left_diff_distrib [symmetric])
  moreover have "\<bar>m - P'\<bar> \<le> P' / 2 ^ 53" "\<bar>q - m / 1000\<bar> \<le> m / 1000 / 2 ^ 53"
    unfolding m_def q_def using fl_error [of P'] fl_error [of "fl P' / 1000"] P(2) m
    by (simp_all add: m_def)
  ultimately have "\<bar>q - P / 1000\<bar> \<le> P / 1000 / 2 ^ 51"
    using P(1) unfolding abs_le_iff by simp
  with cost q that [of "round_half_even (q * 100)" q] show ?thesis
    by (simp add: P_def N_def C_def)
qed

text \<open>Every float of the computation is zero or in the normal range of the doubles, so
  that rounding with an unbounded exponent is the rounding of the machine: nothing
  underflows, and nothing but the conversion of the number of tokens overflows.\<close>

lemma costs_are_doubles: "c \<in> set costs \<Longrightarrow> is_double c"
  unfolding costs_def nearest_def
  by (auto intro!: is_doubleI [where lo = "- 12" and hi = "- 5"]
      simp: power_int_minus min_exp_def max_exp_def)

lemma product_range:
  assumes "c \<in> set costs" "1 \<le> x" "x < 2 powi max_exp"
  shows "2 powi (- 12) \<le> x * magnitude c" and "x * magnitude c \<le> 2 powi (max_exp - 5)"
proof -
  note c = costs_bounds(2,3) [OF assms(1)] costs_pos [OF assms(1)]
  have "1 * 2 powi (- 12) \<le> x * magnitude c"
    using assms(2) c by (intro mult_mono) simp_all
  then show "2 powi (- 12) \<le> x * magnitude c" by simp
  have "x * magnitude c \<le> 2 powi max_exp * 2 powi (- 5)"
    using assms(2,3) c by (intro mult_mono) simp_all
  then show "x * magnitude c \<le> 2 powi (max_exp - 5)"
    using two_powi_add [of max_exp "- 5"] by simp
qed

lemma quotient_range:
  fixes m :: rat
  assumes "2 powi (- 12) \<le> m" "m \<le> 2 powi hi"
  shows "2 powi (- 22) \<le> m / 1000" and "m / 1000 \<le> 2 powi hi"
proof -
  have "(2 :: rat) powi (- 22) = 2 powi (- 12) / 1024"
    using two_powi_add [of "- 12" "- 10"] by (simp add: power_int_minus)
  with assms show "2 powi (- 22) \<le> m / 1000" "m / 1000 \<le> 2 powi hi"
    using two_powi_pos [of "- 12"] by simp_all
qed

lemma rounded_is_double:
  assumes "0 \<le> q" "q \<le> 2 powi (max_exp - 5)"
  shows "is_double (Double s (fl (of_int (round_half_even (q * 100)) / 100)))"
proof (cases "round_half_even (q * 100) = 0")
  case False
  define k where "k = round_half_even (q * 100)"
  have top: "(1 :: rat) \<le> 2 powi (max_exp - 5)"
    "(2 :: rat) powi (max_exp - 5) + 2 powi (max_exp - 5) = 2 powi (max_exp - 4)"
    using two_powi_le_iff [of 0 "max_exp - 5"] two_powi_add [of 1 "max_exp - 5"]
    by (simp_all add: max_exp_def)
  from assms(1) have "0 \<le> k" unfolding k_def by (intro round_half_even_ge) simp
  with False have "1 \<le> k" by (simp add: k_def)
  then have "(of_int 1 :: rat) \<le> of_int k" unfolding of_int_le_iff .
  then have "2 powi (- 7) \<le> (of_int k :: rat) / 100" by (simp add: power_int_minus)
  moreover have "\<bar>of_int k - q * 100\<bar> \<le> 1 / 2" unfolding k_def by (rule round_half_even_near)
  then have "(of_int k :: rat) / 100 \<le> q + 1" by linarith
  with assms(2) top have "(of_int k :: rat) / 100 \<le> 2 powi (max_exp - 4)" by linarith
  ultimately show ?thesis
    unfolding k_def [symmetric] by (rule is_doubleI) (simp_all add: min_exp_def)
qed simp

lemma cost_steps_are_doubles:
  assumes "model_to_cost_per_1k model = Some c" "float_of_int n = Some a"
  shows "is_double c" "is_double a" "is_double (fmul a c)"
    "is_double (fdiv (fmul a c) (Double False 1000))"
    "is_double (py_round (fdiv (fmul a c) (Double False 1000)) 2)"
proof -
  note c = ran_model_to_cost_per_1k [OF assms(1)]
  note a = float_of_int_is_double [OF assms(2)]
  show "is_double c" using c by (rule costs_are_doubles)
  show "is_double a" by (rule a(1))
  show "is_double (fmul a c)" "is_double (fdiv (fmul a c) (Double False 1000))"
    "is_double (py_round (fdiv (fmul a c) (Double False 1000)) 2)"
  proof (atomize (full), cases "n = 0")
    case True
    with a(4) show "is_double (fmul a c) \<and> is_double (fdiv (fmul a c) (Double False 1000)) \<and>
        is_double (py_round (fdiv (fmul a c) (Double False 1000)) 2)"
      by (simp add: is_double_def representable_def)
  next
    case False
    note P = product_range [OF c a(2) [OF False] a(3)]
    note m = fl_between [OF P]
    note Q = quotient_range [OF m]
    note q = fl_between [OF Q]
    from q(1) have "0 \<le> fl (fl (magnitude a * magnitude c) / 1000)"
      using two_powi_pos [of "- 22"] by linarith
    then have "is_double (Double (negative a \<noteq> negative c)
        (fl (of_int (round_half_even (fl (fl (magnitude a * magnitude c) / 1000) * 100)) / 100)))"
      using q(2) by (rule rounded_is_double)
    moreover have "is_double (Double (negative a \<noteq> negative c) (fl (magnitude a * magnitude c)))"
      using P by (rule is_doubleI) (simp_all add: min_exp_def)
    moreover have "is_double (Double (negative a \<noteq> negative c)
        (fl (fl (magnitude a * magnitude c) / 1000)))"
      using Q by (rule is_doubleI) (simp_all add: min_exp_def)
    ultimately show "is_double (fmul a c) \<and> is_double (fdiv (fmul a c) (Double False 1000)) \<and>
        is_double (py_round (fdiv (fmul a c) (Double False 1000)) 2)"
      by (simp add: py_round_def fmul_def fdiv_def)
  qed
qed

text \<open>A request of at most 150 tokens is shown as costing \<^verbatim>\<open>0.0\<close>, whatever the model.\<close>

lemma cost_of_few_tokens:
  assumes "model \<in> set Model_args" "0 \<le> n" "n \<le> 150"
  shows "cost_of model n = Inr (Cost (Double False 0))"
proof -
  from assms(1) obtain c where c: "model_to_cost_per_1k model = Some c"
    using model_to_cost_per_1k_None_iff [of model] by auto
  define X where "X = of_int \<bar>n\<bar> * magnitude c"
  from assms(2,3) have "float_of_int n = Some (Double (n < 0) (of_int \<bar>n\<bar>))"
    by (intro float_of_int_exact) simp
  with c obtain q k where cost: "cost_of model n =
      Inr (Cost (Double (n < 0) (fl (of_int k / 100))))"
    and k: "k = round_half_even (q * 100)" and q: "0 \<le> q"
    and near: "\<bar>q - X / 1000\<bar> \<le> X / 1000 / 2 ^ 51"
    unfolding X_def by (rule cost_of_steps)
  have "magnitude c \<le> 1 / 32"
    using costs_bounds(3) [OF ran_model_to_cost_per_1k [OF c]] by (simp add: power_int_minus)
  moreover from assms(2,3) have "(of_int \<bar>n\<bar> :: rat) \<le> 150" by simp
  moreover note costs_pos [OF ran_model_to_cost_per_1k [OF c]]
  ultimately have "X \<le> 150 * (1 / 32)"
    unfolding X_def by (intro mult_mono) simp_all
  with near q have "\<bar>q * 100 - of_int 0\<bar> < 1 / 2" unfolding abs_le_iff by simp
  then have "k = 0" unfolding k by (rule round_half_even_eqI)
  with cost assms(2) show ?thesis by simp
qed

text \<open>Evaluation of the estimate step by step, for a number of tokens that a double
  holds exactly.\<close>

lemma cost_of_eval:
  assumes "model_to_cost_per_1k model = Some (nearest p)" "0 \<le> p" "\<bar>n\<bar> \<le> 2 ^ 53"
    and "fl (of_int \<bar>n\<bar> * fl p) = m" "fl (m / 1000) = q"
    and "round_half_even (q * 100) = k"
  shows "cost_of model n = Inr (Cost (Double (n < 0) (fl (of_int k / 100))))"
  using assms(2,4-) cost_of_priced [OF assms(1) float_of_int_exact [OF assms(3)]]
  by (simp add: py_round_def fmul_def fdiv_def)

text \<open>The estimate against exact arithmetic: half a cent from rounding to hundredths,
  and the rounding of the four floating-point results.\<close>

lemma cost_of_near:
  assumes "model_to_cost_per_1k model = Some c" "float_of_int n = Some a"
  obtains r k where "cost_of model n = Inr (Cost r)" "negative r \<longleftrightarrow> n < 0"
    "magnitude r = fl (of_int k / 100)" "0 \<le> k"
    "\<bar>magnitude r - of_int \<bar>n\<bar> * magnitude c / 1000\<bar>
       \<le> 1 / 200 + (of_int \<bar>n\<bar> * magnitude c / 1000 + 1) / 2 ^ 50"
proof -
  define X where "X = of_int \<bar>n\<bar> * magnitude c"
  from assms obtain q k where cost: "cost_of model n =
      Inr (Cost (Double (n < 0) (fl (of_int k / 100))))"
    and k: "k = round_half_even (q * 100)" and q: "0 \<le> q"
    and near: "\<bar>q - X / 1000\<bar> \<le> X / 1000 / 2 ^ 51"
    unfolding X_def by (rule cost_of_steps)
  define K :: rat where "K = of_int k / 100"
  from q have k0: "0 \<le> k" unfolding k by (intro round_half_even_ge) simp
  then have K: "0 \<le> K" by (simp add: K_def)
  have "\<bar>of_int k - q * 100\<bar> \<le> 1 / 2" unfolding k by (rule round_half_even_near)
  then have "\<bar>K - q\<bar> \<le> 1 / 200" unfolding K_def abs_le_iff by simp
  moreover have "\<bar>fl K - K\<bar> \<le> K / 2 ^ 53" using fl_error [of K] K by simp
  moreover have "0 \<le> X"
    unfolding X_def using costs_pos [OF ran_model_to_cost_per_1k [OF assms(1)]] by simp
  ultimately have "\<bar>fl K - X / 1000\<bar> \<le> 1 / 200 + (X / 1000 + 1) / 2 ^ 50"
    using near unfolding abs_le_iff by (simp add: add_divide_distrib)
  with cost k0 that [of "Double (n < 0) (fl K)" k] show ?thesis
    by (simp add: K_def X_def)
qed

text \<open>The estimate against exact arithmetic on the decimal rate \<open>p\<close>: unless the exact
  cost in cents lies within a relative distance of \<open>2\<^sup>-\<^sup>5\<^sup>0\<close> of a half, the cost is the
  double nearest to the exact cost rounded to whole cents.\<close>

lemma cost_of_exact:
  assumes "model_to_cost_per_1k model = Some (nearest p)" "float_of_int n = Some a"
    and "of_int \<bar>n\<bar> * p / 10 / 2 ^ 50
       < \<bar>of_int \<bar>n\<bar> * p / 10 - of_int \<lfloor>of_int \<bar>n\<bar> * p / 10\<rfloor> - 1 / 2\<bar>"
  shows "cost_of model n =
     Inr (Cost (Double (n < 0) (fl (of_int (round_half_even (of_int \<bar>n\<bar> * p / 10)) / 100))))"
proof -
  define NC where "NC = of_int \<bar>n\<bar> * magnitude (nearest p)"
  define Np where "Np = of_int \<bar>n\<bar> * p"
  from assms(1,2) obtain q k where cost: "cost_of model n =
      Inr (Cost (Double (n < 0) (fl (of_int k / 100))))"
    and k: "k = round_half_even (q * 100)"
    and near: "\<bar>q - NC / 1000\<bar> \<le> NC / 1000 / 2 ^ 51"
    unfolding NC_def by (rule cost_of_steps)
  note c = ran_model_to_cost_per_1k [OF assms(1)]
  have p: "0 < p"
    using costs_pos [OF c] costs_bounds(1) [OF c] by (cases "p = 0") simp_all
  then have "\<bar>fl p - p\<bar> \<le> p / 2 ^ 53" using fl_error [of p] by simp
  then have "of_int \<bar>n\<bar> * \<bar>fl p - p\<bar> \<le> of_int \<bar>n\<bar> * (p / 2 ^ 53)"
    by (intro mult_left_mono) simp_all
  with p have "\<bar>NC - Np\<bar> \<le> Np / 2 ^ 53"
    by (simp add: NC_def Np_def abs_mult right_diff_distrib [symmetric])
  moreover from p have "0 \<le> Np" by (simp add: Np_def)
  ultimately have "\<bar>q * 100 - Np / 10\<bar> \<le> Np / 10 / 2 ^ 50"
    using near unfolding abs_le_iff by simp
  with assms(3) have "round_half_even (q * 100) = round_half_even (Np / 10)"
    unfolding Np_def [symmetric] by (intro round_half_even_stable) simp
  with cost k show ?thesis by (simp add: Np_def)
qed

text \<open>The estimate as a function of the values, and its monotonicity: every operation
  of the expression is monotone, rounding included, so more tokens never cost less.\<close>

lemma valof_cost_of:
  assumes "model_to_cost_per_1k model = Some c" "cost_of model n = Inr (Cost r)"
  shows "valof r =
     fl (of_int (round_half_even (fl (fl (fl (of_int n) * valof c) / 1000) * 100)) / 100)"
proof -
  from assms obtain a where a: "float_of_int n = Some a"
    by (cases "float_of_int n") (simp_all add: cost_of_def)
  note c = costs_pos [OF ran_model_to_cost_per_1k [OF assms(1)]]
  from a have "0 \<le> magnitude a" by (auto dest: float_of_int_Some simp: fl_nonneg)
  with c a have "valof (fdiv (fmul a c) (Double False 1000)) =
      fl (fl (fl (of_int n) * valof c) / 1000)"
    by (simp add: valof_fdiv valof_fmul fl_nonneg valof_float_of_int)
  moreover from assms a have "r = py_round (fdiv (fmul a c) (Double False 1000)) 2"
    by (simp add: cost_of_priced)
  ultimately show ?thesis by (simp add: valof_py_round)
qed

lemma cost_of_mono:
  assumes "model_to_cost_per_1k model = Some c" "n \<le> n'"
    and "cost_of model n = Inr (Cost r)" "cost_of model n' = Inr (Cost r')"
  shows "r \<le> r'"
proof -
  let ?q = "\<lambda>n. fl (fl (fl (of_int n) * valof c) / 1000) * 100"
  note c = ran_model_to_cost_per_1k [OF assms(1)]
  from costs_pos [OF c] costs_bounds(1) [OF c] have "0 \<le> valof c" by (simp add: valof_def)
  moreover from assms(2) have "fl (of_int n) \<le> fl (of_int n')" by (intro fl_monotone) simp
  ultimately have "fl (of_int n) * valof c \<le> fl (of_int n') * valof c"
    by (rule mult_right_mono [rotated])
  then have "fl (fl (of_int n) * valof c) / 1000 \<le> fl (fl (of_int n') * valof c) / 1000"
    by (intro divide_right_mono fl_monotone) simp_all
  then have "?q n \<le> ?q n'"
    by (intro mult_right_mono fl_monotone) simp_all
  then have "round_half_even (?q n) \<le> round_half_even (?q n')"
    by (rule round_half_even_mono)
  then have "(of_int (round_half_even (?q n)) :: rat) / 100 \<le> of_int (round_half_even (?q n')) / 100"
    by (simp add: divide_right_mono)
  then show ?thesis
    unfolding less_eq_double_def valof_cost_of [OF assms(1,3)] valof_cost_of [OF assms(1,4)]
    by (rule fl_monotone)
qed

section \<open>The input loop\<close>

definition is_answer :: "string \<Rightarrow> bool" where
  "is_answer line \<longleftrightarrow> line = ''y'' \<or> line = ''n''"

lemma answered_simps [simp]:
  "\<not> answered None" "answered (Some line) \<longleftrightarrow> is_answer line"
  by (auto simp: answered_def is_answer_def)

lemma ask_loop_answered: "answered out \<Longrightarrow> ask_loop p out w = (Inr out, w)"
  by (subst ask_loop.simps) simp

lemma ask_loop_eof:
  "\<not> answered out \<Longrightarrow> stdin w = [] \<Longrightarrow> ask_loop p out w = (Inl EOFError, emit (Prompted p) w)"
  by (subst ask_loop.simps) (simp add: py_input_def)

lemma ask_loop_read:
  "\<not> answered out \<Longrightarrow> stdin w = l # ls \<Longrightarrow>
     ask_loop p out w = ask_loop p (Some l) ((emit (Prompted p) w)\<lparr>stdin := ls\<rparr>)"
  by (subst ask_loop.simps) (simp add: py_input_def)

text \<open>The loop in closed form: it skips the lines that are no answer, prompting once
  per line read, and stops at the first answer or at the end of the input.\<close>

lemma ask_loop_closed:
  assumes "\<not> answered out" "stdin w = ls"
  shows "ask_loop p out w =
     (case dropWhile (\<lambda>l. \<not> is_answer l) ls of [] \<Rightarrow> Inl EOFError | a # _ \<Rightarrow> Inr (Some a),
      w\<lparr>stdin := tl (dropWhile (\<lambda>l. \<not> is_answer l) ls),
        trace := trace w @
          replicate (Suc (length (takeWhile (\<lambda>l. \<not> is_answer l) ls))) (Prompted p)\<rparr>)"
  using assms
proof (induction ls arbitrary: out w)
  case Nil
  then show ?case by (simp add: ask_loop_eof emit_def)
next
  case (Cons l ls)
  let ?w = "(emit (Prompted p) w)\<lparr>stdin := ls\<rparr>"
  from Cons.prems have step: "ask_loop p out w = ask_loop p (Some l) ?w"
    by (rule ask_loop_read)
  show ?case
  proof (cases "is_answer l")
    case True
    then show ?thesis by (simp add: step ask_loop_answered emit_def)
  next
    case False
    then have "ask_loop p (Some l) ?w =
       (case dropWhile (\<lambda>l. \<not> is_answer l) ls of [] \<Rightarrow> Inl EOFError | a # _ \<Rightarrow> Inr (Some a),
        ?w\<lparr>stdin := tl (dropWhile (\<lambda>l. \<not> is_answer l) ls),
          trace := trace ?w @
            replicate (Suc (length (takeWhile (\<lambda>l. \<not> is_answer l) ls))) (Prompted p)\<rparr>)"
      by (intro Cons.IH) simp_all
    with False show ?thesis
      by (simp add: step emit_def)
  qed
qed

section \<open>The gate in closed form\<close>

lemma gate_overflow:
  assumes "cost_of model (num_tokens_of tokenizer texts max_tokens) = Inl err"
  shows "openai_api_call_is_ok tokenizer model texts max_tokens w = (Inl err, w)"
  using assms by (simp add: openai_api_call_is_ok_def)

lemma gate_closed:
  assumes "cost_of model (num_tokens_of tokenizer texts max_tokens) = Inr c"
  shows "openai_api_call_is_ok tokenizer model texts max_tokens w =
     (case dropWhile (\<lambda>l. \<not> is_answer l) (stdin w) of
        [] \<Rightarrow> Inl EOFError
      | a # _ \<Rightarrow> if a = ''n'' then Inl UserCanceled else Inr (),
      w\<lparr>stdin := tl (dropWhile (\<lambda>l. \<not> is_answer l) (stdin w)),
        trace := trace w @
          replicate (Suc (length (takeWhile (\<lambda>l. \<not> is_answer l) (stdin w))))
            (Prompted (Prompt c (num_tokens_of tokenizer texts max_tokens)))\<rparr>)"
  using assms
  by (simp add: openai_api_call_is_ok_def Let_def ask_loop_closed [OF _ refl]
      del: dropWhile_eq_Nil_conv split: list.split)

text \<open>The two ways the gate can go: the estimate overflows and the gate raises at once,
  or the estimate is shown and the input decides.\<close>

lemma gate_cases [case_names Overflow Asked]:
  obtains "openai_api_call_is_ok tokenizer model texts max_tokens w = (Inl OverflowError, w)"
      "model \<in> set Model_args" "least_overflow \<le> \<bar>num_tokens_of tokenizer texts max_tokens\<bar>"
    | c where "cost_of model (num_tokens_of tokenizer texts max_tokens) = Inr c"
      "openai_api_call_is_ok tokenizer model texts max_tokens w =
         (case dropWhile (\<lambda>l. \<not> is_answer l) (stdin w) of
            [] \<Rightarrow> Inl EOFError
          | a # _ \<Rightarrow> if a = ''n'' then Inl UserCanceled else Inr (),
          w\<lparr>stdin := tl (dropWhile (\<lambda>l. \<not> is_answer l) (stdin w)),
            trace := trace w @
              replicate (Suc (length (takeWhile (\<lambda>l. \<not> is_answer l) (stdin w))))
                (Prompted (Prompt c (num_tokens_of tokenizer texts max_tokens)))\<rparr>)"
  by (cases model "num_tokens_of tokenizer texts max_tokens" rule: cost_of_cases)
     (simp_all add: gate_overflow gate_closed)

lemma span_first_answer:
  assumes "list_all (\<lambda>l. \<not> is_answer l) junk" "is_answer a"
  shows "dropWhile (\<lambda>l. \<not> is_answer l) (junk @ a # rest) = a # rest"
    and "takeWhile (\<lambda>l. \<not> is_answer l) (junk @ a # rest) = junk"
  using assms by (induction junk) simp_all

lemma span_no_answer:
  assumes "list_all (\<lambda>l. \<not> is_answer l) ls"
  shows "dropWhile (\<lambda>l. \<not> is_answer l) ls = []" and "takeWhile (\<lambda>l. \<not> is_answer l) ls = ls"
  using assms by (induction ls) simp_all

lemma calls_replicate_Prompted [simp]: "calls (replicate n (Prompted p)) = []"
  by (induction n) simp_all

lemma sleeps_replicate_Prompted [simp]: "sleeps (replicate n (Prompted p)) = []"
  by (induction n) simp_all

lemma logs_replicate_Prompted [simp]: "logs (replicate n (Prompted p)) = []"
  by (induction n) simp_all

lemma gate_extends [simp, intro]:
  "extends w (snd (openai_api_call_is_ok tokenizer model_name texts max_toks w))"
  by (rule gate_cases [where tokenizer = tokenizer and model = model_name and texts = texts
        and max_tokens = max_toks and w = w]) (simp_all add: extends_def)

lemma gate_new_events:
  assumes "cost_of model_name (num_tokens_of tokenizer texts max_toks) = Inr c"
  shows "new_events w (snd (openai_api_call_is_ok tokenizer model_name texts max_toks w)) =
     replicate (Suc (length (takeWhile (\<lambda>l. \<not> is_answer l) (stdin w))))
       (Prompted (Prompt c (num_tokens_of tokenizer texts max_toks)))"
  by (simp add: gate_closed [OF assms] new_events_def)

lemma calls_gate_events [simp]:
  "calls (new_events w (snd (openai_api_call_is_ok tokenizer model_name texts max_toks w))) = []"
  by (rule gate_cases [where tokenizer = tokenizer and model = model_name and texts = texts
        and max_tokens = max_toks and w = w])
     (simp_all add: new_events_def)

lemma gate_frame [simp, frame]:
  "service (snd (openai_api_call_is_ok tokenizer model_name texts max_toks w)) = service w"
  by (rule gate_cases [where tokenizer = tokenizer and model = model_name and texts = texts
        and max_tokens = max_toks and w = w]) simp_all

lemma num_tokens_upper_bound:
  assumes "length completions = length texts"
    and "list_all (\<lambda>c. int (length c) \<le> max_tokens) completions"
  shows "sum_list (map (\<lambda>tokens. int (length tokens)) (tokenizer texts))
       + sum_list (map (\<lambda>c. int (length c)) completions)
     \<le> num_tokens_of tokenizer texts max_tokens"
proof -
  from assms(2) have "sum_list (map (\<lambda>c. int (length c)) completions)
      \<le> int (length completions) * max_tokens"
    by (induction completions) (simp_all add: algebra_simps)
  with assms(1) show ?thesis by (simp add: num_tokens_of_def)
qed

text \<open>At a tie the binary values decide. The exact cost of 250 tokens of
  \<^verbatim>\<open>text-davinci-003\<close> is half a cent and that of 750 tokens a cent and a half; both
  are shown as \<^verbatim>\<open>0.01\<close>, where rounding the exact costs half to even gives \<^verbatim>\<open>0.0\<close> and
  \<^verbatim>\<open>0.02\<close>.\<close>

lemma cost_of_half_cents:
  "cost_of ''text-davinci-003'' 250 = Inr (Cost (nearest (1 / 100)))"
  "cost_of ''text-davinci-003'' 750 = Inr (Cost (nearest (1 / 100)))"
proof -
  have "cost_of ''text-davinci-003'' 250 =
      Inr (Cost (Double (250 < (0 :: int)) (fl (of_int 1 / 100))))"
    by (rule cost_of_eval [where p = "2 / 100" and m = 5 and q = "fl (5 / 1000)"]; code_simp)
  then show "cost_of ''text-davinci-003'' 250 = Inr (Cost (nearest (1 / 100)))"
    by (simp add: nearest_def)
  have "cost_of ''text-davinci-003'' 750 =
      Inr (Cost (Double (750 < (0 :: int)) (fl (of_int 1 / 100))))"
    by (rule cost_of_eval [where p = "2 / 100" and m = 15 and q = "fl (15 / 1000)"]; code_simp)
  then show "cost_of ''text-davinci-003'' 750 = Inr (Cost (nearest (1 / 100)))"
    by (simp add: nearest_def)
qed

text \<open>Whatever the input, the gate does not touch the endpoint: its state is unchanged,
  and the gate adds no call, no sleep and no log record to the trace.\<close>

lemma gate_leaves_endpoint_alone:
  "service (snd (openai_api_call_is_ok tokenizer model texts max_tokens w)) = service w \<and>
   calls (trace (snd (openai_api_call_is_ok tokenizer model texts max_tokens w))) = calls (trace w) \<and>
   sleeps (trace (snd (openai_api_call_is_ok tokenizer model texts max_tokens w))) = sleeps (trace w) \<and>
   logs (trace (snd (openai_api_call_is_ok tokenizer model texts max_tokens w))) = logs (trace w)"
  by (rule gate_cases [where tokenizer = tokenizer and model = model and texts = texts
        and max_tokens = max_tokens and w = w]) simp_all

section \<open>Properties of the confirmation gate\<close>

text \<open>
  C17: If the estimate can be computed and the operator's input holds, after any number
  of lines that are neither \<^verbatim>\<open>y\<close> nor \<^verbatim>\<open>n\<close>, the line \<^verbatim>\<open>y\<close>, then
  \<^verbatim>\<open>_openai_api_call_is_ok\<close> returns normally. It has shown the prompt, with the
  estimated cost and the number of tokens, once per line it read, the rejected lines
  and the answer, and has left the rest of the input unread.
\<close>

theorem gate_accepts_yes:
  assumes "cost_of model (num_tokens_of tokenizer texts max_tokens) = Inr c"
    and "stdin w = junk @ ''y'' # rest" "list_all (\<lambda>l. \<not> is_answer l) junk"
  shows "openai_api_call_is_ok tokenizer model texts max_tokens w =
     (Inr (), w\<lparr>stdin := rest,
        trace := trace w @ replicate (Suc (length junk))
          (Prompted (Prompt c (num_tokens_of tokenizer texts max_tokens)))\<rparr>)"
  using assms(2) span_first_answer [OF assms(3), of "''y''" rest]
  by (simp add: gate_closed [OF assms(1)] is_answer_def)

theorem gate_accepts_yes_witness:
  "openai_api_call_is_ok (map (map (\<lambda>c. 0))) ''text-davinci-003'' [''good film'', ''bad''] 1
     \<lparr>service = (), stdin = [''what?'', ''Y'', ''y'', ''n''], trace = []\<rparr> =
   (Inr (), \<lparr>service = (), stdin = [''n''],
      trace = [Prompted (Prompt (Cost (Double False 0)) 14),
               Prompted (Prompt (Cost (Double False 0)) 14),
               Prompted (Prompt (Cost (Double False 0)) 14) :: unit event]\<rparr>)"
  using gate_accepts_yes [where junk = "[''what?'', ''Y'']" and rest = "[''n'']"
      and tokenizer = "map (map (\<lambda>c. 0))" and model = "''text-davinci-003''"
      and texts = "[''good film'', ''bad'']" and max_tokens = 1 and c = "Cost (Double False 0)"
      and w = "\<lparr>service = (), stdin = [''what?'', ''Y'', ''y'', ''n''], trace = [] :: unit event list\<rparr>"]
  by (simp add: is_answer_def num_tokens_of_def cost_of_few_tokens Model_args_def numeral_3_eq_3)

text \<open>
  C18: If the first line of the input that is \<^verbatim>\<open>y\<close> or \<^verbatim>\<open>n\<close> is \<^verbatim>\<open>n\<close>,
  \<^verbatim>\<open>_openai_api_call_is_ok\<close> raises \<^verbatim>\<open>UserCanceled\<close>, after the same prompts and reads.
\<close>

theorem gate_declines_no:
  assumes "cost_of model (num_tokens_of tokenizer texts max_tokens) = Inr c"
    and "stdin w = junk @ ''n'' # rest" "list_all (\<lambda>l. \<not> is_answer l) junk"
  shows "openai_api_call_is_ok tokenizer model texts max_tokens w =
     (Inl UserCanceled, w\<lparr>stdin := rest,
        trace := trace w @ replicate (Suc (length junk))
          (Prompted (Prompt c (num_tokens_of tokenizer texts max_tokens)))\<rparr>)"
  using assms(2) span_first_answer [OF assms(3), of "''n''" rest]
  by (simp add: gate_closed [OF assms(1)] is_answer_def)

theorem gate_declines_no_witness:
  "openai_api_call_is_ok (map (map (\<lambda>c. 0))) ''my-own-model'' [''good film'', ''bad''] 0
     \<lparr>service = (), stdin = [''no'', ''n'', ''y''], trace = []\<rparr> =
   (Inl UserCanceled, \<lparr>service = (), stdin = [''y''],
      trace = [Prompted (Prompt Unknown 12), Prompted (Prompt Unknown 12) :: unit event]\<rparr>)"
  using gate_declines_no [where junk = "[''no'']" and rest = "[''y'']"
      and tokenizer = "map (map (\<lambda>c. 0))" and model = "''my-own-model''"
      and texts = "[''good film'', ''bad'']" and max_tokens = 0 and c = Unknown
      and w = "\<lparr>service = (), stdin = [''no'', ''n'', ''y''], trace = [] :: unit event list\<rparr>"]
  by (simp add: is_answer_def num_tokens_of_def cost_of_Unknown_iff [THEN iffD2] Model_args_def)

text \<open>
  C37: If no line of the input is \<^verbatim>\<open>y\<close> or \<^verbatim>\<open>n\<close>, the loop reads all of it, and the
  read after the last line raises \<^verbatim>\<open>EOFError\<close>: the prompt has been shown once more
  than there were lines.
\<close>

theorem gate_end_of_input:
  assumes "cost_of model (num_tokens_of tokenizer texts max_tokens) = Inr c"
    and "list_all (\<lambda>l. \<not> is_answer l) (stdin w)"
  shows "openai_api_call_is_ok tokenizer model texts max_tokens w =
     (Inl EOFError, w\<lparr>stdin := [],
        trace := trace w @ replicate (Suc (length (stdin w)))
          (Prompted (Prompt c (num_tokens_of tokenizer texts max_tokens)))\<rparr>)"
  unfolding gate_closed [OF assms(1)] span_no_answer [OF assms(2)] by simp

theorem gate_end_of_input_witness:
  "openai_api_call_is_ok (map (map (\<lambda>c. 0))) ''my-own-model'' [''good film'', ''bad''] 0
     \<lparr>service = (), stdin = [''yes''], trace = []\<rparr> =
   (Inl EOFError, \<lparr>service = (), stdin = [],
      trace = [Prompted (Prompt Unknown 12), Prompted (Prompt Unknown 12) :: unit event]\<rparr>)"
  using gate_end_of_input [where tokenizer = "map (map (\<lambda>c. 0))" and model = "''my-own-model''"
      and texts = "[''good film'', ''bad'']" and max_tokens = 0 and c = Unknown
      and w = "\<lparr>service = (), stdin = [''yes''], trace = [] :: unit event list\<rparr>"]
  by (simp add: is_answer_def num_tokens_of_def cost_of_Unknown_iff [THEN iffD2] Model_args_def)

text \<open>
  C39: For a model of the table and a number of tokens that a float can hold, the cost
  shown is the double nearest to a whole number of cents, it has the sign of the number
  of tokens, and it differs from the exact cost, tokens times rate per thousand, by at
  most half a cent and a relative error of \<open>2\<^sup>-\<^sup>5\<^sup>0\<close>, the rounding of the floating-point
  operations.
\<close>

theorem cost_estimate_within_half_cent:
  assumes "model_to_cost_per_1k model = Some c" "\<bar>n\<bar> < least_overflow"
  shows "\<exists>r k. cost_of model n = Inr (Cost r) \<and> r = Double (n < 0) (fl (of_int k / 100)) \<and>
     \<bar>valof r - of_int n * valof c / 1000\<bar>
       \<le> 1 / 200 + (\<bar>of_int n * valof c / 1000\<bar> + 1) / 2 ^ 50"
proof -
  from assms(2) obtain a where "float_of_int n = Some a"
    using float_of_int_None_iff [of n] by fastforce
  with assms(1) obtain r k where r: "cost_of model n = Inr (Cost r)" "negative r \<longleftrightarrow> n < 0"
      "magnitude r = fl (of_int k / 100)" "0 \<le> k"
    and near: "\<bar>magnitude r - of_int \<bar>n\<bar> * magnitude c / 1000\<bar>
      \<le> 1 / 200 + (of_int \<bar>n\<bar> * magnitude c / 1000 + 1) / 2 ^ 50"
    by (rule cost_of_near)
  note c = costs_bounds(1) costs_pos [OF ran_model_to_cost_per_1k [OF assms(1)]]
  from r(2,3) have "r = Double (n < 0) (fl (of_int k / 100))" by (cases r) simp
  moreover have "\<bar>valof r - of_int n * valof c / 1000\<bar> =
      \<bar>magnitude r - of_int \<bar>n\<bar> * magnitude c / 1000\<bar>"
    using r(2) c ran_model_to_cost_per_1k [OF assms(1)] by (cases "n < 0") (simp_all add: valof_def)
  moreover have "\<bar>of_int n * valof c / 1000\<bar> = of_int \<bar>n\<bar> * magnitude c / 1000"
    using c ran_model_to_cost_per_1k [OF assms(1)] by (simp add: valof_def abs_mult)
  ultimately show ?thesis using r(1) near by auto
qed

theorem cost_estimate_within_half_cent_witness:
  "model_to_cost_per_1k ''text-curie-001'' = Some (nearest (2 / 1000)) \<and> \<bar>12345\<bar> < least_overflow \<and>
   (\<exists>r k. cost_of ''text-curie-001'' 12345 = Inr (Cost r) \<and>
      r = Double (12345 < (0 :: int)) (fl (of_int k / 100)) \<and>
      \<bar>valof r - of_int 12345 * valof (nearest (2 / 1000)) / 1000\<bar>
        \<le> 1 / 200 + (\<bar>of_int 12345 * valof (nearest (2 / 1000)) / 1000\<bar> + 1) / 2 ^ 50)"
  using cost_estimate_within_half_cent [of "''text-curie-001''" "nearest (2 / 1000)" 12345]
  by (simp add: least_overflow_def)

text \<open>
  C32: \<^verbatim>\<open>_openai_api_call_is_ok\<close> raises \<^verbatim>\<open>OverflowError\<close>, before it shows a prompt or
  reads a line, if and only if the model is in the table and the number of tokens is
  \<open>2\<^sup>1\<^sup>0\<^sup>2\<^sup>4 - 2\<^sup>9\<^sup>7\<^sup>0\<close> or more in absolute value: these are the integers that round to
  no finite double. For a model that is not in the table no float is computed and
  the gate asks, whatever the number of tokens.
\<close>

theorem gate_overflows_iff:
  "openai_api_call_is_ok tokenizer model texts max_tokens w = (Inl OverflowError, w) \<longleftrightarrow>
     model \<in> set Model_args \<and> least_overflow \<le> \<bar>num_tokens_of tokenizer texts max_tokens\<bar>"
proof (rule gate_cases [where tokenizer = tokenizer and model = model and texts = texts
      and max_tokens = max_tokens and w = w])
  fix c
  assume c: "cost_of model (num_tokens_of tokenizer texts max_tokens) = Inr c"
  then have "\<not> (model \<in> set Model_args \<and> least_overflow \<le> \<bar>num_tokens_of tokenizer texts max_tokens\<bar>)"
    using cost_of_error_iff [of model "num_tokens_of tokenizer texts max_tokens" OverflowError]
    by simp
  then show ?thesis
    by (simp add: gate_closed [OF c] split: list.split)
qed simp

theorem gate_overflows_iff_witness:
  "openai_api_call_is_ok (map (map (\<lambda>c. 0))) ''text-ada-001'' [''good''] (2 ^ 1024)
     \<lparr>service = (), stdin = [''y''], trace = [] :: unit event list\<rparr> =
   (Inl OverflowError, \<lparr>service = (), stdin = [''y''], trace = []\<rparr>)"
  using gate_overflows_iff [where tokenizer = "map (map (\<lambda>c. 0))" and model = "''text-ada-001''"
      and texts = "[''good'']" and max_tokens = "2 ^ 1024"
      and w = "\<lparr>service = (), stdin = [''y''], trace = [] :: unit event list\<rparr>"]
  by (simp add: num_tokens_of_def Model_args_def least_overflow_def)

text \<open>
  C29: The floating-point estimate is the exact one except at the ties. For a model
  whose rate is the decimal \<open>p\<close>, unless the exact cost in cents lies within a relative
  distance of \<open>2\<^sup>-\<^sup>5\<^sup>0\<close> of a half, the cost shown is the double nearest to the exact
  cost, tokens times \<open>p\<close> per thousand, rounded to whole cents.
\<close>

theorem cost_agrees_with_exact_rounding:
  assumes "model_to_cost_per_1k model = Some (nearest p)" "\<bar>n\<bar> < least_overflow"
    and "of_int \<bar>n\<bar> * p / 10 / 2 ^ 50
       < \<bar>of_int \<bar>n\<bar> * p / 10 - of_int \<lfloor>of_int \<bar>n\<bar> * p / 10\<rfloor> - 1 / 2\<bar>"
  shows "cost_of model n =
     Inr (Cost (Double (n < 0) (fl (of_int (round_half_even (of_int \<bar>n\<bar> * p / 10)) / 100))))"
proof -
  from assms(2) obtain a where "float_of_int n = Some a"
    using float_of_int_None_iff [of n] by fastforce
  with assms(1) show ?thesis using assms(3) by (rule cost_of_exact)
qed

theorem cost_agrees_with_exact_rounding_witness:
  "cost_of ''text-davinci-003'' 61300 = Inr (Cost (nearest (123 / 100)))"
  using cost_agrees_with_exact_rounding [of "''text-davinci-003''" "2 / 100" 61300]
  by (simp add: least_overflow_def round_half_even_def nearest_def)

text \<open>
  C40: Every float of the estimate is a double that is zero or in the normal range: the
  rate, the converted number of tokens, the product, the quotient and the rounded
  cost. Nothing underflows and nothing but the conversion overflows, so the
  rounding with an unbounded exponent of the model is the rounding of the machine.
\<close>

theorem cost_values_are_doubles:
  assumes "model_to_cost_per_1k model = Some c" "float_of_int n = Some a"
  shows "is_double c \<and> is_double a \<and> is_double (fmul a c) \<and>
     is_double (fdiv (fmul a c) (Double False 1000)) \<and>
     is_double (py_round (fdiv (fmul a c) (Double False 1000)) 2) \<and>
     cost_of model n = Inr (Cost (py_round (fdiv (fmul a c) (Double False 1000)) 2))"
  using cost_steps_are_doubles [OF assms] cost_of_priced [OF assms] by simp

theorem cost_values_are_doubles_witness:
  "is_double (nearest (2 / 100)) \<and> is_double (Double False 250) \<and>
   is_double (fmul (Double False 250) (nearest (2 / 100))) \<and>
   is_double (fdiv (fmul (Double False 250) (nearest (2 / 100))) (Double False 1000)) \<and>
   is_double (py_round (fdiv (fmul (Double False 250) (nearest (2 / 100))) (Double False 1000)) 2) \<and>
   cost_of ''text-davinci-003'' 250 =
     Inr (Cost (py_round (fdiv (fmul (Double False 250) (nearest (2 / 100))) (Double False 1000)) 2))"
  using cost_values_are_doubles [of "''text-davinci-003''" "nearest (2 / 100)" 250 "Double False 250"]
    float_of_int_exact [of 250]
  by simp

end
