(* ===== verification/Complete.thy ===== *)
theory Complete
  imports Retry Batch Confirm
begin

text \<open>
  The orchestration, \<^verbatim>\<open>gpt3_complete\<close> of \<^verbatim>\<open>api.py\<close>: normalise the input, ask for
  confirmation if told to, open the progress bar, send every batch through
  \<^verbatim>\<open>openai_method_retry\<close>, collect the choices, close the bar. The keyword arguments of
  the call of \<^verbatim>\<open>openai_method_retry\<close> are bound as Python binds them (\<open>bind_retry_call\<close>):
  a name given twice is a \<^verbatim>\<open>TypeError\<close>, \<^verbatim>\<open>max_num_tries\<close> and \<^verbatim>\<open>sleep_sec\<close> go to the
  retrying caller, everything else to the endpoint. The argument \<open>kw\<close> of the
  definitions is the dictionary \<^verbatim>\<open>openai_completion_kwargs\<close> as \<^verbatim>\<open>gpt3_complete\<close> receives
  it, an association list of names and values.
\<close>

section \<open>Data\<close>

text \<open>The argument \<^verbatim>\<open>texts\<close>: a sequence of strings, or a bare string.\<close>

datatype texts_arg = Str string | Seq "string list"

text \<open>The keyword arguments \<^verbatim>\<open>openai.Completion.create\<close> receives, and the part of its
  response the module reads.\<close>

record request =
  prompt :: "string list"
  model :: string
  max_tokens :: int
  extra :: "(string \<times> pyval) list"

record 'c response =
  choices :: "'c list"

type_synonym kwargs = "(string \<times> pyval) list"

section \<open>Operations\<close>

definition normalise_texts :: "texts_arg \<Rightarrow> string list" where
  "normalise_texts texts = (case texts of Str s \<Rightarrow> [s] | Seq ts \<Rightarrow> ts)"

definition batch_size :: int where
  "batch_size = 20"

text \<open>The defaults of \<^verbatim>\<open>ask_if_ok\<close> and \<^verbatim>\<open>max_tokens\<close>.\<close>

definition default_ask_if_ok :: bool where
  "default_ask_if_ok = False"

definition default_max_tokens :: int where
  "default_max_tokens = 0"

definition bind_retry_call ::
  "string list \<Rightarrow> string \<Rightarrow> int \<Rightarrow> kwargs \<Rightarrow> error + pyval \<times> pyval \<times> request" where
  "bind_retry_call texts_batch model_name max_toks openai_completion_kwargs =
     (if \<exists>k \<in> {''prompt'', ''model'', ''max_tokens'', ''openai_method''}.
           k \<in> fst ` set openai_completion_kwargs
      then Inl TypeError
      else Inr (case map_of openai_completion_kwargs ''max_num_tries'' of
                  None \<Rightarrow> default_max_num_tries | Some v \<Rightarrow> v,
                case map_of openai_completion_kwargs ''sleep_sec'' of
                  None \<Rightarrow> default_sleep_sec | Some v \<Rightarrow> v,
                \<lparr>prompt = texts_batch, model = model_name, max_tokens = max_toks,
                 extra = filter (\<lambda>(k, v). k \<noteq> ''max_num_tries'' \<and> k \<noteq> ''sleep_sec'')
                           openai_completion_kwargs\<rparr>))"

fun complete_loop ::
  "(request, 'c response, 's) endpoint \<Rightarrow> string \<Rightarrow> int \<Rightarrow> kwargs \<Rightarrow> string list list
     \<Rightarrow> 'c list \<Rightarrow> (request, 's) world \<Rightarrow> ('c list, request, 's) outcome" where
  "complete_loop create model_name max_toks kw [] chs w = (Inr chs, w)"
| "complete_loop create model_name max_toks kw (texts_batch # batches) chs w =
     (case bind_retry_call texts_batch model_name max_toks kw of
        Inl err \<Rightarrow> (Inl err, w)
      | Inr (max_num_tries, sleep_sec, req) \<Rightarrow>
          (case openai_method_retry create max_num_tries sleep_sec req w of
             (Inl err, w1) \<Rightarrow> (Inl err, w1)
           | (Inr resp, w1) \<Rightarrow>
               complete_loop create model_name max_toks kw batches (chs @ choices resp)
                 (bar_update (length texts_batch) w1)))"

definition gpt3_complete ::
  "(string list \<Rightarrow> int list list) \<Rightarrow> (request, 'c response, 's) endpoint \<Rightarrow> texts_arg \<Rightarrow> string
     \<Rightarrow> bool \<Rightarrow> int \<Rightarrow> kwargs \<Rightarrow> (request, 's) world \<Rightarrow> ('c list, request, 's) outcome" where
  "gpt3_complete tokenizer create texts_in model_name ask_if_ok max_toks kw w =
     (let texts = normalise_texts texts_in
      in case (if ask_if_ok then openai_api_call_is_ok tokenizer model_name texts max_toks w
               else (Inr (), w)) of
           (Inl err, w0) \<Rightarrow> (Inl err, w0)
         | (Inr _, w0) \<Rightarrow>
             (case (case batch_constant texts batch_size of
                      Inl err \<Rightarrow> (Inl err, bar_open (length texts) w0)
                    | Inr batches \<Rightarrow>
                        complete_loop create model_name max_toks kw batches []
                          (bar_open (length texts) w0)) of
                (res, w2) \<Rightarrow> (res, bar_close w2)))"

section \<open>Binding the keyword arguments\<close>

definition reserved :: "string list" where
  "reserved = [''prompt'', ''model'', ''max_tokens'', ''openai_method'']"

definition clean :: "kwargs \<Rightarrow> bool" where
  "clean kw \<longleftrightarrow> list_all (\<lambda>(k, v). k \<notin> set reserved) kw"

definition bound_of :: "kwargs \<Rightarrow> pyval" where
  "bound_of kw = (case map_of kw ''max_num_tries'' of None \<Rightarrow> default_max_num_tries | Some v \<Rightarrow> v)"

definition sleep_of :: "kwargs \<Rightarrow> pyval" where
  "sleep_of kw = (case map_of kw ''sleep_sec'' of None \<Rightarrow> default_sleep_sec | Some v \<Rightarrow> v)"

definition extra_of :: "kwargs \<Rightarrow> kwargs" where
  "extra_of kw = filter (\<lambda>(k, v). k \<noteq> ''max_num_tries'' \<and> k \<noteq> ''sleep_sec'') kw"

definition request_of :: "string \<Rightarrow> int \<Rightarrow> kwargs \<Rightarrow> string list \<Rightarrow> request" where
  "request_of model_name max_toks kw texts_batch =
     \<lparr>prompt = texts_batch, model = model_name, max_tokens = max_toks, extra = extra_of kw\<rparr>"

lemma clean_iff: "clean kw \<longleftrightarrow> (\<forall>k \<in> set reserved. k \<notin> fst ` set kw)"
  by (auto simp: clean_def list_all_iff)

lemma bind_retry_call_clean:
  "clean kw \<Longrightarrow> bind_retry_call b model_name max_toks kw =
     Inr (bound_of kw, sleep_of kw, request_of model_name max_toks kw b)"
  by (simp add: clean_iff reserved_def bind_retry_call_def bound_of_def sleep_of_def
      request_of_def extra_of_def)

lemma bind_retry_call_reserved:
  "\<not> clean kw \<Longrightarrow> bind_retry_call b model_name max_toks kw = Inl TypeError"
  by (simp add: clean_iff reserved_def bind_retry_call_def)

lemma extra_of_keys: "fst ` set (extra_of kw) = fst ` set kw - {''max_num_tries'', ''sleep_sec''}"
  by (auto simp: extra_of_def image_iff)


section \<open>An endpoint that always answers\<close>

fun serve :: "(request, 'r, 's) endpoint \<Rightarrow> request list \<Rightarrow> 's \<Rightarrow> 's" where
  "serve create [] s = s"
| "serve create (req # reqs) s = serve create reqs (snd (create req s))"

definition scores ::
  "(request, 'c response, 's) endpoint \<Rightarrow> (string \<Rightarrow> int \<Rightarrow> kwargs \<Rightarrow> string \<Rightarrow> 'c) \<Rightarrow> bool" where
  "scores create f \<longleftrightarrow>
     (\<forall>req s. fst (create req s) =
        Inr \<lparr>choices = map (f (model req) (max_tokens req) (extra req)) (prompt req)\<rparr>)"

definition batch_events :: "string \<Rightarrow> int \<Rightarrow> kwargs \<Rightarrow> string list \<Rightarrow> request event list" where
  "batch_events model_name max_toks kw b =
     [Call (request_of model_name max_toks kw b), Bar_update (length b)]"

lemma scoresD:
  "scores create f \<Longrightarrow> create (request_of model_name max_toks kw b) s =
     (Inr \<lparr>choices = map (f model_name max_toks (extra_of kw)) b\<rparr>,
      snd (create (request_of model_name max_toks kw b) s))"
  by (simp add: scores_def prod_eq_iff request_of_def)

lemma complete_loop_scores:
  assumes "clean kw" "as_rat (bound_of kw) = Some b" "0 < b" "scores create f"
  shows "complete_loop create model_name max_toks kw batches chs w =
     (Inr (chs @ map (f model_name max_toks (extra_of kw)) (concat batches)),
      w\<lparr>service := serve create (map (request_of model_name max_toks kw) batches) (service w),
        trace := trace w @ concat (map (batch_events model_name max_toks kw) batches)\<rparr>)"
proof (induction batches arbitrary: chs w)
  case Nil
  show ?case by simp
next
  case (Cons b batches)
  let ?req = "request_of model_name max_toks kw b"
  have "openai_method_retry create (bound_of kw) (sleep_of kw) ?req w =
      (Inr \<lparr>choices = map (f model_name max_toks (extra_of kw)) b\<rparr>,
       w\<lparr>service := snd (create ?req (service w)), trace := trace w @ [Call ?req]\<rparr>)"
    using assms(2,3) scoresD [OF assms(4)] by (rule retry_first_call_returns)
  then show ?case
    by (simp add: bind_retry_call_clean [OF assms(1)] Cons.IH batch_events_def bar_update_def
        emit_def)
qed

lemma gpt3_complete_asks_first:
  "gpt3_complete tokenizer create texts model_name True max_toks kw w =
     (case openai_api_call_is_ok tokenizer model_name (normalise_texts texts) max_toks w of
        (Inl err, w0) \<Rightarrow> (Inl err, w0)
      | (Inr _, w0) \<Rightarrow> gpt3_complete tokenizer create texts model_name False max_toks kw w0)"
  by (simp add: gpt3_complete_def Let_def split: prod.splits sum.splits)

text \<open>An estimate that overflows ends the call before anything is shown or sent. Without
  \<^verbatim>\<open>ask_if_ok\<close> no estimate is computed, and the same arguments go through.\<close>

lemma gpt3_complete_overflow:
  assumes "model_name \<in> set Model_args"
    and "least_overflow \<le> \<bar>num_tokens_of tokenizer (normalise_texts texts) max_toks\<bar>"
  shows "gpt3_complete tokenizer create texts model_name True max_toks kw w = (Inl OverflowError, w)"
proof -
  from assms have "cost_of model_name (num_tokens_of tokenizer (normalise_texts texts) max_toks) =
      Inl OverflowError"
    by (simp add: cost_of_error_iff)
  then show ?thesis by (simp add: gpt3_complete_asks_first gate_overflow)
qed

lemma gpt3_complete_unasked:
  "gpt3_complete tokenizer create texts model_name False max_toks kw w =
     (case complete_loop create model_name max_toks kw (slices 20 (normalise_texts texts)) []
             (bar_open (length (normalise_texts texts)) w) of
        (res, w2) \<Rightarrow> (res, bar_close w2))"
  by (simp add: gpt3_complete_def Let_def batch_size_def)


lemma gpt3_complete_scores:
  assumes "clean kw" "as_rat (bound_of kw) = Some b" "0 < b" "scores create f"
  shows "gpt3_complete tokenizer create texts model_name False max_toks kw w =
     (Inr (map (f model_name max_toks (extra_of kw)) (normalise_texts texts)),
      w\<lparr>service := serve create
            (map (request_of model_name max_toks kw) (slices 20 (normalise_texts texts))) (service w),
        trace := trace w @ Bar_open (length (normalise_texts texts)) #
          concat (map (batch_events model_name max_toks kw) (slices 20 (normalise_texts texts)))
          @ [Bar_close]\<rparr>)"
  by (simp add: gpt3_complete_unasked complete_loop_scores [OF assms] concat_slices
      bar_open_def bar_close_def emit_def)

lemma calls_batch_events [simp]:
  "calls (concat (map (batch_events model_name max_toks kw) batches)) =
     map (request_of model_name max_toks kw) batches"
  by (induction batches) (simp_all add: batch_events_def)

lemma bar_updates_batch_events [simp]:
  "bar_updates (concat (map (batch_events model_name max_toks kw) batches)) = map length batches"
  by (induction batches) (simp_all add: batch_events_def)

lemma sleeps_batch_events [simp]:
  "sleeps (concat (map (batch_events model_name max_toks kw) batches)) = []"
  by (induction batches) (simp_all add: batch_events_def)

section \<open>Properties of the orchestration\<close>

text \<open>
  C3: Against an endpoint that answers every request with one choice per prompt, the
  choice of a prompt being a function \<open>f\<close> of the prompt and of the parameters of the
  request, \<^verbatim>\<open>gpt3_complete\<close> returns the choices of the texts in the order of the
  texts, however the texts fall into batches: \<open>result = map f texts\<close>. The trace shows
  the bar opened with the number of texts, then per batch one call and one update of the
  bar by the size of the batch, then the bar closed.
\<close>

theorem gpt3_complete_returns_choices_in_order:
  assumes "clean kw" "as_rat (bound_of kw) = Some b" "0 < b" "scores create f"
  shows "gpt3_complete tokenizer create texts model_name False max_toks kw w =
     (Inr (map (f model_name max_toks (extra_of kw)) (normalise_texts texts)),
      w\<lparr>service := serve create
            (map (request_of model_name max_toks kw) (slices 20 (normalise_texts texts))) (service w),
        trace := trace w @ Bar_open (length (normalise_texts texts)) #
          concat (map (batch_events model_name max_toks kw) (slices 20 (normalise_texts texts)))
          @ [Bar_close]\<rparr>)"
  using assms by (rule gpt3_complete_scores)

theorem gpt3_complete_returns_choices_in_order_witness:
  "gpt3_complete (map (map (\<lambda>c. 0))) (\<lambda>req s. (Inr \<lparr>choices = map length (prompt req)\<rparr>, Suc s))
     (Seq [''good'', ''bad'', ''so-so'']) ''text-ada-001'' False 0
     [(''logprobs'', VInt 5), (''sleep_sec'', VInt 1)]
     \<lparr>service = 0, stdin = [], trace = []\<rparr> =
   (Inr [4, 3, 5],
    \<lparr>service = 1, stdin = [],
     trace = [Bar_open 3,
              Call \<lparr>prompt = [''good'', ''bad'', ''so-so''], model = ''text-ada-001'',
                    max_tokens = 0, extra = [(''logprobs'', VInt 5)]\<rparr>,
              Bar_update 3, Bar_close]\<rparr>)"
  using gpt3_complete_returns_choices_in_order [where kw = "[(''logprobs'', VInt 5), (''sleep_sec'', VInt 1)]"
      and b = 5 and create = "\<lambda>req s. (Inr \<lparr>choices = map length (prompt req)\<rparr>, Suc s)"
      and f = "\<lambda>_ _ _. length" and texts = "Seq [''good'', ''bad'', ''so-so'']"
      and tokenizer = "map (map (\<lambda>c. 0))" and model_name = "''text-ada-001''" and max_toks = 0
      and w = "\<lparr>service = 0 :: nat, stdin = [], trace = []\<rparr>"]
  by (simp add: clean_def reserved_def bound_of_def default_max_num_tries_def scores_def
      normalise_texts_def extra_of_def slices_short batch_events_def request_of_def)


text \<open>
  C4: Against such an endpoint \<^verbatim>\<open>gpt3_complete\<close> issues one call per batch, in the
  order of the batches: \<open>\<lceil>N / 20\<rceil>\<close> calls for \<open>N\<close> texts, whose prompts are the
  consecutive slices of 20 texts and concatenate to the texts. It never sleeps.
\<close>

theorem gpt3_complete_one_call_per_batch:
  assumes "clean kw" "as_rat (bound_of kw) = Some b" "0 < b" "scores create f"
  shows "calls (trace (snd (gpt3_complete tokenizer create texts model_name False max_toks kw w))) =
       calls (trace w) @ map (request_of model_name max_toks kw) (slices 20 (normalise_texts texts))
     \<and> length (slices 20 (normalise_texts texts)) = ceil_div (length (normalise_texts texts)) 20
     \<and> concat (slices 20 (normalise_texts texts)) = normalise_texts texts
     \<and> sleeps (trace (snd (gpt3_complete tokenizer create texts model_name False max_toks kw w))) =
       sleeps (trace w)"
  by (simp add: gpt3_complete_scores [OF assms] concat_slices)

theorem gpt3_complete_one_call_per_batch_witness:
  "map (\<lambda>req. length (prompt req))
     (calls (trace (snd (gpt3_complete (map (map (\<lambda>c. 0)))
        (\<lambda>req s. (Inr \<lparr>choices = map length (prompt req)\<rparr>, Suc s))
        (Seq (replicate 45 ''text'')) ''text-ada-001'' False 0 []
        \<lparr>service = 0 :: nat, stdin = [], trace = []\<rparr>)))) = [20, 20, 5]
   \<and> ceil_div 45 20 = 3"
  using gpt3_complete_one_call_per_batch [where kw = "[]"
      and b = 5 and create = "\<lambda>req s. (Inr \<lparr>choices = map length (prompt req)\<rparr>, Suc s)"
      and f = "\<lambda>_ _ _. length" and texts = "Seq (replicate 45 ''text'')"
      and tokenizer = "map (map (\<lambda>c. 0))" and model_name = "''text-ada-001''" and max_toks = 0
      and w = "\<lparr>service = 0 :: nat, stdin = [], trace = []\<rparr>"]
  by (simp add: clean_def bound_of_def default_max_num_tries_def scores_def normalise_texts_def
      slices_def ceil_div_def request_of_def comp_def upt_rec)

text \<open>
  A bare string is one text, not a sequence of characters: against such an
  endpoint \<^verbatim>\<open>gpt3_complete\<close> sends a single request whose prompt is the one-element list
  of the string and returns the one choice for it.
\<close>

lemma gpt3_complete_bare_string:
  assumes "clean kw" "as_rat (bound_of kw) = Some b" "0 < b" "scores create f"
  shows "gpt3_complete tokenizer create (Str s) model_name False max_toks kw w =
     (Inr [f model_name max_toks (extra_of kw) s],
      w\<lparr>service := snd (create (request_of model_name max_toks kw [s]) (service w)),
        trace := trace w @ [Bar_open 1, Call (request_of model_name max_toks kw [s]),
                            Bar_update 1, Bar_close]\<rparr>)"
  by (simp add: gpt3_complete_scores [OF assms] normalise_texts_def slices_short batch_events_def)

lemma gpt3_complete_bare_string_example:
  "gpt3_complete (map (map (\<lambda>c. 0))) (\<lambda>req s. (Inr \<lparr>choices = map length (prompt req)\<rparr>, Suc s))
     (Str ''good'') ''text-ada-001'' False 0 [] \<lparr>service = 0, stdin = [], trace = []\<rparr> =
   (Inr [4],
    \<lparr>service = 1, stdin = [],
     trace = [Bar_open 1,
              Call \<lparr>prompt = [''good''], model = ''text-ada-001'', max_tokens = 0, extra = []\<rparr>,
              Bar_update 1, Bar_close]\<rparr>)"
  using gpt3_complete_bare_string [where kw = "[]"
      and b = 5 and create = "\<lambda>req s. (Inr \<lparr>choices = map length (prompt req)\<rparr>, Suc s)"
      and f = "\<lambda>_ _ _. length" and s = "''good''"
      and tokenizer = "map (map (\<lambda>c. 0))" and model_name = "''text-ada-001''" and max_toks = 0
      and w = "\<lparr>service = 0 :: nat, stdin = [], trace = []\<rparr>"]
  by (simp add: clean_def bound_of_def default_max_num_tries_def scores_def extra_of_def
      request_of_def)

text \<open>
  C6: When the operator answers \<^verbatim>\<open>n\<close> to the estimate, \<^verbatim>\<open>gpt3_complete\<close> with
  \<^verbatim>\<open>ask_if_ok\<close> raises \<^verbatim>\<open>UserCanceled\<close> before anything is sent: the endpoint's state is
  unchanged and the trace has grown by the prompts only, with no call and no progress
  bar.
\<close>

theorem gpt3_complete_declined:
  assumes "cost_of model_name (num_tokens_of tokenizer (normalise_texts texts) max_toks) = Inr c"
    and "stdin w = junk @ ''n'' # rest" "list_all (\<lambda>l. \<not> is_answer l) junk"
  shows "gpt3_complete tokenizer create texts model_name True max_toks kw w =
     (Inl UserCanceled, w\<lparr>stdin := rest,
        trace := trace w @ replicate (Suc (length junk))
          (Prompted (Prompt c (num_tokens_of tokenizer (normalise_texts texts) max_toks)))\<rparr>)"
  using assms(2) span_first_answer [OF assms(3), of "''n''" rest]
  by (simp add: gpt3_complete_asks_first gate_closed [OF assms(1)] is_answer_def)

theorem gpt3_complete_declined_witness:
  "gpt3_complete (map (map (\<lambda>c. 0))) scripted (Seq [''good'', ''bad'']) ''text-ada-001'' True 0 []
     \<lparr>service = [Inr \<lparr>choices = [''a'', ''b'']\<rparr>], stdin = [''n''], trace = []\<rparr> =
   (Inl UserCanceled,
    \<lparr>service = [Inr \<lparr>choices = [''a'', ''b'']\<rparr>], stdin = [],
     trace = [Prompted (Prompt (Cost (Double False 0)) 7)]\<rparr>)"
  using gpt3_complete_declined [where junk = "[]" and rest = "[]" and create = scripted
      and texts = "Seq [''good'', ''bad'']" and kw = "[]" and c = "Cost (Double False 0)"
      and tokenizer = "map (map (\<lambda>c. 0))" and model_name = "''text-ada-001''" and max_toks = 0
      and w = "\<lparr>service = [Inr \<lparr>choices = [''a'', ''b'']\<rparr>], stdin = [''n''], trace = []\<rparr>"]
  by (simp add: normalise_texts_def num_tokens_of_def cost_of_few_tokens Model_args_def)

text \<open>
  C23: The dictionary \<^verbatim>\<open>openai_completion_kwargs\<close> is unpacked into a call that passes
  \<^verbatim>\<open>openai_method\<close>, \<^verbatim>\<open>prompt\<close>, \<^verbatim>\<open>model\<close> and \<^verbatim>\<open>max_tokens\<close> itself. If it holds one of
  these names (\<^verbatim>\<open>prompt\<close> and \<^verbatim>\<open>openai_method\<close> are the ones a caller of
  \<^verbatim>\<open>gpt3_complete\<close> can put there) and there is at least one text, \<^verbatim>\<open>gpt3_complete\<close>
  raises \<^verbatim>\<open>TypeError\<close> at the first batch, having opened and closed the bar and sent
  nothing.
\<close>

theorem gpt3_complete_reserved_keyword:
  assumes "\<not> clean kw" "normalise_texts texts \<noteq> []"
  shows "gpt3_complete tokenizer create texts model_name False max_toks kw w =
     (Inl TypeError,
      w\<lparr>trace := trace w @ [Bar_open (length (normalise_texts texts)), Bar_close]\<rparr>)"
  using assms
  by (simp add: gpt3_complete_unasked slices_rec bind_retry_call_reserved bar_open_def
      bar_close_def emit_def)

theorem gpt3_complete_reserved_keyword_witness:
  "gpt3_complete (map (map (\<lambda>c. 0))) scripted (Seq [''good'', ''bad'']) ''text-ada-001'' False 0
     [(''prompt'', VStr ''other'')]
     \<lparr>service = [Inr \<lparr>choices = [''a'', ''b'']\<rparr>], stdin = [], trace = []\<rparr> =
   (Inl TypeError,
    \<lparr>service = [Inr \<lparr>choices = [''a'', ''b'']\<rparr>], stdin = [], trace = [Bar_open 2, Bar_close]\<rparr>)"
  using gpt3_complete_reserved_keyword [where create = scripted
      and texts = "Seq [''good'', ''bad'']" and kw = "[(''prompt'', VStr ''other'')]"
      and tokenizer = "map (map (\<lambda>c. 0))" and model_name = "''text-ada-001''" and max_toks = 0
      and w = "\<lparr>service = [Inr \<lparr>choices = [''a'', ''b'']\<rparr>], stdin = [], trace = []\<rparr>"]
  by (simp add: normalise_texts_def clean_def reserved_def)

end
