(* ===== verification/Complete_Runs.thy ===== *)
theory Complete_Runs
  imports Complete
begin

text \<open>
  What holds of every run of \<^verbatim>\<open>gpt3_complete\<close>, whatever the endpoint answers and
  whatever keyword arguments are passed on. One iteration of the loop is a case
  analysis (\<open>complete_loop_cases\<close>): the keyword arguments do not bind, the retrying
  call raises, or it returns and the loop goes on. The lemmas that follow are
  inductions over the batches with that rule: the world only grows, the requests sent
  are requests for the batches, the bar is updated once per answered batch, and an
  endpoint that gives one choice per prompt makes the loop give one per text. The last
  part runs the loop against an endpoint with transient faults.
\<close>

section \<open>One iteration\<close>

definition one_choice_each :: "(request, 'c response, 's) endpoint \<Rightarrow> bool" where
  "one_choice_each create \<longleftrightarrow>
     (\<forall>req s resp. fst (create req s) = Inr resp \<longrightarrow> length (choices resp) = length (prompt req))"

lemma complete_loop_Cons:
  "complete_loop create model_name max_toks kw (b # batches) chs w =
     (if clean kw then
        (case openai_method_retry create (bound_of kw) (sleep_of kw)
                (request_of model_name max_toks kw b) w of
           (Inl err, w1) \<Rightarrow> (Inl err, w1)
         | (Inr resp, w1) \<Rightarrow>
             complete_loop create model_name max_toks kw batches (chs @ choices resp)
               (bar_update (length b) w1))
      else (Inl TypeError, w))"
  by (simp add: bind_retry_call_clean bind_retry_call_reserved)

lemmas complete_loop_unfold = complete_loop.simps(1) complete_loop_Cons

declare complete_loop.simps(2) [simp del]

lemma complete_loop_append:
  "complete_loop create model_name max_toks kw (bs1 @ bs2) chs w =
     (case complete_loop create model_name max_toks kw bs1 chs w of
        (Inl err, w1) \<Rightarrow> (Inl err, w1)
      | (Inr chs1, w1) \<Rightarrow> complete_loop create model_name max_toks kw bs2 chs1 w1)"
  by (induction bs1 arbitrary: chs w)
     (auto simp: complete_loop_unfold split: prod.splits sum.splits)

text \<open>One iteration of the loop, as a case analysis: the keyword arguments do not
  bind, or the retrying call raises, or it returns and the loop goes on. The world
  after the retrying call extends the world before by events of that call.\<close>

lemma complete_loop_cases [case_names Reserved Raised Returned]:
  obtains
    (Reserved) "\<not> clean kw"
      "complete_loop create model_name max_toks kw (b # batches) chs w = (Inl TypeError, w)"
  | (Raised) err w1 where "clean kw" "extends w w1 \<and> stdin w1 = stdin w"
      "list_all (retry_event (request_of model_name max_toks kw b)) (new_events w w1)"
      "complete_loop create model_name max_toks kw (b # batches) chs w = (Inl err, w1)"
      "length (sleeps (new_events w w1)) \<le> length (calls (new_events w w1)) \<and>
       length (calls (new_events w w1)) \<le> tries_left (bound_of kw) 0"
  | (Returned) resp w1 s where "clean kw" "extends w w1 \<and> stdin w1 = stdin w"
      "list_all (retry_event (request_of model_name max_toks kw b)) (new_events w w1)"
      "fst (create (request_of model_name max_toks kw b) s) = Inr resp"
      "complete_loop create model_name max_toks kw (b # batches) chs w =
         complete_loop create model_name max_toks kw batches (chs @ choices resp)
           (bar_update (length b) w1)"
      "length (sleeps (new_events w w1)) \<le> length (calls (new_events w w1)) \<and>
       length (calls (new_events w w1)) \<le> tries_left (bound_of kw) 0"
proof (cases "clean kw")
  case False
  then show ?thesis by (intro Reserved) (simp_all add: complete_loop_Cons)
next
  case True
  let ?req = "request_of model_name max_toks kw b"
  let ?run = "openai_method_retry create (bound_of kw) (sleep_of kw) ?req w"
  have ext: "extends w (snd ?run) \<and> stdin (snd ?run) = stdin w"
    "list_all (retry_event ?req) (new_events w (snd ?run))"
    "length (sleeps (new_events w (snd ?run))) \<le> length (calls (new_events w (snd ?run))) \<and>
     length (calls (new_events w (snd ?run))) \<le> tries_left (bound_of kw) 0"
    by (simp_all add: retry_events_shape)
  show ?thesis
  proof (cases "fst ?run")
    case (Inl err)
    with True ext show ?thesis
      by (intro Raised [of "snd ?run" err]) (auto simp: complete_loop_Cons split: prod.splits)
  next
    case (Inr resp)
    from openai_method_retry_returns_reply [OF this]
    obtain s where "fst (create ?req s) = Inr resp" ..
    with True ext Inr show ?thesis
      by (intro Returned [of "snd ?run" s resp])
         (auto simp: complete_loop_Cons split: prod.splits)
  qed
qed

section \<open>Invariants of the loop\<close>

lemma complete_loop_extends [simp, intro]:
  "extends w (snd (complete_loop create model_name max_toks kw batches chs w))"
proof (induction batches arbitrary: chs w)
  case Nil
  show ?case by simp
next
  case (Cons b batches)
  show ?case
  proof (cases rule: complete_loop_cases [of kw create model_name max_toks b batches chs w])
    case Reserved
    then show ?thesis by simp
  next
    case (Raised err w1)
    then show ?thesis by simp
  next
    case (Returned resp w1 s)
    from Returned(2) have "extends w (bar_update (length b) w1)"
      by (blast intro: extends_trans bar_extends)
    from extends_trans [OF this Cons.IH] Returned(5) show ?thesis by simp
  qed
qed


lemma new_events_loop_step:
  assumes "extends w w1"
  shows "new_events w (snd (complete_loop create model_name max_toks kw batches chs (bar_update n w1))) =
     new_events w w1 @ Bar_update n #
       new_events (bar_update n w1)
         (snd (complete_loop create model_name max_toks kw batches chs (bar_update n w1)))"
proof -
  let ?w2 = "snd (complete_loop create model_name max_toks kw batches chs (bar_update n w1))"
  have "extends w (bar_update n w1)" using assms by (rule extends_trans) simp
  then have "new_events w ?w2 = new_events w (bar_update n w1) @ new_events (bar_update n w1) ?w2"
    by (rule new_events_trans) (rule complete_loop_extends)
  moreover have "new_events w (bar_update n w1) = new_events w w1 @ new_events w1 (bar_update n w1)"
    using assms by (rule new_events_trans) simp
  ultimately show ?thesis by simp
qed

lemma complete_loop_stdin [simp, frame]:
  "stdin (snd (complete_loop create model_name max_toks kw batches chs w)) = stdin w"
proof (induction batches arbitrary: chs w)
  case Nil
  show ?case by simp
next
  case (Cons b batches)
  show ?case
    by (cases rule: complete_loop_cases [of kw create model_name max_toks b batches chs w])
       (simp_all add: Cons.IH)
qed

text \<open>The requests sent are requests for the batches.\<close>

lemma complete_loop_calls:
  "list_all (\<lambda>req. req \<in> request_of model_name max_toks kw ` set batches)
     (calls (new_events w (snd (complete_loop create model_name max_toks kw batches chs w))))"
proof (induction batches arbitrary: chs w)
  case Nil
  show ?case by simp
next
  case (Cons b batches)
  let ?req = "request_of model_name max_toks kw b"
  show ?case
  proof (cases rule: complete_loop_cases [of kw create model_name max_toks b batches chs w])
    case Reserved
    then show ?thesis by simp
  next
    case (Raised err w1)
    from retry_event_calls [OF Raised(3)]
    have "set (calls (new_events w w1)) \<subseteq> {?req}" by (metis set_replicate_conv_if empty_subsetI subset_refl)
    with Raised(4) show ?thesis by (auto simp: list_all_iff)
  next
    case (Returned resp w1 s)
    from retry_event_calls [OF Returned(3)]
    have "set (calls (new_events w w1)) \<subseteq> {?req}" by (metis set_replicate_conv_if empty_subsetI subset_refl)
    with Returned(5) Cons.IH [where chs = "chs @ choices resp" and w = "bar_update (length b) w1"]
    show ?thesis by (auto simp: list_all_iff new_events_loop_step [OF conjunct1 [OF Returned(2)]])
  qed
qed

text \<open>The bar is updated once per batch that was answered, by the size of the batch.\<close>

lemma complete_loop_bar:
  "\<exists>j. (if returned (fst (complete_loop create model_name max_toks kw batches chs w))
         then j = length batches else j < length batches) \<and>
        bar_events (new_events w (snd (complete_loop create model_name max_toks kw batches chs w)))
          = map (\<lambda>b. Bar_update (length b)) (take j batches)"
proof (induction batches arbitrary: chs w)
  case Nil
  show ?case by simp
next
  case (Cons b batches)
  show ?case
  proof (cases rule: complete_loop_cases [of kw create model_name max_toks b batches chs w])
    case Reserved
    then show ?thesis by (intro exI [of _ 0]) simp
  next
    case (Raised err w1)
    then show ?thesis by (intro exI [of _ 0]) (simp add: retry_event_bar_events)
  next
    case (Returned resp w1 s)
    from Cons.IH [where chs = "chs @ choices resp" and w = "bar_update (length b) w1"]
    obtain j where "if returned (fst (complete_loop create model_name max_toks kw batches
          (chs @ choices resp) (bar_update (length b) w1)))
        then j = length batches else j < length batches"
      and "bar_events (new_events (bar_update (length b) w1)
          (snd (complete_loop create model_name max_toks kw batches (chs @ choices resp)
             (bar_update (length b) w1)))) = map (\<lambda>b. Bar_update (length b)) (take j batches)"
      by blast
    with Returned show ?thesis
      by (intro exI [of _ "Suc j"])
         (simp add: new_events_loop_step [OF conjunct1] retry_event_bar_events split: if_splits)
  qed
qed

text \<open>Per batch the endpoint is called at most as often as the bound on the tries
  allows, and the process sleeps at most once per call.\<close>

lemma complete_loop_calls_bound:
  "length (sleeps (new_events w (snd (complete_loop create model_name max_toks kw batches chs w))))
     \<le> length (calls (new_events w (snd (complete_loop create model_name max_toks kw batches chs w)))) \<and>
   length (calls (new_events w (snd (complete_loop create model_name max_toks kw batches chs w))))
     \<le> length batches * tries_left (bound_of kw) 0"
proof (induction batches arbitrary: chs w)
  case Nil
  show ?case by simp
next
  case (Cons b batches)
  show ?case
  proof (cases rule: complete_loop_cases [of kw create model_name max_toks b batches chs w])
    case Reserved
    then show ?thesis by simp
  next
    case (Raised err w1)
    then show ?thesis by (simp add: trans_le_add1)
  next
    case (Returned resp w1 s)
    with Cons.IH [where chs = "chs @ choices resp" and w = "bar_update (length b) w1"]
    show ?thesis by (simp add: new_events_loop_step [OF conjunct1])
  qed
qed

text \<open>If the endpoint gives one choice per prompt, the loop gives one per text.\<close>

lemma complete_loop_length:
  assumes "one_choice_each create"
  shows "fst (complete_loop create model_name max_toks kw batches chs w) = Inr chs' \<Longrightarrow>
     length chs' = length chs + length (concat batches)"
proof (induction batches arbitrary: chs w)
  case Nil
  then show ?case by simp
next
  case (Cons b batches)
  show ?case
  proof (cases rule: complete_loop_cases [of kw create model_name max_toks b batches chs w])
    case Reserved
    with Cons.prems show ?thesis by simp
  next
    case (Raised err w1)
    with Cons.prems show ?thesis by simp
  next
    case (Returned resp w1 s)
    from assms Returned(4) have "length (choices resp) = length b"
      by (auto simp: one_choice_each_def request_of_def)
    with Cons.IH [where chs = "chs @ choices resp" and w = "bar_update (length b) w1"] Cons.prems Returned(5)
    show ?thesis by simp
  qed
qed

section \<open>The whole call\<close>

lemma gpt3_complete_unasked_eq:
  "gpt3_complete tokenizer create texts model_name False max_toks kw w =
     (fst (complete_loop create model_name max_toks kw (slices 20 (normalise_texts texts)) []
             (bar_open (length (normalise_texts texts)) w)),
      bar_close (snd (complete_loop create model_name max_toks kw
             (slices 20 (normalise_texts texts)) [] (bar_open (length (normalise_texts texts)) w))))"
  by (simp add: gpt3_complete_unasked split: prod.splits)

text \<open>By default the operator is not asked, standard input is not read, and the
  estimate, were it asked for, would count the tokens of the prompts only.\<close>

lemma gpt3_complete_default_stdin:
  "stdin (snd (gpt3_complete tokenizer create texts model_name default_ask_if_ok max_toks kw w)) =
     stdin w"
  by (simp add: default_ask_if_ok_def gpt3_complete_unasked_eq)

lemma num_tokens_of_default:
  "num_tokens_of tokenizer texts default_max_tokens =
     sum_list (map (\<lambda>tokens. int (length tokens)) (tokenizer texts))"
  by (simp add: num_tokens_of_def default_max_tokens_def)

lemma gpt3_complete_unasked_events:
  "new_events w (snd (gpt3_complete tokenizer create texts model_name False max_toks kw w)) =
     Bar_open (length (normalise_texts texts)) #
       new_events (bar_open (length (normalise_texts texts)) w)
         (snd (complete_loop create model_name max_toks kw (slices 20 (normalise_texts texts)) []
                (bar_open (length (normalise_texts texts)) w))) @ [Bar_close]"
proof -
  let ?w0 = "bar_open (length (normalise_texts texts)) w"
  let ?w1 = "snd (complete_loop create model_name max_toks kw (slices 20 (normalise_texts texts)) [] ?w0)"
  have a: "extends w ?w0" "extends ?w0 ?w1" "extends ?w1 (bar_close ?w1)" by simp_all
  from a(1,2) have b: "extends w ?w1" by (rule extends_trans)
  have "new_events w (bar_close ?w1) = new_events w ?w1 @ new_events ?w1 (bar_close ?w1)"
    using b a(3) by (rule new_events_trans)
  moreover have "new_events w ?w1 = new_events w ?w0 @ new_events ?w0 ?w1"
    using a(1,2) by (rule new_events_trans)
  ultimately show ?thesis by (simp add: gpt3_complete_unasked_eq)
qed

text \<open>With \<^verbatim>\<open>ask_if_ok\<close>, the call is the gate and then, if the gate lets it pass, the
  call without it.\<close>

lemma gpt3_complete_asked_cases [case_names Stopped Passed]:
  obtains
    (Stopped) err where
      "fst (openai_api_call_is_ok tokenizer model_name (normalise_texts texts) max_toks w) = Inl err"
      "gpt3_complete tokenizer create texts model_name True max_toks kw w =
         (Inl err, snd (openai_api_call_is_ok tokenizer model_name (normalise_texts texts) max_toks w))"
  | (Passed)
      "fst (openai_api_call_is_ok tokenizer model_name (normalise_texts texts) max_toks w) = Inr ()"
      "gpt3_complete tokenizer create texts model_name True max_toks kw w =
         gpt3_complete tokenizer create texts model_name False max_toks kw
           (snd (openai_api_call_is_ok tokenizer model_name (normalise_texts texts) max_toks w))"
proof (cases "fst (openai_api_call_is_ok tokenizer model_name (normalise_texts texts) max_toks w)")
  case (Inl err)
  then show ?thesis
    by (intro Stopped [of err]) (auto simp: gpt3_complete_asks_first split: prod.splits)
next
  case (Inr u)
  then show ?thesis
    by (intro Passed) (auto simp: gpt3_complete_asks_first split: prod.splits)
qed

lemma gpt3_complete_unasked_extends:
  "extends w (snd (gpt3_complete tokenizer create texts model_name False max_toks kw w))"
proof -
  let ?w0 = "bar_open (length (normalise_texts texts)) w"
  let ?w1 = "snd (complete_loop create model_name max_toks kw (slices 20 (normalise_texts texts)) [] ?w0)"
  have "extends w ?w0" "extends ?w0 ?w1" "extends ?w1 (bar_close ?w1)" by simp_all
  then have "extends w (bar_close ?w1)" by (blast intro: extends_trans)
  then show ?thesis by (simp add: gpt3_complete_unasked_eq)
qed

lemma gpt3_complete_extends [simp, intro]:
  "extends w (snd (gpt3_complete tokenizer create texts model_name ask max_toks kw w))"
proof (cases ask)
  case False
  then show ?thesis by (simp add: gpt3_complete_unasked_extends)
next
  case True
  show ?thesis
  proof (cases rule: gpt3_complete_asked_cases [of tokenizer model_name texts max_toks w create kw])
    case (Stopped err)
    with True show ?thesis by simp
  next
    case Passed
    with True extends_trans [OF gate_extends gpt3_complete_unasked_extends] show ?thesis by simp
  qed
qed

lemma request_of_simps [simp]:
  "prompt (request_of model_name max_toks kw b) = b"
  "model (request_of model_name max_toks kw b) = model_name"
  "max_tokens (request_of model_name max_toks kw b) = max_toks"
  "extra (request_of model_name max_toks kw b) = extra_of kw"
  by (simp_all add: request_of_def)

lemma gpt3_complete_unasked_calls:
  "list_all (\<lambda>req. req \<in> request_of model_name max_toks kw ` set (slices 20 (normalise_texts texts)))
     (calls (new_events w
        (snd (gpt3_complete tokenizer create texts model_name False max_toks kw w))))"
  unfolding gpt3_complete_unasked_events by (simp add: complete_loop_calls)

section \<open>Runs against an endpoint with transient faults\<close>

text \<open>Against an endpoint with transient faults the loop still collects every choice.\<close>

lemma complete_loop_flaky:
  assumes "clean kw" "as_rat (sleep_of kw) = Some d" "0 \<le> d"
    and "as_rat (bound_of kw) = Some b" "0 < b" "scores create f"
  shows "service w = (plan, s) \<Longrightarrow> bursts_below (tries_left (bound_of kw) 0) 0 plan \<Longrightarrow>
     fst (complete_loop (flaky create) model_name max_toks kw batches chs w) =
       Inr (chs @ map (f model_name max_toks (extra_of kw)) (concat batches))"
proof (induction batches arbitrary: chs w plan s)
  case Nil
  show ?case by simp
next
  case (Cons bt batches)
  let ?req = "request_of model_name max_toks kw bt"
  let ?resp = "\<lparr>choices = map (f model_name max_toks (extra_of kw)) bt\<rparr>"
  from assms(6) have "fst (create ?req s) = Inr ?resp"
    by (simp add: scores_def request_of_def)
  from openai_method_retry_flaky [where m = create and kw = ?req, OF assms(2-5) Cons.prems this]
  obtain plan' w' where run: "openai_method_retry (flaky create) (bound_of kw) (sleep_of kw) ?req w =
      (Inr ?resp, w')" and w': "service w' = (plan', snd (create ?req s))"
      "bursts_below (tries_left (bound_of kw) 0) 0 plan'" by blast
  from w' have "service (bar_update (length bt) w') = (plan', snd (create ?req s))"
    by simp
  from Cons.IH [OF this w'(2)] run assms(1) show ?case
    by (simp add: complete_loop_Cons)
qed

section \<open>Properties of every run\<close>

text \<open>
  C12: Whatever the endpoint does and whatever the keyword arguments are, the requests
  \<^verbatim>\<open>gpt3_complete\<close> sends are requests for batches of the texts: the prompt of each is
  one of the consecutive slices of 20 texts, so it is not empty and has at most 20
  prompts, and the model, \<^verbatim>\<open>max_tokens\<close> and the additional parameters are the ones
  the caller gave, less \<^verbatim>\<open>max_num_tries\<close> and \<^verbatim>\<open>sleep_sec\<close>.
\<close>

theorem gpt3_complete_requests_are_batches:
  "list_all (\<lambda>req. prompt req \<in> set (slices 20 (normalise_texts texts)) \<and>
        prompt req \<noteq> [] \<and> length (prompt req) \<le> 20 \<and>
        model req = model_name \<and> max_tokens req = max_toks \<and> extra req = extra_of kw)
     (calls (new_events w
        (snd (gpt3_complete tokenizer create texts model_name ask max_toks kw w))))"
proof -
  let ?bs = "slices 20 (normalise_texts texts)"
  let ?P = "\<lambda>req. prompt req \<in> set ?bs \<and> prompt req \<noteq> [] \<and> length (prompt req) \<le> 20 \<and>
        model req = model_name \<and> max_tokens req = max_toks \<and> extra req = extra_of kw"
  have batch: "?P req" if "req \<in> request_of model_name max_toks kw ` set ?bs" for req
    using that slices_bounded [of 20 "normalise_texts texts"] by (auto simp: list_all_iff)
  have unasked: "list_all ?P (calls (new_events w0
      (snd (gpt3_complete tokenizer create texts model_name False max_toks kw w0))))" for w0
    using gpt3_complete_unasked_calls [of model_name max_toks kw texts w0 tokenizer create] batch
    unfolding list_all_iff by blast
  show ?thesis
  proof (cases ask)
    case False
    with unasked show ?thesis by simp
  next
    case True
    show ?thesis
    proof (cases rule: gpt3_complete_asked_cases [of tokenizer model_name texts max_toks w create kw])
      case (Stopped err)
      with True show ?thesis by simp
    next
      case Passed
      let ?w0 = "snd (openai_api_call_is_ok tokenizer model_name (normalise_texts texts) max_toks w)"
      have "new_events w (snd (gpt3_complete tokenizer create texts model_name False max_toks kw ?w0)) =
          new_events w ?w0 @
          new_events ?w0 (snd (gpt3_complete tokenizer create texts model_name False max_toks kw ?w0))"
        by (rule new_events_trans) simp_all
      with True Passed unasked [of ?w0] show ?thesis by simp
    qed
  qed
qed

text \<open>
  C16: The progress bar of a call without the gate, whatever the endpoint does: it is
  opened once with the number of texts as its total, updated once for each batch that
  was answered, in order and by the size of the batch, and closed once at the end,
  also when the call raises. All batches were answered if the call returns and not
  all if it raises, so the bar has reached its total exactly when the call returns.
\<close>

theorem gpt3_complete_bar_accounting:
  "\<exists>j. (if returned (fst (gpt3_complete tokenizer create texts model_name False max_toks kw w))
         then j = length (slices 20 (normalise_texts texts))
         else j < length (slices 20 (normalise_texts texts))) \<and>
        bar_events (new_events w
            (snd (gpt3_complete tokenizer create texts model_name False max_toks kw w))) =
          Bar_open (length (normalise_texts texts)) #
            map (\<lambda>b. Bar_update (length b)) (take j (slices 20 (normalise_texts texts))) @ [Bar_close] \<and>
        (returned (fst (gpt3_complete tokenizer create texts model_name False max_toks kw w)) \<longleftrightarrow>
         sum_list (bar_updates (new_events w
            (snd (gpt3_complete tokenizer create texts model_name False max_toks kw w)))) =
           length (normalise_texts texts))"
proof -
  let ?ts = "normalise_texts texts"
  let ?R = "gpt3_complete tokenizer create texts model_name False max_toks kw w"
  from complete_loop_bar [of create model_name max_toks kw "slices 20 ?ts" "[]"
      "bar_open (length ?ts) w"]
  obtain j where j: "if returned (fst ?R) then j = length (slices 20 ?ts)
        else j < length (slices 20 ?ts)"
    and "bar_events (new_events (bar_open (length ?ts) w)
        (snd (complete_loop create model_name max_toks kw (slices 20 ?ts) []
           (bar_open (length ?ts) w)))) = map (\<lambda>b. Bar_update (length b)) (take j (slices 20 ?ts))"
    by (auto simp: gpt3_complete_unasked_eq)
  then have bar: "bar_events (new_events w (snd ?R)) =
      Bar_open (length ?ts) # map (\<lambda>b. Bar_update (length b)) (take j (slices 20 ?ts)) @ [Bar_close]"
    unfolding gpt3_complete_unasked_events by simp
  have "bar_updates (new_events w (snd ?R)) = bar_updates (bar_events (new_events w (snd ?R)))"
    by simp
  then have upd: "bar_updates (new_events w (snd ?R)) = map length (take j (slices 20 ?ts))"
    unfolding bar by simp
  from j have "j \<le> length (slices 20 ?ts)" by (simp split: if_splits)
  then have "sum_list (map length (take j (slices 20 ?ts))) = length ?ts \<longleftrightarrow>
      j = length (slices 20 ?ts)"
    by (intro sum_length_take_slices) simp
  with j have "returned (fst ?R) \<longleftrightarrow> sum_list (bar_updates (new_events w (snd ?R))) = length ?ts"
    unfolding upd by (auto split: if_splits)
  with j bar show ?thesis by (intro exI [of _ j]) simp
qed

text \<open>
  C11: No partial results. If the batches split into a prefix whose calls all succeed,
  a batch whose retrying call raises \<open>e\<close>, and the rest, then \<^verbatim>\<open>gpt3_complete\<close> raises
  \<open>e\<close>: the choices collected so far are dropped, no later batch is sent, and the bar
  is closed on the way out.
\<close>

theorem gpt3_complete_error_propagates:
  assumes "clean kw"
    and "slices 20 (normalise_texts texts) = bs1 @ b # bs2"
    and "complete_loop create model_name max_toks kw bs1 []
           (bar_open (length (normalise_texts texts)) w) = (Inr chs1, w1)"
    and "openai_method_retry create (bound_of kw) (sleep_of kw)
           (request_of model_name max_toks kw b) w1 = (Inl e, w2)"
  shows "gpt3_complete tokenizer create texts model_name False max_toks kw w =
     (Inl e, bar_close w2)"
  using assms
  by (simp add: gpt3_complete_unasked_eq complete_loop_append complete_loop_Cons)

theorem gpt3_complete_error_propagates_witness:
  "gpt3_complete (map (map (\<lambda>c. 0))) scripted (Seq (replicate 21 ''text'')) ''text-ada-001''
     False 0 []
     \<lparr>service = [Inr \<lparr>choices = replicate 20 ''choice''\<rparr>, Inl (OtherError ''bad request'')],
      stdin = [], trace = []\<rparr> =
   (Inl (OtherError ''bad request''),
    \<lparr>service = [], stdin = [],
     trace = [Bar_open 21,
              Call \<lparr>prompt = replicate 20 ''text'', model = ''text-ada-001'', max_tokens = 0,
                    extra = []\<rparr>,
              Bar_update 20,
              Call \<lparr>prompt = [''text''], model = ''text-ada-001'', max_tokens = 0, extra = []\<rparr>,
              Bar_close]\<rparr>)"
proof -
  let ?w = "\<lparr>service = [Inr \<lparr>choices = replicate 20 ''choice''\<rparr>, Inl (OtherError ''bad request'')],
      stdin = [], trace = []\<rparr> :: (request, (error + string response) list) world"
  let ?r1 = "\<lparr>prompt = replicate 20 ''text'', model = ''text-ada-001'', max_tokens = 0, extra = []\<rparr>"
  let ?r2 = "\<lparr>prompt = [''text''], model = ''text-ada-001'', max_tokens = 0, extra = []\<rparr>"
  have clean: "clean []" by (simp add: clean_def)
  have bs: "slices 20 (normalise_texts (Seq (replicate 21 ''text''))) =
      [replicate 20 ''text''] @ [''text''] # []"
    by (simp add: normalise_texts_def slices_def ceil_div_def upt_rec)
  have first: "complete_loop scripted ''text-ada-001'' 0 [] [replicate 20 ''text''] []
      (bar_open (length (normalise_texts (Seq (replicate 21 ''text'')))) ?w) =
      (Inr (replicate 20 ''choice''),
       \<lparr>service = [Inl (OtherError ''bad request'')], stdin = [],
        trace = [Bar_open 21, Call ?r1, Bar_update 20]\<rparr>)"
    by (simp add: complete_loop_unfold clean bound_of_def default_max_num_tries_def
        retry_first_call_returns [where b = 5] normalise_texts_def request_of_def extra_of_def
        bar_open_def bar_update_def emit_def)
  have second: "openai_method_retry scripted (bound_of []) (sleep_of [])
      (request_of ''text-ada-001'' 0 [] [''text''])
      \<lparr>service = [Inl (OtherError ''bad request'')], stdin = [],
        trace = [Bar_open 21, Call ?r1, Bar_update 20]\<rparr> =
      (Inl (OtherError ''bad request''),
       \<lparr>service = [], stdin = [], trace = [Bar_open 21, Call ?r1, Bar_update 20, Call ?r2]\<rparr>)"
    by (simp add: openai_method_retry_def retry_loop_permanent bound_of_def
        default_max_num_tries_def request_of_def extra_of_def emit_def)
  from gpt3_complete_error_propagates [OF clean bs first second]
  show ?thesis by (simp add: bar_close_def emit_def)
qed

text \<open>
  C27: If the endpoint answers every request it answers with one choice per prompt,
  then a call of \<^verbatim>\<open>gpt3_complete\<close> that returns, with or without the gate and after
  whatever retries, returns exactly one choice per text.
\<close>

theorem gpt3_complete_result_length:
  assumes "one_choice_each create"
    and "fst (gpt3_complete tokenizer create texts model_name ask max_toks kw w) = Inr chs"
  shows "length chs = length (normalise_texts texts)"
proof -
  have unasked: "length chs = length (normalise_texts texts)"
    if "fst (gpt3_complete tokenizer create texts model_name False max_toks kw w0) = Inr chs" for w0
    using complete_loop_length [OF assms(1), of model_name max_toks kw
        "slices 20 (normalise_texts texts)" "[]" "bar_open (length (normalise_texts texts)) w0" chs]
      that
    by (simp add: gpt3_complete_unasked_eq concat_slices)
  show ?thesis
  proof (cases ask)
    case False
    with assms(2) unasked show ?thesis by simp
  next
    case True
    with assms(2) unasked show ?thesis
      by (cases rule: gpt3_complete_asked_cases [of tokenizer model_name texts max_toks w create kw])
         simp_all
  qed
qed

theorem gpt3_complete_result_length_witness:
  "\<exists>chs. fst (gpt3_complete (map (map (\<lambda>c. 0)))
       (\<lambda>req s. (Inr \<lparr>choices = map length (prompt req)\<rparr>, Suc s))
       (Seq [''good'', ''bad'', ''so-so'']) ''text-ada-001'' False 0 []
       \<lparr>service = 0 :: nat, stdin = [], trace = []\<rparr>) = Inr chs \<and>
     length chs = length (normalise_texts (Seq [''good'', ''bad'', ''so-so'']))"
proof -
  let ?create = "\<lambda>req s. (Inr \<lparr>choices = map length (prompt req)\<rparr>, Suc s)
      :: (error + nat response) \<times> nat"
  let ?w = "\<lparr>service = 0 :: nat, stdin = [], trace = []\<rparr> :: (request, nat) world"
  have one: "one_choice_each ?create" by (simp add: one_choice_each_def)
  have ret: "fst (gpt3_complete (map (map (\<lambda>c. 0))) ?create (Seq [''good'', ''bad'', ''so-so''])
      ''text-ada-001'' False 0 [] ?w) = Inr [4, 3, 5]"
    by (simp add: gpt3_complete_unasked_eq normalise_texts_def slices_short complete_loop_unfold
        clean_def bound_of_def default_max_num_tries_def retry_first_call_returns [where b = 5]
        request_of_def)
  from gpt3_complete_result_length [OF one ret] ret show ?thesis by blast
qed

text \<open>
  C28: The code does not compare the number of choices with the number of prompts.
  Against an endpoint that answers every request with no choice at all,
  \<^verbatim>\<open>gpt3_complete\<close> returns the empty list for any number of texts.
\<close>

theorem gpt3_complete_trusts_choice_count:
  "fst (gpt3_complete tokenizer (\<lambda>req s. (Inr \<lparr>choices = []\<rparr>, s)) texts model_name False
          max_toks [] w) = Inr []"
proof -
  let ?create = "\<lambda>(req :: request) s. (Inr \<lparr>choices = []\<rparr>, s)"
  have "fst (complete_loop ?create model_name max_toks [] batches [] w0) = Inr []" for batches w0
    by (induction batches arbitrary: w0)
       (simp_all add: complete_loop_unfold clean_def bound_of_def default_max_num_tries_def
          retry_first_call_returns [where b = 5])
  then show ?thesis by (simp add: gpt3_complete_unasked_eq)
qed

text \<open>
  C7: Retries are transparent to the caller. Let the endpoint answer every request
  with the choices of its prompts, except that it raises transient errors according to
  a plan, fewer in a row than the bound on the tries allows; let the sleep be a number
  that is not negative. Then \<^verbatim>\<open>gpt3_complete\<close> returns the choices of the texts in the
  order of the texts, as it does against the endpoint without faults.
\<close>

theorem gpt3_complete_tolerates_faults:
  assumes "clean kw" "as_rat (sleep_of kw) = Some d" "0 \<le> d"
    and "as_rat (bound_of kw) = Some b" "0 < b" "scores create f"
    and "service w = (plan, s)" "bursts_below (tries_left (bound_of kw) 0) 0 plan"
  shows "fst (gpt3_complete tokenizer (flaky create) texts model_name False max_toks kw w) =
     Inr (map (f model_name max_toks (extra_of kw)) (normalise_texts texts))"
proof -
  from assms(7) have "service (bar_open (length (normalise_texts texts)) w) = (plan, s)"
    by simp
  from complete_loop_flaky [OF assms(1-6) this assms(8)] show ?thesis
    by (simp add: gpt3_complete_unasked_eq concat_slices)
qed

theorem gpt3_complete_tolerates_faults_witness:
  "fst (gpt3_complete (map (map (\<lambda>c. 0)))
     (flaky (\<lambda>req s. (Inr \<lparr>choices = map length (prompt req)\<rparr>, Suc s)))
     (Seq (replicate 21 ''text'')) ''text-ada-001'' False 0 []
     \<lparr>service = ([Some (RateLimitError ''slow down''), None,
                  Some (ServiceUnavailableError ''overloaded''),
                  Some (RateLimitError ''slow down''), None], 0 :: nat),
      stdin = [], trace = []\<rparr>) = Inr (replicate 21 4)"
  using gpt3_complete_tolerates_faults [where kw = "[]" and d = 10 and b = 5
      and create = "\<lambda>req s. (Inr \<lparr>choices = map length (prompt req)\<rparr>, Suc s)"
      and f = "\<lambda>_ _ _. length" and texts = "Seq (replicate 21 ''text'')"
      and tokenizer = "map (map (\<lambda>c. 0))" and model_name = "''text-ada-001''" and max_toks = 0
      and plan = "[Some (RateLimitError ''slow down''), None,
                  Some (ServiceUnavailableError ''overloaded''),
                  Some (RateLimitError ''slow down''), None]" and s = "0 :: nat"
      and w = "\<lparr>service = ([Some (RateLimitError ''slow down''), None,
                  Some (ServiceUnavailableError ''overloaded''),
                  Some (RateLimitError ''slow down''), None], 0 :: nat),
      stdin = [], trace = []\<rparr>"]
  by (simp add: clean_def bound_of_def sleep_of_def default_max_num_tries_def
      default_sleep_sec_def scores_def tries_left_def normalise_texts_def)

end
