(* ===== verification/Session.thy ===== *)
theory Session
  imports Complete_Runs
begin

text \<open>
  The module as a whole. Importing \<^verbatim>\<open>api.py\<close> runs three statements: it creates the
  logger, copies the API key from the environment into the client library, and loads
  the tokenizer. \<open>import_module\<close> is that initialisation; its result, a \<open>module\<close>, holds
  what the functions read later: \<^verbatim>\<open>_openai_api_call_is_ok\<close> the tokenizer, the client
  library the key. The environment, the loader of the tokenizer and the client
  library are parameters: \<open>environ\<close> is \<^verbatim>\<open>os.environ\<close>, \<open>from_pretrained\<close> is
  \<^verbatim>\<open>GPT2Tokenizer.from_pretrained\<close>, which may raise, and \<open>client key\<close> is
  \<^verbatim>\<open>openai.Completion.create\<close> under the key \<^verbatim>\<open>openai.api_key\<close>.

  A \<open>session\<close> is a sequence of calls of the two public functions against the
  imported module, each starting in the world the one before left; an exception ends
  a call, not the session. The lemmas show what every session preserves: the trace
  only grows, standard input is only consumed, and the progress bar is opened and
  closed in pairs, outside of prompts, and never updated past its total.
\<close>

section \<open>Importing the module\<close>

type_synonym tokenizer = "string list \<Rightarrow> int list list"

type_synonym environ = "string \<rightharpoonup> string"

record module =
  logger :: string
  api_key :: "string option"
  gpt2_tokenizer :: tokenizer

text \<open>\<^verbatim>\<open>__name__\<close>, the dotted name of the module in its package.\<close>

definition name_of_module :: string where
  "name_of_module = ''lm_classification.utils.api''"

text \<open>\<^verbatim>\<open>logging.getLogger(name)\<close>: the logger of that name; a logger is its name here.\<close>

definition logging_getLogger :: "string \<Rightarrow> string" where
  "logging_getLogger name = name"

text \<open>\<^verbatim>\<open>os.getenv(key)\<close>: the value of the variable, \<^verbatim>\<open>None\<close> when it is not set.\<close>

definition os_getenv :: "environ \<Rightarrow> string \<Rightarrow> string option" where
  "os_getenv environ key = environ key"

text \<open>The three statements of the module, in their order: the logger and the key come
  first, and loading the tokenizer may raise, which ends the import.\<close>

definition import_module :: "environ \<Rightarrow> (string \<Rightarrow> error + tokenizer) \<Rightarrow> error + module" where
  "import_module environ from_pretrained =
     (let the_logger = logging_getLogger name_of_module;
          the_key = os_getenv environ ''OPENAI_API_KEY''
      in case from_pretrained ''gpt2'' of
           Inl err \<Rightarrow> Inl err
         | Inr loaded \<Rightarrow>
             Inr \<lparr>logger = the_logger, api_key = the_key, gpt2_tokenizer = loaded\<rparr>)"

section \<open>Calls of the public functions\<close>

text \<open>
  The client library is an endpoint for each value of its key. A \<open>call\<close> is a call of
  \<^verbatim>\<open>gpt3_complete\<close> or of \<^verbatim>\<open>openai_method_retry\<close> with its arguments, a \<open>reply\<close> what
  the call returns or raises. In a session the method given to \<^verbatim>\<open>openai_method_retry\<close>
  is the completion method of the client library, as in \<^verbatim>\<open>gpt3_complete\<close>; for any
  other method the lemmas of \<open>Retry\<close> apply, which hold for every endpoint.
\<close>

type_synonym ('c, 's) client = "string option \<Rightarrow> (request, 'c response, 's) endpoint"

datatype call =
    Gpt3_complete texts_arg string bool int kwargs
  | Openai_method_retry pyval pyval request

datatype 'c reply = Choices "'c list" | Response "'c response" | Raised error

fun perform ::
  "module \<Rightarrow> ('c, 's) client \<Rightarrow> call \<Rightarrow> (request, 's) world \<Rightarrow> 'c reply \<times> (request, 's) world" where
  "perform md client (Gpt3_complete texts model_name ask_if_ok max_toks kw) w =
     (case gpt3_complete (gpt2_tokenizer md) (client (api_key md)) texts model_name ask_if_ok
             max_toks kw w of
        (Inl err, w') \<Rightarrow> (Raised err, w')
      | (Inr chs, w') \<Rightarrow> (Choices chs, w'))"
| "perform md client (Openai_method_retry max_num_tries sleep_sec req) w =
     (case openai_method_retry (client (api_key md)) max_num_tries sleep_sec req w of
        (Inl err, w') \<Rightarrow> (Raised err, w')
      | (Inr resp, w') \<Rightarrow> (Response resp, w'))"

fun session ::
  "module \<Rightarrow> ('c, 's) client \<Rightarrow> call list \<Rightarrow> (request, 's) world
     \<Rightarrow> 'c reply list \<times> (request, 's) world" where
  "session md client [] w = ([], w)"
| "session md client (c # cs) w =
     (case perform md client c w of
        (r, w1) \<Rightarrow> (case session md client cs w1 of (rs, w2) \<Rightarrow> (r # rs, w2)))"

text \<open>The program: import the module, then run a session against it. When the import
  raises, no function of the module is ever called.\<close>

definition program ::
  "environ \<Rightarrow> (string \<Rightarrow> error + tokenizer) \<Rightarrow> ('c, 's) client \<Rightarrow> call list \<Rightarrow> (request, 's) world
     \<Rightarrow> (error + 'c reply list) \<times> (request, 's) world" where
  "program environ from_pretrained client cs w =
     (case import_module environ from_pretrained of
        Inl err \<Rightarrow> (Inl err, w)
      | Inr md \<Rightarrow> (case session md client cs w of (rs, w') \<Rightarrow> (Inr rs, w')))"

section \<open>The protocol of the progress bar\<close>

text \<open>
  How a trace may use the bar, as an automaton over the events. Its state is \<open>None\<close>
  while no bar is open, and the total and the progress of the open bar otherwise. A
  bar is opened only when none is open, updated and closed only when one is, never
  updated past its total, and no prompt is shown while it is open. \<open>bar_run\<close> runs
  the automaton over a trace; \<open>None\<close> is a violation.
\<close>

type_synonym bar = "(nat \<times> nat) option"

fun bar_step :: "bar \<Rightarrow> 'k event \<Rightarrow> bar option" where
  "bar_step None (Bar_open n) = Some (Some (n, 0))"
| "bar_step (Some b) (Bar_open n) = None"
| "bar_step None (Bar_update k) = None"
| "bar_step (Some (n, d)) (Bar_update k) = (if d + k \<le> n then Some (Some (n, d + k)) else None)"
| "bar_step None Bar_close = None"
| "bar_step (Some b) Bar_close = Some None"
| "bar_step None (Prompted p) = Some None"
| "bar_step (Some b) (Prompted p) = None"
| "bar_step st (Call kw) = Some st"
| "bar_step st (Sleep d) = Some st"
| "bar_step st (Log l r) = Some st"

fun bar_run :: "bar \<Rightarrow> 'k event list \<Rightarrow> bar option" where
  "bar_run st [] = Some st"
| "bar_run st (e # es) = (case bar_step st e of None \<Rightarrow> None | Some st' \<Rightarrow> bar_run st' es)"

lemma bar_run_append:
  "bar_run st (es @ fs) = (case bar_run st es of None \<Rightarrow> None | Some st' \<Rightarrow> bar_run st' fs)"
  by (induction es arbitrary: st) (simp_all split: option.splits)

lemma bar_run_appendI:
  "bar_run st es = Some st' \<Longrightarrow> bar_run st' fs = r \<Longrightarrow> bar_run st (es @ fs) = r"
  by (simp add: bar_run_append)

lemma bar_run_retry_events: "list_all (retry_event kw) es \<Longrightarrow> bar_run st es = Some st"
  by (induction es rule: event_list_induct) simp_all

lemma bar_run_prompts: "bar_run None (replicate n (Prompted p)) = Some None"
  by (induction n) simp_all

section \<open>One call\<close>

text \<open>The loop over the batches moves the open bar on by the sizes of the batches that
  were answered, as long as they fit under its total.\<close>

lemma bar_run_complete_loop:
  "d + sum_list (map length batches) \<le> n \<Longrightarrow>
     \<exists>d'. bar_run (Some (n, d))
        (new_events w (snd (complete_loop create model_name max_toks kw batches chs w))) =
       Some (Some (n, d'))"
proof (induction batches arbitrary: d chs w)
  case Nil
  show ?case by simp
next
  case (Cons b batches)
  show ?case
  proof (cases rule: complete_loop_cases [of kw create model_name max_toks b batches chs w])
    case Reserved
    then show ?thesis by simp
  next
    case (Raised err w1)
    then show ?thesis by (simp add: bar_run_retry_events)
  next
    case (Returned resp w1 s)
    from Cons.prems have "d + length b + sum_list (map length batches) \<le> n" by simp
    with Cons.IH [where d = "d + length b" and chs = "chs @ choices resp"
        and w = "bar_update (length b) w1"]
    obtain d' where "bar_run (Some (n, d + length b))
        (new_events (bar_update (length b) w1)
          (snd (complete_loop create model_name max_toks kw batches (chs @ choices resp)
             (bar_update (length b) w1)))) = Some (Some (n, d'))" by blast
    moreover from Cons.prems have "d + length b \<le> n" by simp
    ultimately show ?thesis
      using Returned
      by (simp add: new_events_loop_step [OF conjunct1] bar_run_append bar_run_retry_events)
  qed
qed

lemma bar_run_unasked:
  "bar_run None
     (new_events w (snd (gpt3_complete tokenizer create texts model_name False max_toks kw w))) =
   Some None"
proof -
  let ?ts = "normalise_texts texts"
  have "0 + sum_list (map length (slices 20 ?ts)) \<le> length ?ts"
    by (simp add: sum_length_slices)
  from bar_run_complete_loop [OF this]
  obtain d' where "bar_run (Some (length ?ts, 0))
      (new_events (bar_open (length ?ts) w)
        (snd (complete_loop create model_name max_toks kw (slices 20 ?ts) []
           (bar_open (length ?ts) w)))) = Some (Some (length ?ts, d'))"
    by blast
  then show ?thesis
    by (simp add: gpt3_complete_unasked_events bar_run_append)
qed

lemma bar_run_gate:
  "bar_run None
     (new_events w (snd (openai_api_call_is_ok tokenizer model_name texts max_toks w))) = Some None"
  by (rule gate_cases [where tokenizer = tokenizer and model = model_name and texts = texts
        and max_tokens = max_toks and w = w])
     (simp_all add: new_events_def bar_run_prompts)

lemma bar_run_gpt3_complete:
  "bar_run None
     (new_events w (snd (gpt3_complete tokenizer create texts model_name ask max_toks kw w))) =
   Some None"
proof (cases ask)
  case False
  then show ?thesis by (simp add: bar_run_unasked)
next
  case True
  let ?w0 = "snd (openai_api_call_is_ok tokenizer model_name (normalise_texts texts) max_toks w)"
  show ?thesis
  proof (cases rule: gpt3_complete_asked_cases [of tokenizer model_name texts max_toks w create kw])
    case (Stopped err)
    with True show ?thesis by (simp add: bar_run_gate)
  next
    case Passed
    have "new_events w (snd (gpt3_complete tokenizer create texts model_name False max_toks kw ?w0)) =
        new_events w ?w0 @
        new_events ?w0 (snd (gpt3_complete tokenizer create texts model_name False max_toks kw ?w0))"
      by (rule new_events_trans) simp_all
    with True Passed show ?thesis
      by (simp add: bar_run_append bar_run_gate bar_run_unasked)
  qed
qed

text \<open>Standard input is only consumed: what is left after a call is an end of what was
  there before.\<close>

lemma gate_stdin_suffix:
  "suffix (stdin (snd (openai_api_call_is_ok tokenizer model_name texts max_toks w))) (stdin w)"
proof (rule gate_cases [where tokenizer = tokenizer and model = model_name and texts = texts
      and max_tokens = max_toks and w = w])
  fix c
  have "suffix (tl (dropWhile (\<lambda>l. \<not> is_answer l) (stdin w))) (dropWhile (\<lambda>l. \<not> is_answer l) (stdin w))"
    by (rule suffix_tl)
  also have "suffix \<dots> (stdin w)" by (rule suffix_dropWhile)
  finally have "suffix (tl (dropWhile (\<lambda>l. \<not> is_answer l) (stdin w))) (stdin w)" .
  moreover assume "openai_api_call_is_ok tokenizer model_name texts max_toks w =
      (case dropWhile (\<lambda>l. \<not> is_answer l) (stdin w) of
         [] \<Rightarrow> Inl EOFError
       | a # _ \<Rightarrow> if a = ''n'' then Inl UserCanceled else Inr (),
       w\<lparr>stdin := tl (dropWhile (\<lambda>l. \<not> is_answer l) (stdin w)),
         trace := trace w @
           replicate (Suc (length (takeWhile (\<lambda>l. \<not> is_answer l) (stdin w))))
             (Prompted (Prompt c (num_tokens_of tokenizer texts max_toks)))\<rparr>)"
  ultimately show ?thesis by simp
qed simp

lemma gpt3_complete_stdin_suffix:
  "suffix (stdin (snd (gpt3_complete tokenizer create texts model_name ask max_toks kw w))) (stdin w)"
proof (cases ask)
  case False
  then show ?thesis by (simp add: gpt3_complete_unasked_eq)
next
  case True
  show ?thesis
    by (cases rule: gpt3_complete_asked_cases [of tokenizer model_name texts max_toks w create kw])
       (simp_all add: True gate_stdin_suffix gpt3_complete_unasked_eq)
qed

section \<open>Sessions\<close>

lemma snd_perform [simp]:
  "snd (perform md client (Gpt3_complete texts model_name ask max_toks kw) w) =
     snd (gpt3_complete (gpt2_tokenizer md) (client (api_key md)) texts model_name ask max_toks kw w)"
  "snd (perform md client (Openai_method_retry max_num_tries sleep_sec req) w) =
     snd (openai_method_retry (client (api_key md)) max_num_tries sleep_sec req w)"
  by (simp_all split: prod.splits sum.splits)

lemma perform_extends [simp, intro]: "extends w (snd (perform md client c w))"
  by (cases c) (simp_all del: perform.simps)

lemma perform_stdin_suffix: "suffix (stdin (snd (perform md client c w))) (stdin w)"
  by (cases c) (simp_all add: gpt3_complete_stdin_suffix del: perform.simps)

lemma bar_run_perform: "bar_run None (new_events w (snd (perform md client c w))) = Some None"
  by (cases c)
     (simp_all add: bar_run_gpt3_complete bar_run_retry_events [OF retry_events_shape(1)]
        del: perform.simps)

lemma session_Cons:
  "session md client (c # cs) w =
     (fst (perform md client c w) # fst (session md client cs (snd (perform md client c w))),
      snd (session md client cs (snd (perform md client c w))))"
  by (simp split: prod.splits)

declare session.simps(2) [simp del]

lemma session_append:
  "session md client (cs @ ds) w =
     (fst (session md client cs w) @ fst (session md client ds (snd (session md client cs w))),
      snd (session md client ds (snd (session md client cs w))))"
  by (induction cs arbitrary: w) (simp_all add: session_Cons)

lemma length_session [simp]: "length (fst (session md client cs w)) = length cs"
  by (induction cs arbitrary: w) (simp_all add: session_Cons)

lemma session_extends [simp, intro]: "extends w (snd (session md client cs w))"
proof (induction cs arbitrary: w)
  case (Cons c cs)
  have "extends w (snd (perform md client c w))" by simp
  also have "extends \<dots> (snd (session md client cs (snd (perform md client c w))))"
    by (rule Cons.IH)
  finally show ?case by (simp add: session_Cons)
qed simp

lemma session_stdin_suffix: "suffix (stdin (snd (session md client cs w))) (stdin w)"
proof (induction cs arbitrary: w)
  case (Cons c cs)
  have "suffix (stdin (snd (session md client cs (snd (perform md client c w)))))
      (stdin (snd (perform md client c w)))"
    by (rule Cons.IH)
  also have "suffix \<dots> (stdin w)" by (rule perform_stdin_suffix)
  finally show ?case by (simp add: session_Cons)
qed simp

lemma bar_run_session: "bar_run None (new_events w (snd (session md client cs w))) = Some None"
proof (induction cs arbitrary: w)
  case (Cons c cs)
  let ?w1 = "snd (perform md client c w)"
  have "new_events w (snd (session md client cs ?w1)) =
      new_events w ?w1 @ new_events ?w1 (snd (session md client cs ?w1))"
    by (rule new_events_trans) simp_all
  then show ?case
    by (simp add: session_Cons bar_run_append bar_run_perform Cons.IH)
qed simp

text \<open>What a session can cost: a call reaches the endpoint at most as often as its
  batches and its bound allow, and a session at most as often as its calls together.\<close>

fun call_bound :: "call \<Rightarrow> nat" where
  "call_bound (Gpt3_complete texts model_name ask_if_ok max_toks kw) =
     ceil_div (length (normalise_texts texts)) 20 * tries_left (bound_of kw) 0"
| "call_bound (Openai_method_retry max_num_tries sleep_sec req) = tries_left max_num_tries 0"

lemma unasked_calls_bounded:
  "length (calls (new_events w
      (snd (gpt3_complete tokenizer create texts model_name False max_toks kw w))))
     \<le> ceil_div (length (normalise_texts texts)) 20 * tries_left (bound_of kw) 0"
  using complete_loop_calls_bound [of "bar_open (length (normalise_texts texts)) w" create
      model_name max_toks kw "slices 20 (normalise_texts texts)" "[]"]
  unfolding gpt3_complete_unasked_events by simp

lemma gpt3_complete_calls_le:
  "length (calls (new_events w
      (snd (gpt3_complete tokenizer create texts model_name ask max_toks kw w))))
     \<le> ceil_div (length (normalise_texts texts)) 20 * tries_left (bound_of kw) 0"
proof (cases ask)
  case False
  then show ?thesis by (simp add: unasked_calls_bounded)
next
  case True
  let ?w0 = "snd (openai_api_call_is_ok tokenizer model_name (normalise_texts texts) max_toks w)"
  show ?thesis
  proof (cases rule: gpt3_complete_asked_cases [of tokenizer model_name texts max_toks w create kw])
    case (Stopped err)
    with True show ?thesis by simp
  next
    case Passed
    have "new_events w (snd (gpt3_complete tokenizer create texts model_name False max_toks kw ?w0)) =
        new_events w ?w0 @
        new_events ?w0 (snd (gpt3_complete tokenizer create texts model_name False max_toks kw ?w0))"
      by (rule new_events_trans) simp_all
    with True Passed show ?thesis by (simp add: unasked_calls_bounded)
  qed
qed

lemma perform_calls_bounded:
  "length (calls (new_events w (snd (perform md client c w)))) \<le> call_bound c"
  by (cases c) (simp_all add: gpt3_complete_calls_le retry_events_shape del: perform.simps)

lemma session_calls_bounded:
  "length (calls (new_events w (snd (session md client cs w)))) \<le> sum_list (map call_bound cs)"
proof (induction cs arbitrary: w)
  case (Cons c cs)
  let ?w1 = "snd (perform md client c w)"
  have "new_events w (snd (session md client cs ?w1)) =
      new_events w ?w1 @ new_events ?w1 (snd (session md client cs ?w1))"
    by (rule new_events_trans) simp_all
  with perform_calls_bounded [of w md client c] Cons.IH [of ?w1] show ?case
    by (simp add: session_Cons)
qed simp

section \<open>The program\<close>

lemma import_module_loaded:
  "from_pretrained ''gpt2'' = Inr loaded \<Longrightarrow>
     import_module environ from_pretrained =
       Inr \<lparr>logger = name_of_module, api_key = environ ''OPENAI_API_KEY'', gpt2_tokenizer = loaded\<rparr>"
  by (simp add: import_module_def logging_getLogger_def os_getenv_def)

lemma import_module_raises_iff:
  "import_module environ from_pretrained = Inl err \<longleftrightarrow> from_pretrained ''gpt2'' = Inl err"
  by (simp add: import_module_def split: sum.splits)

text \<open>When the tokenizer cannot be loaded the import raises and nothing else happens;
  of the environment the program reads the key and nothing else.\<close>

lemma program_import_raises:
  "from_pretrained ''gpt2'' = Inl err \<Longrightarrow> program environ from_pretrained client cs w = (Inl err, w)"
  by (simp add: program_def import_module_def)

lemma program_loaded:
  "from_pretrained ''gpt2'' = Inr loaded \<Longrightarrow>
     program environ from_pretrained client cs w =
       (Inr (fst (session \<lparr>logger = name_of_module, api_key = environ ''OPENAI_API_KEY'',
                            gpt2_tokenizer = loaded\<rparr> client cs w)),
        snd (session \<lparr>logger = name_of_module, api_key = environ ''OPENAI_API_KEY'',
                       gpt2_tokenizer = loaded\<rparr> client cs w))"
  by (simp add: program_def import_module_loaded split: prod.splits)

lemma program_reads_key_only:
  "environ ''OPENAI_API_KEY'' = environ' ''OPENAI_API_KEY'' \<Longrightarrow>
     program environ from_pretrained client cs w = program environ' from_pretrained client cs w"
  by (cases "from_pretrained ''gpt2''") (simp_all add: program_import_raises program_loaded)

lemma program_cases [case_names Import_raises Imported]:
  obtains
    (Import_raises) err where "program environ from_pretrained client cs w = (Inl err, w)"
  | (Imported) md where
      "program environ from_pretrained client cs w =
         (Inr (fst (session md client cs w)), snd (session md client cs w))"
  by (cases "from_pretrained ''gpt2''") (auto simp: program_import_raises program_loaded)

text \<open>
  C22: Whatever the environment, the loader of the tokenizer, the client library, the
  calls made and their arguments, a program that imports the module and calls its
  functions only adds to the trace, only consumes standard input, and uses the
  progress bar by its protocol: a bar is opened only when none is open, updated and
  closed only while one is open, never moved past its total, no prompt is shown while
  one is open, and none is left open at the end, also when calls raise.
\<close>

theorem program_respects_bar_protocol:
  "extends w (snd (program environ from_pretrained client cs w)) \<and>
   suffix (stdin (snd (program environ from_pretrained client cs w))) (stdin w) \<and>
   bar_run None (new_events w (snd (program environ from_pretrained client cs w))) = Some None"
  by (cases rule: program_cases [of environ from_pretrained client cs w])
     (simp_all add: session_stdin_suffix bar_run_session)

text \<open>The first batch of a call against an endpoint that refuses it with an error the
  retry loop does not handle.\<close>

lemma gpt3_complete_refused:
  assumes "clean kw" "as_rat (bound_of kw) = Some b" "0 < b" "ts \<noteq> []"
    and "create (request_of model_name max_toks kw (take 20 ts)) (service w) = (Inl e, s')"
    and "\<not> is_transient e"
  shows "gpt3_complete tokenizer create (Seq ts) model_name False max_toks kw w =
     (Inl e, w\<lparr>service := s',
               trace := trace w @ [Bar_open (length ts),
                                   Call (request_of model_name max_toks kw (take 20 ts)),
                                   Bar_close]\<rparr>)"
proof -
  let ?req = "request_of model_name max_toks kw (take 20 ts)"
  let ?w0 = "bar_open (length ts) w"
  from assms(2,3) have "py_int_less 0 (bound_of kw) = Inr True"
    by (simp add: py_int_less_True_iff)
  moreover from assms(5) have "create ?req (service ?w0) = (Inl e, s')" by simp
  ultimately have "openai_method_retry create (bound_of kw) (sleep_of kw) ?req ?w0 =
      (Inl e, (emit (Call ?req) ?w0)\<lparr>service := s'\<rparr>)"
    using assms(6) by (simp add: openai_method_retry_def retry_loop_permanent)
  with assms(1,4) show ?thesis
    by (simp add: gpt3_complete_unasked_eq normalise_texts_def slices_rec complete_loop_Cons
        bar_open_def bar_close_def emit_def)
qed

text \<open>
  C26: Without the variable \<^verbatim>\<open>OPENAI_API_KEY\<close> in the environment the import succeeds
  and the key of the client library is \<^verbatim>\<open>None\<close>. If the library refuses a request
  without a key with an exception other than the two the retry loop handles, then a
  call of \<^verbatim>\<open>gpt3_complete\<close> on at least one text raises that exception after a single
  call of the library: the bar is opened and closed, nothing is retried, logged or
  slept, and no later batch is sent.
\<close>

theorem program_without_api_key:
  assumes "environ ''OPENAI_API_KEY'' = None" "from_pretrained ''gpt2'' = Inr loaded"
    and "clean kw" "as_rat (bound_of kw) = Some b" "0 < b" "ts \<noteq> []"
    and "client None (request_of model_name max_toks kw (take 20 ts)) (service w) = (Inl e, s')"
    and "\<not> is_transient e"
  shows "program environ from_pretrained client [Gpt3_complete (Seq ts) model_name False max_toks kw] w =
     (Inr [Raised e],
      w\<lparr>service := s',
        trace := trace w @ [Bar_open (length ts),
                            Call (request_of model_name max_toks kw (take 20 ts)),
                            Bar_close]\<rparr>)"
  using assms(1,2)
    gpt3_complete_refused [where create = "client None" and kw = kw and w = w and ts = ts
      and model_name = model_name and max_toks = max_toks, OF assms(3-8)]
  by (simp add: program_loaded session_Cons)

theorem program_without_api_key_witness:
  "program [''HOME'' \<mapsto> ''/root''] (\<lambda>name. Inr (map (map (\<lambda>c. 0))))
     (\<lambda>key req s. case key of
        None \<Rightarrow> (Inl (OtherError ''No API key provided''), s)
      | Some k \<Rightarrow> scripted req s)
     [Gpt3_complete (Seq [''text'']) ''text-ada-001'' False 0 []]
     \<lparr>service = [Inr \<lparr>choices = [''choice'']\<rparr>], stdin = [], trace = []\<rparr> =
   (Inr [Raised (OtherError ''No API key provided'')],
    \<lparr>service = [Inr \<lparr>choices = [''choice'']\<rparr>], stdin = [],
     trace = [Bar_open 1,
              Call \<lparr>prompt = [''text''], model = ''text-ada-001'', max_tokens = 0, extra = []\<rparr>,
              Bar_close]\<rparr>)"
  using program_without_api_key [where environ = "[''HOME'' \<mapsto> ''/root'']"
      and from_pretrained = "\<lambda>name. Inr (map (map (\<lambda>c. 0)))" and kw = "[]" and b = 5
      and ts = "[''text'']" and model_name = "''text-ada-001''" and max_toks = 0
      and e = "OtherError ''No API key provided''"
      and client = "\<lambda>key req s. case key of
        None \<Rightarrow> (Inl (OtherError ''No API key provided''), s)
      | Some k \<Rightarrow> scripted req s"
      and w = "\<lparr>service = [Inr \<lparr>choices = [''choice'']\<rparr>], stdin = [], trace = []\<rparr>"
      and s' = "[Inr \<lparr>choices = [''choice'']\<rparr>]"]
  by (simp add: clean_def bound_of_def default_max_num_tries_def request_of_def extra_of_def)

end
