(* ===== verification/Machine.thy ===== *)
theory Machine
  imports Retry
begin

text \<open>
  \<^verbatim>\<open>openai_method_retry\<close> as a state machine, one transition per statement group of
  the loop. A configuration holds the locals \<^verbatim>\<open>num_tries\<close> and \<^verbatim>\<open>exception\<close>, the world,
  and the phase: \<open>Attempting\<close> at the loop test, \<open>Sleeping e\<close> inside the handler,
  after the counter and the two log records and before \<^verbatim>\<open>time.sleep\<close>, \<open>Succeeded r\<close>
  after the \<^verbatim>\<open>return\<close>, \<open>Exhausted e\<close> after any \<^verbatim>\<open>raise\<close>. These are the states of
  the specification's section 4.2; the transitions are the code's. \<open>step\<close> is the
  relation, \<open>step_of\<close> the same as a function, \<open>run\<close> iterates it with fuel.

  The lemmas show that the machine is deterministic, that it stops within
  \<open>2 * \<lceil>max_num_tries\<rceil> + 1\<close> steps, that every configuration it reaches carries the
  result of the recursive loop \<open>retry_loop\<close> (so both describe the same function), and
  the invariants of its reachable configurations.
\<close>

section \<open>Configurations and steps\<close>

datatype 'r phase = Attempting | Sleeping error | Succeeded 'r | Exhausted error

record ('k, 'r, 's) config =
  num_tries :: int
  exception :: "error option"
  phase :: "'r phase"
  env :: "('k, 's) world"

definition initial :: "('k, 's) world \<Rightarrow> ('k, 'r, 's) config" where
  "initial w = \<lparr>num_tries = 0, exception = None, phase = Attempting, env = w\<rparr>"

inductive step ::
  "('k, 'r, 's) endpoint \<Rightarrow> pyval \<Rightarrow> pyval \<Rightarrow> 'k \<Rightarrow> ('k, 'r, 's) config \<Rightarrow> ('k, 'r, 's) config \<Rightarrow> bool"
  for m :: "('k, 'r, 's) endpoint" and max_num_tries sleep_sec :: pyval and kw :: 'k where
  compare_fails:
    "phase c = Attempting \<Longrightarrow> py_int_less (num_tries c) max_num_tries = Inl err \<Longrightarrow>
     step m max_num_tries sleep_sec kw c (c\<lparr>phase := Exhausted err\<rparr>)"
| returns:
    "phase c = Attempting \<Longrightarrow> py_int_less (num_tries c) max_num_tries = Inr True \<Longrightarrow>
     invoke m kw (env c) = (Inr r, w1) \<Longrightarrow>
     step m max_num_tries sleep_sec kw c (c\<lparr>phase := Succeeded r, env := w1\<rparr>)"
| propagates:
    "phase c = Attempting \<Longrightarrow> py_int_less (num_tries c) max_num_tries = Inr True \<Longrightarrow>
     invoke m kw (env c) = (Inl e, w1) \<Longrightarrow> \<not> is_transient e \<Longrightarrow>
     step m max_num_tries sleep_sec kw c (c\<lparr>phase := Exhausted e, env := w1\<rparr>)"
| handles:
    "phase c = Attempting \<Longrightarrow> py_int_less (num_tries c) max_num_tries = Inr True \<Longrightarrow>
     invoke m kw (env c) = (Inl e, w1) \<Longrightarrow> is_transient e \<Longrightarrow>
     step m max_num_tries sleep_sec kw c
       (c\<lparr>num_tries := num_tries c + 1, phase := Sleeping e,
          env := logger_info (Try_sleeping (num_tries c + 1) sleep_sec)
                   (logger_info (Openai_error e) w1)\<rparr>)"
| sleep_fails:
    "phase c = Sleeping e \<Longrightarrow> time_sleep sleep_sec (env c) = Inl err \<Longrightarrow>
     step m max_num_tries sleep_sec kw c (c\<lparr>phase := Exhausted err\<rparr>)"
| wakes:
    "phase c = Sleeping e \<Longrightarrow> time_sleep sleep_sec (env c) = Inr w4 \<Longrightarrow>
     step m max_num_tries sleep_sec kw c (c\<lparr>exception := Some e, phase := Attempting, env := w4\<rparr>)"
| unbound:
    "phase c = Attempting \<Longrightarrow> py_int_less (num_tries c) max_num_tries = Inr False \<Longrightarrow>
     exception c = None \<Longrightarrow>
     step m max_num_tries sleep_sec kw c (c\<lparr>phase := Exhausted UnboundLocalError\<rparr>)"
| gives_up:
    "phase c = Attempting \<Longrightarrow> py_int_less (num_tries c) max_num_tries = Inr False \<Longrightarrow>
     exception c = Some e \<Longrightarrow>
     step m max_num_tries sleep_sec kw c
       (c\<lparr>phase := Exhausted e, env := logger_error (Max_retries_exceeded e) (env c)\<rparr>)"

text \<open>The same transitions as a function: the successor of a configuration, if it has one.\<close>

definition attempt ::
  "('k, 'r, 's) endpoint \<Rightarrow> pyval \<Rightarrow> 'k \<Rightarrow> ('k, 'r, 's) config \<Rightarrow> ('k, 'r, 's) config" where
  "attempt m sleep_sec kw c =
     (case invoke m kw (env c) of
        (Inr r, w1) \<Rightarrow> c\<lparr>phase := Succeeded r, env := w1\<rparr>
      | (Inl e, w1) \<Rightarrow>
          if is_transient e then
            c\<lparr>num_tries := num_tries c + 1, phase := Sleeping e,
              env := logger_info (Try_sleeping (num_tries c + 1) sleep_sec)
                       (logger_info (Openai_error e) w1)\<rparr>
          else c\<lparr>phase := Exhausted e, env := w1\<rparr>)"

definition leave ::  "('k, 'r, 's) config \<Rightarrow> ('k, 'r, 's) config" where
  "leave c =
     (case exception c of
        None \<Rightarrow> c\<lparr>phase := Exhausted UnboundLocalError\<rparr>
      | Some e \<Rightarrow> c\<lparr>phase := Exhausted e, env := logger_error (Max_retries_exceeded e) (env c)\<rparr>)"

definition step_of ::
  "('k, 'r, 's) endpoint \<Rightarrow> pyval \<Rightarrow> pyval \<Rightarrow> 'k \<Rightarrow> ('k, 'r, 's) config \<Rightarrow> ('k, 'r, 's) config option" where
  "step_of m max_num_tries sleep_sec kw c =
     (case phase c of
        Attempting \<Rightarrow>
          (case py_int_less (num_tries c) max_num_tries of
             Inl err \<Rightarrow> Some (c\<lparr>phase := Exhausted err\<rparr>)
           | Inr continue \<Rightarrow> Some (if continue then attempt m sleep_sec kw c else leave c))
      | Sleeping e \<Rightarrow>
          (case time_sleep sleep_sec (env c) of
             Inl err \<Rightarrow> Some (c\<lparr>phase := Exhausted err\<rparr>)
           | Inr w4 \<Rightarrow> Some (c\<lparr>exception := Some e, phase := Attempting, env := w4\<rparr>))
      | Succeeded r \<Rightarrow> None
      | Exhausted e \<Rightarrow> None)"

fun final :: "('k, 'r, 's) config \<Rightarrow> bool" where
  "final c = (case phase c of Succeeded r \<Rightarrow> True | Exhausted e \<Rightarrow> True | _ \<Rightarrow> False)"

definition outcome_of :: "('k, 'r, 's) config \<Rightarrow> ('r, 'k, 's) outcome option" where
  "outcome_of c =
     (case phase c of
        Succeeded r \<Rightarrow> Some (Inr r, env c)
      | Exhausted e \<Rightarrow> Some (Inl e, env c)
      | _ \<Rightarrow> None)"

fun run :: "('k, 'r, 's) endpoint \<Rightarrow> pyval \<Rightarrow> pyval \<Rightarrow> 'k \<Rightarrow> nat \<Rightarrow> ('k, 'r, 's) config \<Rightarrow> ('k, 'r, 's) config" where
  "run m v sl kw 0 c = c"
| "run m v sl kw (Suc fuel) c =
     (case step_of m v sl kw c of None \<Rightarrow> c | Some c' \<Rightarrow> run m v sl kw fuel c')"

inductive reachable ::
  "('k, 'r, 's) endpoint \<Rightarrow> pyval \<Rightarrow> pyval \<Rightarrow> 'k \<Rightarrow> ('k, 's) world \<Rightarrow> ('k, 'r, 's) config \<Rightarrow> bool"
  for m :: "('k, 'r, 's) endpoint" and v sl :: pyval and kw :: 'k and w :: "('k, 's) world" where
  start: "reachable m v sl kw w (initial w)"
| after: "reachable m v sl kw w c \<Longrightarrow> step m v sl kw c c' \<Longrightarrow> reachable m v sl kw w c'"

section \<open>The relation and the function agree\<close>

lemma step_imp_step_of: "step m v sl kw c c' \<Longrightarrow> step_of m v sl kw c = Some c'"
  by (induction rule: step.induct) (simp_all add: step_of_def attempt_def leave_def)

lemma step_of_imp_step: "step_of m v sl kw c = Some c' \<Longrightarrow> step m v sl kw c c'"
  unfolding step_of_def attempt_def leave_def
  by (auto split: phase.splits sum.splits prod.splits if_splits option.splits bool.splits
      intro: step.intros)

lemma step_iff: "step m v sl kw c c' \<longleftrightarrow> step_of m v sl kw c = Some c'"
  by (rule iffI) (erule step_imp_step_of, erule step_of_imp_step)

lemma step_deterministic: "step m v sl kw c c1 \<Longrightarrow> step m v sl kw c c2 \<Longrightarrow> c1 = c2"
  by (simp add: step_iff)

lemma final_iff_stuck: "final c \<longleftrightarrow> step_of m v sl kw c = None"
  by (simp add: step_of_def split: phase.splits sum.splits)

lemma final_no_step: "final c \<Longrightarrow> \<not> step m v sl kw c c'"
  by (simp add: step_iff final_iff_stuck [of c m v sl kw] del: final.simps)


section \<open>The result of the loop from a configuration\<close>

text \<open>
  \<open>result_from\<close> is what the rest of the call returns from a configuration: the loop
  itself at the test, the sleep and then the loop inside the handler, the outcome at
  the end. A step does not change it (\<open>step_result\<close>). \<open>fuel_of\<close> bounds the steps
  that remain and decreases with every step (\<open>step_decreases\<close>).
\<close>

definition result_from ::
  "('k, 'r, 's) endpoint \<Rightarrow> pyval \<Rightarrow> pyval \<Rightarrow> 'k \<Rightarrow> ('k, 'r, 's) config \<Rightarrow> ('r, 'k, 's) outcome" where
  "result_from m v sl kw c =
     (case phase c of
        Attempting \<Rightarrow> retry_loop m v sl kw (num_tries c) (exception c) (env c)
      | Sleeping e \<Rightarrow>
          (case time_sleep sl (env c) of
             Inl err \<Rightarrow> (Inl err, env c)
           | Inr w4 \<Rightarrow> retry_loop m v sl kw (num_tries c) (Some e) w4)
      | Succeeded r \<Rightarrow> (Inr r, env c)
      | Exhausted e \<Rightarrow> (Inl e, env c))"

definition fuel_of :: "pyval \<Rightarrow> ('k, 'r, 's) config \<Rightarrow> nat" where
  "fuel_of v c =
     (case phase c of
        Attempting \<Rightarrow> 2 * tries_left v (num_tries c) + 1
      | Sleeping e \<Rightarrow> 2 * tries_left v (num_tries c) + 2
      | _ \<Rightarrow> 0)"

lemma result_from_initial [simp]:
  "result_from m v sl kw (initial w) = openai_method_retry m v sl kw w"
  by (simp add: result_from_def initial_def openai_method_retry_def)

lemma fuel_of_initial [simp]: "fuel_of v (initial w) = 2 * tries_left v 0 + 1"
  by (simp add: fuel_of_def initial_def)

lemma final_outcome: "final c \<Longrightarrow> outcome_of c = Some (result_from m v sl kw c)"
  by (simp add: outcome_of_def result_from_def split: phase.splits)

lemma step_result: "step m v sl kw c c' \<Longrightarrow> result_from m v sl kw c' = result_from m v sl kw c"
proof (induction rule: step.induct)
  case (handles c e w1)
  then show ?case
    by (simp add: result_from_def retry_loop.simps [of m v sl kw "num_tries c"] Let_def
        split: sum.splits)
qed (simp_all add: result_from_def retry_loop.simps [of m v sl kw "num_tries c" for c])

lemma steps_result:
  "(step m v sl kw)\<^sup>*\<^sup>* c c' \<Longrightarrow> result_from m v sl kw c' = result_from m v sl kw c"
  by (induction rule: rtranclp_induct) (simp_all add: step_result)

lemma step_decreases: "step m v sl kw c c' \<Longrightarrow> fuel_of v c' < fuel_of v c"
proof (induction rule: step.induct)
  case (handles c e w1)
  then show ?case using tries_left_decreases [of "num_tries c" v]
    by (simp add: fuel_of_def)
qed (simp_all add: fuel_of_def)

lemma run_steps: "(step m v sl kw)\<^sup>*\<^sup>* c (run m v sl kw n c)"
proof (induction n arbitrary: c)
  case 0
  show ?case by simp
next
  case (Suc n)
  show ?case
  proof (cases "step_of m v sl kw c")
    case None
    then show ?thesis by simp
  next
    case (Some c')
    then have "step m v sl kw c c'" by (simp add: step_iff)
    with Suc [of c'] Some show ?thesis by (simp add: converse_rtranclp_into_rtranclp)
  qed
qed

lemma run_final: "fuel_of v c \<le> n \<Longrightarrow> final (run m v sl kw n c)"
proof (induction n arbitrary: c)
  case 0
  then show ?case by (simp add: fuel_of_def split: phase.splits)
next
  case (Suc n)
  show ?case
  proof (cases "step_of m v sl kw c")
    case None
    then show ?thesis by (simp add: final_iff_stuck [of c m v sl kw] del: final.simps)
  next
    case (Some c')
    then have "fuel_of v c' < fuel_of v c" by (simp add: step_iff [symmetric] step_decreases)
    with Suc.prems have "fuel_of v c' \<le> n" by simp
    with Some Suc.IH [of c'] show ?thesis by (simp del: final.simps)
  qed
qed


section \<open>Invariants of the reachable configurations\<close>

text \<open>
  \<open>locals_ok\<close> relates the locals to the phase and the bound; \<open>trace_ok\<close> relates the
  world to the world at the start: the events added since (\<open>events_since\<close>), how many
  of them are calls and sleeps (\<open>counts_ok\<close>, per phase), standard input and the
  endpoint's state.
\<close>

definition events_since :: "('k, 's) world \<Rightarrow> ('k, 'r, 's) config \<Rightarrow> 'k event list" where
  "events_since w c = new_events w (env c)"

definition locals_ok :: "pyval \<Rightarrow> ('k, 'r, 's) config \<Rightarrow> bool" where
  "locals_ok v c \<longleftrightarrow>
     0 \<le> num_tries c \<and> num_tries c \<le> int (tries_left v 0) \<and>
     (case exception c of None \<Rightarrow> True | Some e \<Rightarrow> is_transient e \<and> 0 < num_tries c) \<and>
     (case phase c of
        Attempting \<Rightarrow> (exception c = None) = (num_tries c = 0)
      | Sleeping e \<Rightarrow> is_transient e \<and> 0 < num_tries c
      | Succeeded r \<Rightarrow> num_tries c < int (tries_left v 0)
      | Exhausted e \<Rightarrow>
          is_transient e \<longrightarrow> exception c = Some e \<and> num_tries c = int (tries_left v 0))"

fun counts_ok :: "'r phase \<Rightarrow> nat \<Rightarrow> nat \<Rightarrow> nat \<Rightarrow> bool" where
  "counts_ok Attempting n ncalls nsleeps = (ncalls = n \<and> nsleeps = n)"
| "counts_ok (Sleeping e) n ncalls nsleeps = (ncalls = n \<and> Suc nsleeps = n)"
| "counts_ok (Succeeded r) n ncalls nsleeps = (ncalls = Suc n \<and> nsleeps = n)"
| "counts_ok (Exhausted e) n ncalls nsleeps =
     (nsleeps \<le> ncalls \<and> ncalls \<le> Suc n \<and> (is_transient e \<longrightarrow> ncalls = n \<and> nsleeps = n))"

definition trace_ok ::
  "('k, 'r, 's) endpoint \<Rightarrow> pyval \<Rightarrow> 'k \<Rightarrow> ('k, 's) world \<Rightarrow> ('k, 'r, 's) config \<Rightarrow> bool" where
  "trace_ok m v kw w c \<longleftrightarrow>
     prefix (trace w) (trace (env c)) \<and> stdin (env c) = stdin w \<and>
     list_all (retry_event kw) (events_since w c) \<and>
     length (calls (events_since w c)) \<le> tries_left v 0 \<and>
     service (env c) = service_after m kw (service w) (length (calls (events_since w c))) \<and>
     counts_ok (phase c) (nat (num_tries c))
       (length (calls (events_since w c))) (length (sleeps (events_since w c)))"

lemma events_since_initial [simp]: "events_since w (initial w) = []"
  by (simp add: events_since_def initial_def)

lemma locals_ok_initial: "locals_ok v (initial w)"
  by (simp add: locals_ok_def initial_def)

lemma trace_ok_initial: "trace_ok m v kw w (initial w)"
  by (simp add: trace_ok_def) (simp add: initial_def)

lemma py_int_less_True_tries_left:
  "py_int_less n v = Inr True \<Longrightarrow> 0 \<le> n \<Longrightarrow> n < int (tries_left v 0)"
  by (auto simp: py_int_less_True_iff tries_left_def less_ceiling_iff)

lemma py_int_less_False_tries_left:
  "py_int_less n v = Inr False \<Longrightarrow> n \<le> int (tries_left v 0) \<Longrightarrow> 0 \<le> n \<Longrightarrow> n = int (tries_left v 0)"
  by (auto simp: py_int_less_False_iff tries_left_def ceiling_le_iff [symmetric])

lemma step_locals_ok: "step m v sl kw c c' \<Longrightarrow> locals_ok v c \<Longrightarrow> locals_ok v c'"
proof (induction rule: step.induct)
  case (compare_fails c err)
  then show ?case by (auto simp: locals_ok_def py_int_less_error_iff split: option.splits)
next
  case (sleep_fails c e err)
  then show ?case by (auto simp: locals_ok_def time_sleep_Inl_iff split: option.splits)
next
  case (gives_up c e)
  then show ?case using py_int_less_False_tries_left [of "num_tries c" v]
    by (auto simp: locals_ok_def split: option.splits)
next
  case (handles c e w1)
  then show ?case using py_int_less_True_tries_left [of "num_tries c" v]
    by (auto simp: locals_ok_def split: option.splits)
next
  case (returns c r w1)
  then show ?case using py_int_less_True_tries_left [of "num_tries c" v]
    by (auto simp: locals_ok_def split: option.splits)
qed (auto simp: locals_ok_def split: option.splits)


lemma invoke_world:
  "invoke m kw w = (res, w1) \<Longrightarrow>
     w1 = w\<lparr>service := snd (m kw (service w)), trace := trace w @ [Call kw]\<rparr>"
  by (simp add: invoke_eq)

lemma service_after_add:
  "service_after m kw s (a + b) = service_after m kw (service_after m kw s a) b"
  by (induction a arbitrary: s) simp_all

lemma trace_ok_iff:
  "trace_ok m v kw w c \<longleftrightarrow>
     (\<exists>evs. trace (env c) = trace w @ evs \<and> stdin (env c) = stdin w \<and>
        list_all (retry_event kw) evs \<and> length (calls evs) \<le> tries_left v 0 \<and>
        service (env c) = service_after m kw (service w) (length (calls evs)) \<and>
        counts_ok (phase c) (nat (num_tries c)) (length (calls evs)) (length (sleeps evs)))"
  by (auto simp: trace_ok_def prefix_def events_since_def new_events_def)

lemma trace_ok_step:
  assumes "trace_ok m v kw w c"
    and "trace (env c') = trace (env c) @ new" "stdin (env c') = stdin (env c)"
    and "list_all (retry_event kw) new"
    and "service (env c') = service_after m kw (service (env c)) (length (calls new))"
    and "\<And>a b. counts_ok (phase c) (nat (num_tries c)) a b \<Longrightarrow> a \<le> tries_left v 0 \<Longrightarrow>
           counts_ok (phase c') (nat (num_tries c')) (a + length (calls new)) (b + length (sleeps new)) \<and>
           a + length (calls new) \<le> tries_left v 0"
  shows "trace_ok m v kw w c'"
proof -
  from assms(1) obtain evs where evs: "trace (env c) = trace w @ evs" "stdin (env c) = stdin w"
      "list_all (retry_event kw) evs"
      "service (env c) = service_after m kw (service w) (length (calls evs))"
      "counts_ok (phase c) (nat (num_tries c)) (length (calls evs)) (length (sleeps evs))"
      "length (calls evs) \<le> tries_left v 0"
    unfolding trace_ok_iff by blast
  from evs assms(2-5) assms(6) [OF evs(5,6)] show ?thesis
    unfolding trace_ok_iff by (intro exI [of _ "evs @ new"]) (simp add: service_after_add)
qed

lemma step_trace_ok:
  "step m v sl kw c c' \<Longrightarrow> 0 \<le> num_tries c \<Longrightarrow> trace_ok m v kw w c \<Longrightarrow> trace_ok m v kw w c'"
proof (induction rule: step.induct)
  case (compare_fails c err)
  show ?case
    by (rule trace_ok_step [where new = "[]" and c = c])
       (use compare_fails in \<open>auto simp: py_int_less_error_iff\<close>)
next
  case (returns c r w1)
  note w1 = invoke_world [OF returns(3)] py_int_less_True_tries_left [OF returns(2,4)]
  show ?case
    by (rule trace_ok_step [where new = "[Call kw]" and c = c]) (use returns w1 in simp_all)
next
  case (propagates c e w1)
  note w1 = invoke_world [OF propagates(3)] py_int_less_True_tries_left [OF propagates(2,5)]
  show ?case
    by (rule trace_ok_step [where new = "[Call kw]" and c = c]) (use propagates w1 in simp_all)
next
  case (handles c e w1)
  note w1 = invoke_world [OF handles(3)] py_int_less_True_tries_left [OF handles(2,5)]
  show ?case
    by (rule trace_ok_step [where c = c and new = "[Call kw, Log INFO (Openai_error e),
          Log INFO (Try_sleeping (num_tries c + 1) sl)]"])
       (use handles w1 in \<open>simp_all add: nat_add_distrib\<close>)
next
  case (sleep_fails c e err)
  show ?case
    by (rule trace_ok_step [where new = "[]" and c = c])
       (use sleep_fails in \<open>auto simp: time_sleep_Inl_iff\<close>)
next
  case (wakes c e w4)
  then obtain d where d: "as_rat sl = Some d" "0 \<le> d" "w4 = emit (Sleep d) (env c)"
    by (auto simp: time_sleep_Inr_iff)
  show ?case
    by (rule trace_ok_step [where new = "[Sleep d]" and c = c]) (use wakes d in simp_all)
next
  case (unbound c)
  show ?case
    by (rule trace_ok_step [where new = "[]" and c = c]) (use unbound in simp_all)
next
  case (gives_up c e)
  show ?case
    by (rule trace_ok_step [where c = c and new = "[Log ERROR (Max_retries_exceeded e)]"])
       (use gives_up in simp_all)
qed


lemma reachable_iff_steps:
  "reachable m v sl kw w c \<longleftrightarrow> (step m v sl kw)\<^sup>*\<^sup>* (initial w) c"
proof
  show "reachable m v sl kw w c \<Longrightarrow> (step m v sl kw)\<^sup>*\<^sup>* (initial w) c"
    by (induction rule: reachable.induct) (auto intro: rtranclp.rtrancl_into_rtrancl)
  show "(step m v sl kw)\<^sup>*\<^sup>* (initial w) c \<Longrightarrow> reachable m v sl kw w c"
    by (induction rule: rtranclp_induct) (auto intro: reachable.intros)
qed

lemma run_reachable: "reachable m v sl kw w (run m v sl kw n (initial w))"
  by (simp add: reachable_iff_steps run_steps)

lemma reachable_inv: "reachable m v sl kw w c \<Longrightarrow> locals_ok v c \<and> trace_ok m v kw w c"
proof (induction rule: reachable.induct)
  case start
  show ?case by (simp add: locals_ok_initial trace_ok_initial)
next
  case (after c c')
  then have "0 \<le> num_tries c" by (simp add: locals_ok_def)
  with after show ?case by (blast intro: step_locals_ok step_trace_ok)
qed

lemma reachable_result:
  "reachable m v sl kw w c \<Longrightarrow> result_from m v sl kw c = openai_method_retry m v sl kw w"
  by (simp add: reachable_iff_steps steps_result)

lemmas machine_eval =
  step_of_def attempt_def leave_def outcome_of_def initial_def invoke_def time_sleep_def
  logger_info_def logger_error_def emit_def eval_nat_numeral

section \<open>Properties of the machine\<close>

text \<open>
  The machine is deterministic and never stuck before the end: a configuration in
  phase \<open>Attempting\<close> or \<open>Sleeping\<close> has exactly one successor, and one in phase
  \<open>Succeeded\<close> or \<open>Exhausted\<close> has none.
\<close>

lemma machine_deterministic:
  "(if final c then \<nexists>c'. step m v sl kw c c' else \<exists>!c'. step m v sl kw c c')"
proof (cases "step_of m v sl kw c")
  case None
  then show ?thesis by (simp add: step_iff final_iff_stuck [of c m v sl kw] del: final.simps)
next
  case (Some c')
  then have "step m v sl kw c c'" "\<not> final c"
    by (simp_all add: step_iff final_iff_stuck [of c m v sl kw] del: final.simps)
  then show ?thesis by (auto dest: step_deterministic simp del: final.simps)
qed

text \<open>
  C9: The machine stops. From the initial configuration,
  \<open>2 * \<lceil>max_num_tries\<rceil> + 1\<close> steps, two per failed attempt and one for the last
  test or call, lead to a final configuration, and its outcome is what
  \<^verbatim>\<open>openai_method_retry\<close> returns or raises, in the world it leaves.
\<close>

theorem machine_terminates:
  "final (run m v sl kw (2 * tries_left v 0 + 1) (initial w)) \<and>
   outcome_of (run m v sl kw (2 * tries_left v 0 + 1) (initial w)) =
     Some (openai_method_retry m v sl kw w)"
proof -
  let ?c = "run m v sl kw (2 * tries_left v 0 + 1) (initial w)"
  have fin: "final ?c" by (rule run_final) simp
  moreover have "result_from m v sl kw ?c = openai_method_retry m v sl kw w"
    by (rule reachable_result) (rule run_reachable)
  ultimately show ?thesis using final_outcome [OF fin, of m v sl kw] by simp
qed

text \<open>
  C8: The loop refines the machine. In every configuration the machine can reach,
  running the loop from there gives the result of the whole call; so every final
  configuration it can reach, by whatever sequence of steps, holds the result and the
  world of \<^verbatim>\<open>openai_method_retry\<close>.
\<close>

theorem machine_refines_loop:
  assumes "reachable m v sl kw w c"
  shows "result_from m v sl kw c = openai_method_retry m v sl kw w \<and>
     (final c \<longrightarrow> outcome_of c = Some (openai_method_retry m v sl kw w))"
  using assms final_outcome [of c m v sl kw] by (simp add: reachable_result del: final.simps)

theorem machine_refines_loop_witness:
  "outcome_of (run scripted (VInt 2) (VInt 10) ''request'' 3
       (initial \<lparr>service = [Inl (RateLimitError ''slow down''), Inr ''choices''],
                 stdin = [], trace = []\<rparr>)) =
     Some (openai_method_retry scripted (VInt 2) (VInt 10) ''request''
       \<lparr>service = [Inl (RateLimitError ''slow down''), Inr ''choices''], stdin = [], trace = []\<rparr>)"
proof -
  let ?w = "\<lparr>service = [Inl (RateLimitError ''slow down''), Inr ''choices''],
             stdin = [], trace = []\<rparr> :: (string, (error + string) list) world"
  let ?c = "run scripted (VInt 2) (VInt 10) ''request'' 3 (initial ?w)"
  have "final ?c" by (simp add: machine_eval)
  with machine_refines_loop [OF run_reachable [of scripted "VInt 2" "VInt 10" "''request''" ?w 3]]
  show ?thesis by blast
qed

text \<open>
  C20: In every configuration the machine can reach: \<^verbatim>\<open>num_tries\<close> lies between \<open>0\<close>
  and the bound rounded up; at the loop test the local \<^verbatim>\<open>exception\<close> is unbound
  exactly when \<^verbatim>\<open>num_tries\<close> is \<open>0\<close>, and it only ever holds a transient error;
  standard input is as it was; the trace has only grown, by calls with the given
  keyword arguments, sleeps that are not negative and log records; there were as many
  calls as \<^verbatim>\<open>num_tries\<close> says (one more after a call that returned), never more than
  the bound allows, and the endpoint is in the state that many calls lead to.
\<close>

theorem machine_invariant:
  assumes "reachable m v sl kw w c"
  shows "locals_ok v c \<and> trace_ok m v kw w c"
  using assms by (rule reachable_inv)

theorem machine_invariant_witness:
  "locals_ok (VInt 2)
     (run scripted (VInt 2) (VInt 10) ''request'' 2
       (initial \<lparr>service = [Inl (RateLimitError ''slow down''), Inr ''choices''],
                 stdin = [], trace = []\<rparr>)) \<and>
   trace_ok scripted (VInt 2) ''request''
     \<lparr>service = [Inl (RateLimitError ''slow down''), Inr ''choices''], stdin = [], trace = []\<rparr>
     (run scripted (VInt 2) (VInt 10) ''request'' 2
       (initial \<lparr>service = [Inl (RateLimitError ''slow down''), Inr ''choices''],
                 stdin = [], trace = []\<rparr>))"
  using machine_invariant [OF run_reachable [of scripted "VInt 2" "VInt 10" "''request''"
      "\<lparr>service = [Inl (RateLimitError ''slow down''), Inr ''choices''], stdin = [], trace = []\<rparr>" 2]]
  by simp

text \<open>
  Whenever the machine gives up with a transient error, that error is the one
  bound to \<^verbatim>\<open>exception\<close>, the endpoint was called exactly as many times as the bound
  rounded up, and the process slept after every one of these calls, the last
  included: as many sleeps as calls, not one fewer.
\<close>

lemma machine_gives_up_after_sleeping:
  assumes "reachable m v sl kw w c" "phase c = Exhausted e" "is_transient e"
  shows "exception c = Some e \<and>
     length (calls (events_since w c)) = tries_left v 0 \<and>
     length (sleeps (events_since w c)) = tries_left v 0"
proof -
  from reachable_inv [OF assms(1)] assms(2,3)
  have "exception c = Some e" "num_tries c = int (tries_left v 0)"
    and "length (calls (events_since w c)) = nat (num_tries c)"
    and "length (sleeps (events_since w c)) = nat (num_tries c)"
    by (simp_all add: locals_ok_def trace_ok_def)
  then show ?thesis by simp
qed

lemma machine_gives_up_after_sleeping_example:
  "length (sleeps (events_since
      \<lparr>service = [Inl (RateLimitError ''slow down'') :: error + string], stdin = [], trace = []\<rparr>
      (run scripted (VInt 1) (VInt 10) ''request'' 3
        (initial \<lparr>service = [Inl (RateLimitError ''slow down'')], stdin = [], trace = []\<rparr>))))
   = tries_left (VInt 1) 0"
proof -
  let ?w = "\<lparr>service = [Inl (RateLimitError ''slow down'')], stdin = [], trace = []\<rparr>
      :: (string, (error + string) list) world"
  let ?c = "run scripted (VInt 1) (VInt 10) ''request'' 3 (initial ?w)"
  have "phase ?c = Exhausted (RateLimitError ''slow down'')"
    by (simp add: machine_eval)
  with machine_gives_up_after_sleeping [OF run_reachable
      [of scripted "VInt 1" "VInt 10" "''request''" ?w 3]]
  show ?thesis by simp
qed

end
