(* ===== verification/Forever.thy ===== *)
theory Forever
  imports Retry
begin

text \<open>
  The retrying caller with a bound that may be infinite. The comparison
  \<^verbatim>\<open>num_tries < max_num_tries\<close> accepts a float, and with \<^verbatim>\<open>float('inf')\<close>, which asks
  to retry until the call goes through, the test holds in every iteration and the
  loop need not end. \<open>retry_loop_inf\<close> is the loop of \<^verbatim>\<open>openai_method_retry\<close>
  for a \<open>bound\<close>, a value or \<open>Infinity\<close>, as a partial function: \<open>None\<close> means that
  the call does not return.

  The lemmas show that for a value as the bound this is the total function
  \<open>retry_loop\<close>, that with the infinite bound the call returns what the loop with
  every large enough bound returns, and that it does not return exactly when the
  endpoint raises a transient error on every call and the sleep is valid.
\<close>

section \<open>The loop\<close>

datatype bound = Finite pyval | Infinity

definition int_less_bound :: "int \<Rightarrow> bound \<Rightarrow> error + bool" where
  "int_less_bound n b = (case b of Finite v \<Rightarrow> py_int_less n v | Infinity \<Rightarrow> Inr True)"

partial_function (option) retry_loop_inf ::
  "('k, 'r, 's) endpoint \<Rightarrow> bound \<Rightarrow> pyval \<Rightarrow> 'k \<Rightarrow> int \<Rightarrow> error option \<Rightarrow> ('k, 's) world
     \<Rightarrow> ('r, 'k, 's) outcome option" where
  "retry_loop_inf openai_method max_num_tries sleep_sec kw num_tries exception w =
     (case int_less_bound num_tries max_num_tries of
        Inl err \<Rightarrow> Some (Inl err, w)
      | Inr continue \<Rightarrow>
          if continue then
            (case invoke openai_method kw w of
               (Inr r, w1) \<Rightarrow> Some (Inr r, w1)
             | (Inl e, w1) \<Rightarrow>
                 if is_transient e then
                   (let num_tries' = num_tries + 1;
                        w2 = logger_info (Openai_error e) w1;
                        w3 = logger_info (Try_sleeping num_tries' sleep_sec) w2
                    in case time_sleep sleep_sec w3 of
                         Inl err \<Rightarrow> Some (Inl err, w3)
                       | Inr w4 \<Rightarrow>
                           retry_loop_inf openai_method max_num_tries sleep_sec kw num_tries' (Some e) w4)
                 else Some (Inl e, w1))
          else
            (case exception of
               None \<Rightarrow> Some (Inl UnboundLocalError, w)
             | Some e \<Rightarrow> Some (Inl e, logger_error (Max_retries_exceeded e) w)))"

definition openai_method_retry_inf ::
  "('k, 'r, 's) endpoint \<Rightarrow> bound \<Rightarrow> pyval \<Rightarrow> 'k \<Rightarrow> ('k, 's) world \<Rightarrow> ('r, 'k, 's) outcome option" where
  "openai_method_retry_inf openai_method max_num_tries sleep_sec kw w =
     retry_loop_inf openai_method max_num_tries sleep_sec kw 0 None w"

text \<open>What the run depends on: whether a reply of the endpoint is a failure the handler
  takes, the reply to the call number \<open>k\<close>, and whether \<^verbatim>\<open>time.sleep\<close> accepts the
  duration.\<close>

fun retryable :: "error + 'r \<Rightarrow> bool" where
  "retryable (Inl e) = is_transient e"
| "retryable (Inr r) = False"

definition reply_at :: "('k, 'r, 's) endpoint \<Rightarrow> 'k \<Rightarrow> 's \<Rightarrow> nat \<Rightarrow> error + 'r" where
  "reply_at m kw s k = fst (m kw (service_after m kw s k))"

definition valid_sleep :: "pyval \<Rightarrow> bool" where
  "valid_sleep sl \<longleftrightarrow> (case as_rat sl of None \<Rightarrow> False | Some d \<Rightarrow> 0 \<le> d)"

section \<open>A finite bound\<close>

lemma int_less_bound_simps [simp]:
  "int_less_bound n (Finite v) = py_int_less n v"
  "int_less_bound n Infinity = Inr True"
  by (simp_all add: int_less_bound_def)

lemma retry_loop_inf_finite:
  "retry_loop_inf m (Finite v) sl kw n exc w = Some (retry_loop m v sl kw n exc w)"
proof (induction m v sl kw n exc w rule: retry_loop.induct)
  case (1 m v sl kw n exc w)
  show ?case
    by (subst retry_loop_inf.simps, subst retry_loop.simps)
       (auto simp: Let_def 1 split: sum.splits prod.splits option.splits)
qed

section \<open>The infinite bound\<close>

lemma valid_sleep_iff: "valid_sleep sl \<longleftrightarrow> (\<exists>d. as_rat sl = Some d \<and> 0 \<le> d)"
  by (simp add: valid_sleep_def split: option.splits)

lemma time_sleep_valid: "valid_sleep sl \<Longrightarrow> \<exists>w'. time_sleep sl w = Inr w'"
  by (auto simp: valid_sleep_iff time_sleep_Inr_iff)

lemma time_sleep_invalid: "\<not> valid_sleep sl \<Longrightarrow> \<exists>err. time_sleep sl w = Inl err"
  by (cases "time_sleep sl w") (auto simp: valid_sleep_iff time_sleep_Inr_iff)

lemma retry_loop_inf_unfold:
  assumes "m kw (service w) = (res, s')"
  shows "retry_loop_inf m Infinity sl kw n exc w =
     (case res of
        Inr r \<Rightarrow> Some (Inr r, (emit (Call kw) w)\<lparr>service := s'\<rparr>)
      | Inl e \<Rightarrow>
          if is_transient e then
            (case time_sleep sl (after_failure kw sl n e s' w) of
               Inl err \<Rightarrow> Some (Inl err, after_failure kw sl n e s' w)
             | Inr w4 \<Rightarrow> retry_loop_inf m Infinity sl kw (n + 1) (Some e) w4)
          else Some (Inl e, (emit (Call kw) w)\<lparr>service := s'\<rparr>))"
  using assms
  by (subst retry_loop_inf.simps) (simp add: invoke_def after_failure_def Let_def split: sum.splits)

lemma reply_at_0 [simp]: "reply_at m kw s 0 = fst (m kw s)"
  by (simp add: reply_at_def)

lemma reply_at_Suc: "reply_at m kw s (Suc k) = reply_at m kw (snd (m kw s)) k"
  by (simp add: reply_at_def)

text \<open>One iteration under both bounds: where the loop with the bound \<open>v\<close> ends, the
  loop with the infinite bound ends with the same; where it goes on, so does the
  other.\<close>

lemma retry_loop_inf_settled:
  assumes "py_int_less n v = Inr True" "\<not> retryable (reply_at m kw (service w) 0)"
  shows "retry_loop_inf m Infinity sl kw n exc w = Some (retry_loop m v sl kw n exc w)"
proof -
  obtain res s' where m: "m kw (service w) = (res, s')" by (cases "m kw (service w)")
  with assms(2) have "\<not> retryable res" by simp
  then show ?thesis
    by (cases res)
       (simp_all add: retry_loop_inf_unfold [where m = m and kw = kw and w = w, OF m]
          retry_loop_unfold [where m = m and kw = kw and w = w, OF assms(1) m])
qed

lemma retry_loop_inf_bad_sleep:
  assumes "py_int_less n v = Inr True" "retryable (reply_at m kw (service w) 0)" "\<not> valid_sleep sl"
  shows "retry_loop_inf m Infinity sl kw n exc w = Some (retry_loop m v sl kw n exc w)"
proof -
  obtain res s' where m: "m kw (service w) = (res, s')" by (cases "m kw (service w)")
  with assms(2) obtain e where "res = Inl e" "is_transient e"
    by (cases res) simp_all
  moreover from assms(3) obtain err where "time_sleep sl (after_failure kw sl n e s' w) = Inl err"
    using time_sleep_invalid by blast
  ultimately show ?thesis
    by (simp add: retry_loop_inf_unfold [where m = m and kw = kw and w = w, OF m]
        retry_loop_unfold [where m = m and kw = kw and w = w, OF assms(1) m])
qed


lemma retry_loop_inf_agrees:
  assumes "valid_sleep sl \<or> k = 0" "\<not> retryable (reply_at m kw (service w) k)"
    and "\<forall>j<k. retryable (reply_at m kw (service w) j)"
  shows "n + int k < b \<Longrightarrow>
     retry_loop_inf m Infinity sl kw n exc w = Some (retry_loop m (VInt b) sl kw n exc w)"
  using assms
proof (induction k arbitrary: n exc w)
  case 0
  then show ?case by (intro retry_loop_inf_settled) simp_all
next
  case (Suc k)
  obtain res s' where m: "m kw (service w) = (res, s')" by (cases "m kw (service w)")
  from Suc.prems(4) [rule_format, of 0] have "retryable (reply_at m kw (service w) 0)" by simp
  with m obtain e where e: "res = Inl e" "is_transient e"
    by (cases res) simp_all
  from Suc.prems(2) obtain d where d: "as_rat sl = Some d" "0 \<le> d"
    by (auto simp: valid_sleep_iff)
  let ?w = "emit (Sleep d) (after_failure kw sl n e s' w)"
  from Suc.prems(1) have less: "py_int_less n (VInt b) = Inr True" by simp
  have "retry_loop_inf m Infinity sl kw (n + 1) (Some e) ?w =
      Some (retry_loop m (VInt b) sl kw (n + 1) (Some e) ?w)"
  proof (rule Suc.IH)
    show "n + 1 + int k < b" using Suc.prems(1) by simp
    show "valid_sleep sl \<or> k = 0" using Suc.prems(2) by simp
    show "\<not> retryable (reply_at m kw (service ?w) k)"
      using Suc.prems(3) m by (simp add: reply_at_Suc)
    show "\<forall>j<k. retryable (reply_at m kw (service ?w) j)"
      using Suc.prems(4) m by (auto simp: reply_at_Suc dest: spec [of _ "Suc j" for j])
  qed
  then show ?case
    using e d
    by (simp add: retry_loop_inf_unfold [where m = m and kw = kw and w = w, OF m]
        retry_loop_unfold [where m = m and kw = kw and w = w, OF less m] time_sleep_ok)
qed

text \<open>With the infinite bound a call that returns has met a reply the handler does not
  take, or a sleep that \<^verbatim>\<open>time.sleep\<close> refuses.\<close>

lemma retry_loop_inf_returned:
  assumes "retry_loop_inf m bd sl kw n exc w = Some out" "bd = Infinity"
  shows "\<not> valid_sleep sl \<or> (\<exists>k. \<not> retryable (reply_at m kw (service w) k))"
  using assms
proof (induction rule: retry_loop_inf.raw_induct [rotated 1, consumes 1])
  case (1 f m bd sl kw n exc w out)
  obtain res s' where m: "m kw (service w) = (res, s')" by (cases "m kw (service w)")
  show ?case
  proof (cases "retryable res \<and> valid_sleep sl")
    case False
    with m have "\<not> valid_sleep sl \<or> \<not> retryable (reply_at m kw (service w) 0)" by auto
    then show ?thesis by blast
  next
    case True
    then obtain e d where e: "res = Inl e" "is_transient e" and d: "as_rat sl = Some d" "0 \<le> d"
      by (cases res) (auto simp: valid_sleep_iff)
    with 1(2,3) m
    have "f m bd sl kw (n + 1) (Some e) (emit (Sleep d) (after_failure kw sl n e s' w)) = Some out"
      by (simp add: invoke_def Let_def time_sleep_ok after_failure_def)
    from 1(1) [OF this 1(3)] m
    have "\<not> valid_sleep sl \<or> (\<exists>k. \<not> retryable (reply_at m kw (service w) (Suc k)))"
      by (simp add: reply_at_Suc)
    then show ?thesis by blast
  qed
qed

text \<open>In that case the loop with every large enough bound returns the same.\<close>

lemma retry_loop_inf_limit:
  assumes "\<not> valid_sleep sl \<or> (\<exists>k. \<not> retryable (reply_at m kw (service w) k))"
  obtains K where
    "\<And>b. K \<le> b \<Longrightarrow> retry_loop_inf m Infinity sl kw n exc w = Some (retry_loop m (VInt b) sl kw n exc w)"
proof -
  consider "retryable (reply_at m kw (service w) 0)" "\<not> valid_sleep sl"
    | "valid_sleep sl" "\<exists>k. \<not> retryable (reply_at m kw (service w) k)"
    | "\<not> retryable (reply_at m kw (service w) 0)"
    using assms by blast
  then show ?thesis
  proof cases
    case 1
    then have "retry_loop_inf m Infinity sl kw n exc w = Some (retry_loop m (VInt b) sl kw n exc w)"
      if "n + 1 \<le> b" for b
      using that by (intro retry_loop_inf_bad_sleep) simp_all
    then show ?thesis by (rule that)
  next
    case 2
    then obtain k where "\<not> retryable (reply_at m kw (service w) k)"
      "\<forall>j<k. retryable (reply_at m kw (service w) j)"
      using exists_least_iff [of "\<lambda>k. \<not> retryable (reply_at m kw (service w) k)"] by auto
    with 2(1) have "retry_loop_inf m Infinity sl kw n exc w = Some (retry_loop m (VInt b) sl kw n exc w)"
      if "n + int k + 1 \<le> b" for b
      using that by (intro retry_loop_inf_agrees [where k = k]) simp_all
    then show ?thesis by (rule that)
  next
    case 3
    then have "retry_loop_inf m Infinity sl kw n exc w = Some (retry_loop m (VInt b) sl kw n exc w)"
      if "n + 1 \<le> b" for b
      using that by (intro retry_loop_inf_settled) simp_all
    then show ?thesis by (rule that)
  qed
qed

lemma retry_loop_inf_None_iff:
  "retry_loop_inf m Infinity sl kw n exc w = None \<longleftrightarrow>
     valid_sleep sl \<and> (\<forall>k. retryable (reply_at m kw (service w) k))"
proof
  assume none: "retry_loop_inf m Infinity sl kw n exc w = None"
  show "valid_sleep sl \<and> (\<forall>k. retryable (reply_at m kw (service w) k))"
  proof (rule ccontr)
    assume "\<not> (valid_sleep sl \<and> (\<forall>k. retryable (reply_at m kw (service w) k)))"
    then have "\<not> valid_sleep sl \<or> (\<exists>k. \<not> retryable (reply_at m kw (service w) k))" by blast
    then obtain K where
      "\<And>b. K \<le> b \<Longrightarrow> retry_loop_inf m Infinity sl kw n exc w = Some (retry_loop m (VInt b) sl kw n exc w)"
      by (rule retry_loop_inf_limit [where n = n and exc = exc]) blast
    from this [of K] none show False by simp
  qed
next
  assume "valid_sleep sl \<and> (\<forall>k. retryable (reply_at m kw (service w) k))"
  then show "retry_loop_inf m Infinity sl kw n exc w = None"
    using retry_loop_inf_returned [of m Infinity sl kw n exc w]
    by (cases "retry_loop_inf m Infinity sl kw n exc w") auto
qed

text \<open>Against an endpoint that fails on every call, the loops with different bounds end
  in different worlds: each has made as many calls as its bound allows.\<close>

lemma replies_retryable:
  "\<forall>j<k. retryable (reply_at m kw s j) \<Longrightarrow>
     \<exists>es. length es = k \<and> replies m kw s k = map Inl es \<and> list_all is_transient es"
proof (induction k)
  case 0
  then show ?case by simp
next
  case (Suc k)
  then obtain es where es: "length es = k" "replies m kw s k = map Inl es" "list_all is_transient es"
    by auto
  from Suc.prems obtain e where e: "reply_at m kw s k = Inl e" "is_transient e"
    by (cases "reply_at m kw s k") auto
  with es have "length (es @ [e]) = Suc k \<and> replies m kw s (Suc k) = map Inl (es @ [e]) \<and>
      list_all is_transient (es @ [e])"
    by (simp add: replies_Suc reply_at_def del: replies.simps)
  then show ?case by blast
qed

lemma exhausted_trace_length:
  assumes "valid_sleep sl" "\<forall>k. retryable (reply_at m kw (service w) k)"
  shows "length (trace (snd (openai_method_retry m (VInt (int (Suc k))) sl kw w))) =
     length (trace w) + 4 * Suc k + 1"
proof -
  from assms(1) obtain d where d: "as_rat sl = Some d" "0 \<le> d" by (auto simp: valid_sleep_iff)
  from assms(2) obtain es where es: "length es = Suc k"
    "replies m kw (service w) (Suc k) = map Inl es" "list_all is_transient es"
    using replies_retryable [of "Suc k" m kw "service w"] by blast
  then have "es \<noteq> []" by auto
  with d es have "retry_loop m (VInt (int (Suc k))) sl kw 0 None w =
     (Inl (last es), w\<lparr>service := service_after m kw (service w) (length es),
        trace := trace w @ failed_rounds kw sl d 0 es @ [Log ERROR (Max_retries_exceeded (last es))]\<rparr>)"
    by (intro retry_loop_exhausts_after [where b = "of_int (int (Suc k))"]) simp_all
  with es(1) show ?thesis by (simp add: openai_method_retry_def)
qed

section \<open>Properties of the caller with an infinite bound\<close>

text \<open>
  C35: For a value as the bound the partial function is the total one:
  \<^verbatim>\<open>openai_method_retry\<close> returns or raises, and what it gives is what \<open>retry_loop\<close>
  gives. With \<^verbatim>\<open>float('inf')\<close> as the bound the call returns or raises a result
  exactly when the calls with all large enough bounds give that same result: the
  infinite bound is the limit of the finite ones, and where the finite ones never
  agree the call does not return.
\<close>

theorem retry_inf_is_limit:
  "openai_method_retry_inf m (Finite v) sl kw w = Some (openai_method_retry m v sl kw w) \<and>
   (openai_method_retry_inf m Infinity sl kw w = Some out \<longleftrightarrow>
      (\<exists>K. \<forall>b\<ge>K. openai_method_retry m (VInt b) sl kw w = out))"
proof (intro conjI iffI)
  show "openai_method_retry_inf m (Finite v) sl kw w = Some (openai_method_retry m v sl kw w)"
    by (simp add: openai_method_retry_inf_def openai_method_retry_def retry_loop_inf_finite)
next
  assume some: "openai_method_retry_inf m Infinity sl kw w = Some out"
  then have "\<not> valid_sleep sl \<or> (\<exists>k. \<not> retryable (reply_at m kw (service w) k))"
    using retry_loop_inf_None_iff [of m sl kw 0 None w] by (auto simp: openai_method_retry_inf_def)
  then obtain K where
    "\<And>b. K \<le> b \<Longrightarrow> retry_loop_inf m Infinity sl kw 0 None w = Some (retry_loop m (VInt b) sl kw 0 None w)"
    by (rule retry_loop_inf_limit [where n = 0 and exc = None]) blast
  with some show "\<exists>K. \<forall>b\<ge>K. openai_method_retry m (VInt b) sl kw w = out"
    by (auto simp: openai_method_retry_inf_def openai_method_retry_def)
next
  assume "\<exists>K. \<forall>b\<ge>K. openai_method_retry m (VInt b) sl kw w = out"
  then obtain K where K: "\<And>b. K \<le> b \<Longrightarrow> openai_method_retry m (VInt b) sl kw w = out" by blast
  show "openai_method_retry_inf m Infinity sl kw w = Some out"
  proof (cases "valid_sleep sl \<and> (\<forall>k. retryable (reply_at m kw (service w) k))")
    case True
    have "K \<le> int (Suc (nat K))" "K \<le> int (Suc (Suc (nat K)))" by simp_all
    then have "openai_method_retry m (VInt (int (Suc (nat K)))) sl kw w =
        openai_method_retry m (VInt (int (Suc (Suc (nat K))))) sl kw w"
      by (simp only: K)
    with True exhausted_trace_length [of sl m kw w "nat K"]
      exhausted_trace_length [of sl m kw w "Suc (nat K)"]
    show ?thesis by simp
  next
    case False
    then have "\<not> valid_sleep sl \<or> (\<exists>k. \<not> retryable (reply_at m kw (service w) k))" by blast
    then obtain K' where
      "\<And>b. K' \<le> b \<Longrightarrow> retry_loop_inf m Infinity sl kw 0 None w = Some (retry_loop m (VInt b) sl kw 0 None w)"
      by (rule retry_loop_inf_limit [where n = 0 and exc = None]) blast
    from this [of "max K K'"] K [of "max K K'"] show ?thesis
      by (simp add: openai_method_retry_inf_def openai_method_retry_def)
  qed
qed

theorem retry_inf_is_limit_witness:
  "openai_method_retry_inf scripted Infinity (VInt 10) ''request''
     \<lparr>service = [Inl (RateLimitError ''slow down''), Inr ''choices''], stdin = [], trace = []\<rparr> =
   Some (Inr ''choices'',
     \<lparr>service = [], stdin = [],
      trace = [Call ''request'', Log INFO (Openai_error (RateLimitError ''slow down'')),
               Log INFO (Try_sleeping 1 (VInt 10)), Sleep 10, Call ''request'']\<rparr>)"
proof -
  let ?w = "\<lparr>service = [Inl (RateLimitError ''slow down''), Inr ''choices''], stdin = [],
     trace = [] :: string event list\<rparr>"
  have "openai_method_retry scripted (VInt b) (VInt 10) ''request'' ?w =
     (Inr ''choices'',
      \<lparr>service = [], stdin = [],
       trace = [Call ''request'', Log INFO (Openai_error (RateLimitError ''slow down'')),
                Log INFO (Try_sleeping 1 (VInt 10)), Sleep 10, Call ''request'']\<rparr>)"
    if "2 \<le> b" for b
    unfolding openai_method_retry_def
    using that retry_loop_returns_after [where sl = "VInt 10" and d = 10 and v = "VInt b"
        and b = "of_int b" and m = scripted and kw = "''request''" and r = "''choices''"
        and es = "[RateLimitError ''slow down'']" and n = 0 and exc = None and w = ?w]
    by simp
  then show ?thesis
    using retry_inf_is_limit [of scripted "VInt 10" "VInt 10" "''request''" ?w, THEN conjunct2, THEN iffD2]
    by blast
qed

text \<open>
  C21: With \<^verbatim>\<open>float('inf')\<close> as the bound, \<^verbatim>\<open>openai_method_retry\<close> does not return if and
  only if the endpoint raises a transient error on every call and the sleep is a
  number that is not negative. Any other reply, or a sleep \<^verbatim>\<open>time.sleep\<close> refuses,
  ends the call.
\<close>

theorem retry_inf_hangs_iff:
  "openai_method_retry_inf m Infinity sl kw w = None \<longleftrightarrow>
     valid_sleep sl \<and> (\<forall>k. retryable (reply_at m kw (service w) k))"
  unfolding openai_method_retry_inf_def by (rule retry_loop_inf_None_iff)

theorem retry_inf_hangs_iff_witness:
  "openai_method_retry_inf (\<lambda>kw s. (Inl (RateLimitError ''slow down''), s)) Infinity (VInt 10)
     ''request'' \<lparr>service = (), stdin = [], trace = []\<rparr> = None"
  using retry_inf_hangs_iff [of "\<lambda>kw s. (Inl (RateLimitError ''slow down''), s)" "VInt 10"
      "''request''" "\<lparr>service = (), stdin = [], trace = []\<rparr>"]
  by (simp add: valid_sleep_def reply_at_def)

end
