(* ===== verification/Interactive.thy ===== *)
theory Interactive
  imports Confirm "HOL-Library.Stream"
begin

text \<open>
  The confirmation gate at a terminal. In \<open>Confirm\<close> standard input is a finite list
  of lines and the loop \<^verbatim>\<open>while output not in {'y', 'n'}\<close> ends at the latest with
  \<^verbatim>\<open>EOFError\<close>. An operator at a terminal can go on typing for ever; here the input is
  a stream of lines, and the loop is \<open>ask_stream\<close>, a partial function whose value
  \<open>None\<close> means that the call does not return. It carries the value of \<^verbatim>\<open>output\<close>,
  the lines not yet read and the number of prompts shown. \<open>gate_stream\<close> is the gate
  with this loop. The lemmas say when it returns and with what, and that the finite
  model is this one cut off after finitely many lines.
\<close>

section \<open>The loop on a stream of lines\<close>

partial_function (option) ask_stream ::
  "string option \<Rightarrow> string stream \<Rightarrow> nat \<Rightarrow> (string option \<times> string stream \<times> nat) option" where
  "ask_stream out lines asked =
     (if \<not> answered out then ask_stream (Some (shd lines)) (stl lines) (Suc asked)
      else Some (out, lines, asked))"

definition gate_stream :: "string stream \<Rightarrow> ((error + unit) \<times> string stream \<times> nat) option" where
  "gate_stream lines =
     (case ask_stream None lines 0 of
        None \<Rightarrow> None
      | Some (out, rest, asked) \<Rightarrow>
          Some (if out = Some ''n'' then Inl UserCanceled else Inr (), rest, asked))"

section \<open>When the loop returns\<close>

lemma answered_Some [simp]: "answered (Some l) = is_answer l"
  by (simp add: answered_def is_answer_def)

lemma answered_None [simp]: "\<not> answered None"
  by (simp add: answered_def)

lemma ask_stream_answered [simp]: "answered out \<Longrightarrow> ask_stream out lines asked = Some (out, lines, asked)"
  by (subst ask_stream.simps) simp

lemma ask_stream_read:
  "\<not> answered out \<Longrightarrow> ask_stream out lines asked = ask_stream (Some (shd lines)) (stl lines) (Suc asked)"
  by (subst ask_stream.simps) simp

lemma ask_stream_first_answer:
  "\<not> answered out \<Longrightarrow> list_all (\<lambda>l. \<not> is_answer l) (stake i lines) \<Longrightarrow> is_answer (lines !! i) \<Longrightarrow>
     ask_stream out lines asked = Some (Some (lines !! i), sdrop (Suc i) lines, Suc (asked + i))"
proof (induction i arbitrary: out lines asked)
  case 0
  then show ?case by (simp add: ask_stream_read)
next
  case (Suc i)
  from Suc.prems have "\<not> answered (Some (shd lines))" by simp
  from Suc.IH [OF this, of "stl lines" "Suc asked"] Suc.prems show ?case
    by (simp add: ask_stream_read)
qed

lemma ask_stream_returned:
  assumes "ask_stream out lines asked = Some r"
  shows "answered out \<or> (\<exists>i. is_answer (lines !! i))"
  using assms
proof (induction rule: ask_stream.raw_induct [rotated 1, consumes 1])
  case (1 f out lines asked r)
  show ?case
  proof (cases "answered out")
    case False
    with 1(2) have "f (Some (shd lines)) (stl lines) (Suc asked) = Some r" by simp
    from 1(1) [OF this] have "is_answer (shd lines) \<or> (\<exists>i. is_answer (stl lines !! i))" by simp
    then show ?thesis
    proof
      assume "is_answer (shd lines)"
      then have "is_answer (lines !! 0)" by simp
      then show ?thesis by blast
    next
      assume "\<exists>i. is_answer (stl lines !! i)"
      then obtain i where "is_answer (lines !! Suc i)" by auto
      then show ?thesis by blast
    qed
  qed simp
qed

lemma first_answer_exists:
  assumes "is_answer (lines !! i)"
  obtains j where "j \<le> i" "is_answer (lines !! j)" "list_all (\<lambda>l. \<not> is_answer l) (stake j lines)"
proof -
  define j where "j = (LEAST j. is_answer (lines !! j))"
  from assms have "is_answer (lines !! j)" unfolding j_def by (rule LeastI)
  moreover from assms have "j \<le> i" unfolding j_def by (rule Least_le)
  moreover have "\<not> is_answer (lines !! k)" if "k < j" for k
    using that not_less_Least unfolding j_def by blast
  then have "list_all (\<lambda>l. \<not> is_answer l) (stake j lines)"
    by (auto simp: list_all_length)
  ultimately show ?thesis using that by blast
qed


lemma stake_split:
  assumes "i < n"
  shows "stake n lines = stake i lines @ lines !! i # stake (n - Suc i) (sdrop (Suc i) lines)"
proof -
  have "stake (Suc i) lines @ stake (n - Suc i) (sdrop (Suc i) lines) = stake (Suc i + (n - Suc i)) lines"
    by (rule stake_add)
  moreover from assms have "Suc i + (n - Suc i) = n" by simp
  ultimately have "stake n lines = stake (Suc i) lines @ stake (n - Suc i) (sdrop (Suc i) lines)"
    by simp
  then show ?thesis by (simp only: stake_Suc append.simps append_assoc)
qed

section \<open>Properties of the gate on an endless input\<close>

text \<open>
  C30: On an input that never ends the gate returns exactly when the operator
  eventually types \<^verbatim>\<open>y\<close> or \<^verbatim>\<open>n\<close>. If no line is ever one of the two, the loop asks
  again for ever: the call never returns and never raises.
\<close>

theorem gate_stream_returns_iff:
  "(\<exists>r. gate_stream lines = Some r) \<longleftrightarrow> (\<exists>i. is_answer (lines !! i))"
proof
  assume "\<exists>r. gate_stream lines = Some r"
  then obtain r where "ask_stream None lines 0 = Some r"
    by (auto simp: gate_stream_def split: option.splits)
  from ask_stream_returned [OF this] show "\<exists>i. is_answer (lines !! i)" by simp
next
  assume "\<exists>i. is_answer (lines !! i)"
  then obtain i where "is_answer (lines !! i)" ..
  then obtain j where "is_answer (lines !! j)" "list_all (\<lambda>l. \<not> is_answer l) (stake j lines)"
    by (rule first_answer_exists)
  then show "\<exists>r. gate_stream lines = Some r"
    by (simp add: gate_stream_def ask_stream_first_answer)
qed

text \<open>
  On an endless input whose first line that is \<^verbatim>\<open>y\<close> or \<^verbatim>\<open>n\<close> is line \<open>i\<close>, the
  gate has asked \<open>i + 1\<close> times, has read exactly the lines up to that one, and raises
  \<^verbatim>\<open>UserCanceled\<close> if the line is \<^verbatim>\<open>n\<close> and returns otherwise.
\<close>

lemma gate_stream_first_answer:
  assumes "list_all (\<lambda>l. \<not> is_answer l) (stake i lines)" "is_answer (lines !! i)"
  shows "gate_stream lines =
     Some (if lines !! i = ''n'' then Inl UserCanceled else Inr (), sdrop (Suc i) lines, Suc i)"
  using assms by (simp add: gate_stream_def ask_stream_first_answer)

lemma gate_stream_first_answer_example:
  "gate_stream (''maybe'' ## ''n'' ## sconst ''y'') = Some (Inl UserCanceled, sconst ''y'', 2)"
  using gate_stream_first_answer [of 1 "''maybe'' ## ''n'' ## sconst ''y''"]
  by (simp add: is_answer_def)

text \<open>
  C31: The gate on a finite input is the gate on an endless input cut off after \<open>n\<close>
  lines, provided the estimate can be computed and the answer comes within these
  lines: both give the same outcome, the finite one has prompted as often as the
  endless one has asked, and it leaves on standard input what remains of the \<open>n\<close>
  lines.
\<close>

theorem gate_agrees_with_stream:
  assumes "cost_of model_name (num_tokens_of tokenizer texts max_toks) = Inr c"
    and "stdin w = stake n lines" "i < n"
    and "list_all (\<lambda>l. \<not> is_answer l) (stake i lines)" "is_answer (lines !! i)"
  shows "\<exists>res rest asked. gate_stream lines = Some (res, rest, asked) \<and>
     openai_api_call_is_ok tokenizer model_name texts max_toks w =
       (res, w\<lparr>stdin := stake (n - asked) rest,
          trace := trace w @ replicate asked
            (Prompted (Prompt c (num_tokens_of tokenizer texts max_toks)))\<rparr>)"
proof -
  from assms(2,3) have "stdin w = stake i lines @ lines !! i # stake (n - Suc i) (sdrop (Suc i) lines)"
    by (simp add: stake_split)
  with span_first_answer [OF assms(4,5), of "stake (n - Suc i) (sdrop (Suc i) lines)"] assms(5)
  have "openai_api_call_is_ok tokenizer model_name texts max_toks w =
      (if lines !! i = ''n'' then Inl UserCanceled else Inr (),
       w\<lparr>stdin := stake (n - Suc i) (sdrop (Suc i) lines),
         trace := trace w @ replicate (Suc i)
            (Prompted (Prompt c (num_tokens_of tokenizer texts max_toks)))\<rparr>)"
    by (simp add: gate_closed [OF assms(1)])
  with gate_stream_first_answer [OF assms(4,5)] show ?thesis by simp
qed

theorem gate_agrees_with_stream_witness:
  "\<exists>res rest asked. gate_stream (''maybe'' ## ''n'' ## sconst ''y'') = Some (res, rest, asked) \<and>
     openai_api_call_is_ok (map (map (\<lambda>c. 0))) ''text-ada-001'' [''good''] 0
       \<lparr>service = (), stdin = [''maybe'', ''n'', ''y''], trace = []\<rparr> =
       (res, \<lparr>service = (), stdin = stake (3 - asked) rest,
          trace = replicate asked (Prompted (Prompt (Cost (Double False 0)) 4))\<rparr>)"
  using gate_agrees_with_stream [of "''text-ada-001''" "map (map (\<lambda>c. 0))" "[''good'']" 0
      "Cost (Double False 0)" "\<lparr>service = (), stdin = [''maybe'', ''n'', ''y''], trace = []\<rparr>"
      3 "''maybe'' ## ''n'' ## sconst ''y''" 1]
  by (simp add: is_answer_def eval_nat_numeral num_tokens_of_def cost_of_few_tokens Model_args_def)

end
