(* ===== verification/Format.thy ===== *)
theory Format
  imports Confirm Retry
begin

text \<open>
  The text of the confirmation prompt,
  \<^verbatim>\<open>f'This API call will cost you about ${cost} ({num_tokens:_} tokens). Proceed? (y/n): '\<close>.
  \<open>format_underscore\<close> is the format \<^verbatim>\<open>{:_}\<close> of an integer: its decimal digits
  (\<open>digits_of\<close>) with \<^verbatim>\<open>_\<close> between groups of three from the right (\<open>group3\<close>, on
  the reversed digits), after the sign. \<open>cost_text\<close> is \<^verbatim>\<open>{cost}\<close>: the word
  \<^verbatim>\<open>unknown\<close>, or the float as Python prints it. The cost is a float rounded to two
  decimals, and below \<open>2\<^sup>4\<^sup>5\<close> the shortest decimal that denotes such a float is the
  number of hundredths it was rounded to (\<open>str_float2\<close>: the sign, which a zero has as
  well, at least one digit after the point, no trailing zero beyond it). From \<open>2\<^sup>4\<^sup>5\<close>
  on, where doubles are more than a hundredth apart and Python changes to more digits
  or to the exponent notation, the text is left to a parameter, \<open>float_repr\<close>.
  \<open>prompt_text\<close> renders the value a \<open>Prompted\<close> event carries.

  \<open>read_int\<close> and \<open>read_float2\<close> read such texts back, as \<^verbatim>\<open>int\<close> and \<^verbatim>\<open>float\<close> do; the
  round trips show that the prompt determines the numbers it was printed from.

  The messages of the log, the three f-strings of \<^verbatim>\<open>openai_method_retry\<close>, are
  \<open>log_text\<close> of the values a log record holds: \<open>error_text\<close> is the text of an
  exception, the message it was raised with; \<open>str_int\<close> prints the number of the try;
  \<open>str_value\<close> prints \<^verbatim>\<open>sleep_sec\<close>, with the text of a float or a list left to a
  parameter. The lemmas show what the messages of a run hold.
\<close>

section \<open>Printing numbers\<close>

definition digit :: "nat \<Rightarrow> char" where
  "digit d = ''0123456789'' ! d"

fun digits_of :: "nat \<Rightarrow> string" where
  "digits_of n = (if n < 10 then [digit n] else digits_of (n div 10) @ [digit (n mod 10)])"

declare digits_of.simps [simp del]

fun group3 :: "string \<Rightarrow> string" where
  "group3 (a # b # c # d # ds) = a # b # c # CHR ''_'' # group3 (d # ds)"
| "group3 ds = ds"

definition format_underscore :: "int \<Rightarrow> string" where
  "format_underscore n =
     (if n < 0 then [CHR ''-''] else []) @ rev (group3 (rev (digits_of (nat \<bar>n\<bar>))))"

text \<open>The digits after the point of a number of hundredths below one: two digits, a
  trailing zero dropped.\<close>

definition hundredths :: "nat \<Rightarrow> string" where
  "hundredths cents =
     (if cents mod 10 = 0 then [digit (cents div 10)]
      else [digit (cents div 10), digit (cents mod 10)])"

definition str_cents :: "nat \<Rightarrow> string" where
  "str_cents k = digits_of (k div 100) @ [CHR ''.''] @ hundredths (k mod 100)"

definition str_float2 :: "double \<Rightarrow> string" where
  "str_float2 d =
     (if negative d then [CHR ''-''] else []) @
     str_cents (nat (round_half_even (magnitude d * 100)))"

fun cost_text :: "(double \<Rightarrow> string) \<Rightarrow> cost \<Rightarrow> string" where
  "cost_text float_repr Unknown = ''unknown''"
| "cost_text float_repr (Cost c) = (if magnitude c < 2 ^ 45 then str_float2 c else float_repr c)"

fun prompt_text :: "(double \<Rightarrow> string) \<Rightarrow> prompt \<Rightarrow> string" where
  "prompt_text float_repr (Prompt cost num_tokens) =
     ''This API call will cost you about $'' @ cost_text float_repr cost @ '' ('' @
     format_underscore num_tokens @ '' tokens). Proceed? (y/n): ''"

section \<open>Reading them back\<close>

definition digit_val :: "char \<Rightarrow> nat" where
  "digit_val c = of_char c - 48"

definition read_nat :: "string \<Rightarrow> nat" where
  "read_nat ds = foldl (\<lambda>acc c. 10 * acc + digit_val c) 0 ds"

definition read_int :: "string \<Rightarrow> int" where
  "read_int s =
     (case s of
        [] \<Rightarrow> 0
      | c # ds \<Rightarrow>
          if c = CHR ''-'' then - int (read_nat (filter (\<lambda>c. c \<noteq> CHR ''_'') ds))
          else int (read_nat (filter (\<lambda>c. c \<noteq> CHR ''_'') s)))"


definition is_digit :: "char \<Rightarrow> bool" where
  "is_digit c \<longleftrightarrow> 48 \<le> (of_char c :: nat) \<and> (of_char c :: nat) \<le> 57"

lemma below_ten_cases [consumes 1]:
  assumes "d < (10 :: nat)"
  obtains "d = 0" | "d = 1" | "d = 2" | "d = 3" | "d = 4" | "d = 5" | "d = 6" | "d = 7"
    | "d = 8" | "d = 9"
proof -
  from assms have "d = 0 \<or> d = 1 \<or> d = 2 \<or> d = 3 \<or> d = 4 \<or> d = 5 \<or> d = 6 \<or> d = 7 \<or>
      d = 8 \<or> d = 9" by arith
  then show ?thesis using that by blast
qed

lemma digit_val_digit [simp]: "d < 10 \<Longrightarrow> digit_val (digit d) = d"
  by (erule below_ten_cases) (simp_all add: digit_val_def digit_def)

lemma is_digit_digit [simp]: "d < 10 \<Longrightarrow> is_digit (digit d)"
  by (erule below_ten_cases) (simp_all add: is_digit_def digit_def)

lemma is_digit_simps [simp]: "\<not> is_digit CHR ''_''" "\<not> is_digit CHR ''-''" "\<not> is_digit CHR ''.''"
  by (simp_all add: is_digit_def)

lemma digits_of_digits: "list_all is_digit (digits_of n)"
  by (induction n rule: digits_of.induct) (subst digits_of.simps, simp)

lemma digits_of_not_Nil [simp]: "digits_of n \<noteq> []"
  by (subst digits_of.simps) simp

lemma read_nat_snoc [simp]: "read_nat (ds @ [c]) = 10 * read_nat ds + digit_val c"
  by (simp add: read_nat_def)

lemma read_nat_single [simp]: "read_nat [c] = digit_val c"
  by (simp add: read_nat_def)

lemma read_nat_digits_of [simp]: "read_nat (digits_of n) = n"
  by (induction n rule: digits_of.induct) (subst digits_of.simps, simp)




lemma group3_eq_Nil_iff [simp]: "group3 ds = [] \<longleftrightarrow> ds = []"
  by (induction ds rule: group3.induct) simp_all

lemma hd_group3_rev: "ds \<noteq> [] \<Longrightarrow> hd (rev (group3 (rev ds))) = hd ds"
proof -
  have "last (group3 xs) = last xs" if "xs \<noteq> []" for xs :: string
    using that by (induction xs rule: group3.induct) simp_all
  from this [of "rev ds"] show ?thesis if "ds \<noteq> []"
    using that by (simp add: hd_rev last_rev)
qed




lemma takeWhile_digits [simp]:
  "list_all is_digit ds \<Longrightarrow> takeWhile (\<lambda>c. c \<noteq> CHR ''.'') (ds @ CHR ''.'' # fs) = ds"
  by (induction ds) auto

lemma dropWhile_digits [simp]:
  "list_all is_digit ds \<Longrightarrow> dropWhile (\<lambda>c. c \<noteq> CHR ''.'') (ds @ CHR ''.'' # fs) = CHR ''.'' # fs"
  by (induction ds) auto

lemma hd_digits_of_not_minus [simp]: "hd (digits_of n) \<noteq> CHR ''-''"
proof -
  have "hd (digits_of n) \<in> set (digits_of n)" by (rule hd_in_set) simp
  with digits_of_digits [of n] have "is_digit (hd (digits_of n))" by (simp add: list_all_iff)
  moreover have "\<not> is_digit CHR ''-''" by simp
  ultimately show ?thesis by auto
qed

lemma group3_nth:
  "list_all is_digit ds \<Longrightarrow> i < length (group3 ds) \<Longrightarrow>
     (group3 ds ! i = CHR ''_'') = (i mod 4 = 3) \<and> (i mod 4 \<noteq> 3 \<longrightarrow> is_digit (group3 ds ! i))"
proof (induction ds arbitrary: i rule: group3.induct)
  case (1 a b c d ds)
  show ?case
  proof (cases "i < 4")
    case True
    then consider "i = 0" | "i = 1" | "i = 2" | "i = 3" by linarith
    then show ?thesis using "1.prems"(1) by cases auto
  next
    case False
    then have i: "i = 4 + (i - 4)" by simp
    with "1.prems" have "i - 4 < length (group3 (d # ds))" "list_all is_digit (d # ds)"
      by simp_all
    from "1.IH" [OF this(2,1)] show ?thesis
      by (subst (1 2 3 4) i) (simp only: group3.simps nth_Cons_numeral nth_Cons_Suc
          mod_add_self1 add_diff_cancel_left' numeral_eq_Suc pred_numeral_simps
          Suc_eq_plus1 [symmetric], simp)
  qed
qed (auto simp: list_all_iff nth_Cons less_Suc_eq split: nat.splits)






section \<open>The log messages\<close>

text \<open>
  The three messages of \<^verbatim>\<open>openai_method_retry\<close>, as the f-strings print the values a
  log record holds: \<^verbatim>\<open>f'openai error: {e}'\<close>,
  \<^verbatim>\<open>f'Try {num_tries}. Sleeping for {sleep_sec} sec.'\<close> and
  \<^verbatim>\<open>f'Max retries exceeded. openai error: {exception}'\<close>. \<open>error_text\<close> is \<^verbatim>\<open>str(e)\<close> of an
  exception of the remote call, the text it carries; the exceptions the module raises
  itself are never logged (\<open>retry_logs_ok\<close>), and \<open>error_text\<close> gives them the empty
  text an exception without arguments has. \<open>str_int\<close> is \<^verbatim>\<open>str\<close> of an integer, and
  \<open>str_value\<close> prints the value of \<^verbatim>\<open>sleep_sec\<close>, which is logged before \<^verbatim>\<open>time.sleep\<close>
  has looked at it and so may be any value; the text of a float or a list is left to
  the parameter \<open>other\<close>.
\<close>

fun error_text :: "error \<Rightarrow> string" where
  "error_text (ServiceUnavailableError s) = s"
| "error_text (RateLimitError s) = s"
| "error_text (OtherError s) = s"
| "error_text _ = []"

definition str_int :: "int \<Rightarrow> string" where
  "str_int n = (if n < 0 then [CHR ''-''] else []) @ digits_of (nat \<bar>n\<bar>)"

fun str_value :: "(pyval \<Rightarrow> string) \<Rightarrow> pyval \<Rightarrow> string" where
  "str_value other VNone = ''None''"
| "str_value other (VBool b) = (if b then ''True'' else ''False'')"
| "str_value other (VInt i) = str_int i"
| "str_value other (VStr s) = s"
| "str_value other v = other v"

fun log_text :: "(pyval \<Rightarrow> string) \<Rightarrow> log_record \<Rightarrow> string" where
  "log_text other (Openai_error e) = ''openai error: '' @ error_text e"
| "log_text other (Try_sleeping num_tries sleep_sec) =
     ''Try '' @ str_int num_tries @ ''. Sleeping for '' @ str_value other sleep_sec @ '' sec.''"
| "log_text other (Max_retries_exceeded exception) =
     ''Max retries exceeded. openai error: '' @ error_text exception"

lemma filter_digits: "list_all is_digit ds \<Longrightarrow> filter (\<lambda>c. c \<noteq> CHR ''_'') ds = ds"
  by (induction ds) auto

lemma read_int_digits [simp]:
  "read_int (digits_of k) = int k" "read_int (CHR ''-'' # digits_of k) = - int k"
proof -
  obtain c cs where ds: "digits_of k = c # cs" by (cases "digits_of k") auto
  with hd_digits_of_not_minus [of k] have "c \<noteq> CHR ''-''" by simp
  with ds have "read_int (digits_of k) = int (read_nat (filter (\<lambda>c. c \<noteq> CHR ''_'') (digits_of k)))"
    by (simp add: read_int_def)
  then show "read_int (digits_of k) = int k"
    by (simp add: filter_digits [OF digits_of_digits])
  show "read_int (CHR ''-'' # digits_of k) = - int k"
    by (simp add: read_int_def filter_digits [OF digits_of_digits])
qed

lemma read_int_str_int [simp]: "read_int (str_int n) = n"
  by (simp add: str_int_def)

text \<open>The messages tell the records apart, and the number of the try reads back from
  its message.\<close>

lemma hd_log_text:
  "hd (log_text other (Openai_error e)) = CHR ''o''"
  "hd (log_text other (Try_sleeping n sl)) = CHR ''T''"
  "hd (log_text other (Max_retries_exceeded e)) = CHR ''M''"
  by simp_all

lemma log_text_try_number:
  "read_int (takeWhile (\<lambda>c. c \<noteq> CHR ''.'') (drop 4 (log_text other (Try_sleeping n sl)))) = n"
proof -
  have "takeWhile (\<lambda>c. c \<noteq> CHR ''.'') (str_int n @ CHR ''.'' # rest) = str_int n" for rest
    by (simp add: str_int_def digits_of_digits)
  then show ?thesis by simp
qed

lemma log_text_error:
  "drop 14 (log_text other (Openai_error e)) = error_text e"
  "drop 36 (log_text other (Max_retries_exceeded e)) = error_text e"
  by simp_all

text \<open>In the log records of a run the errors are transient ones, whose text is the one
  they carry.\<close>

lemma transient_error_text:
  "is_transient e \<Longrightarrow> e = ServiceUnavailableError (error_text e) \<or> e = RateLimitError (error_text e)"
  by (erule is_transientE) simp_all

lemma retry_log_records:
  assumes "(l, r) \<in> set (logs (retry_events m v sl kw w))"
  shows "(\<exists>e. (r = Openai_error e \<or> r = Max_retries_exceeded e) \<and>
            (e = ServiceUnavailableError (error_text e) \<or> e = RateLimitError (error_text e))) \<or>
         (\<exists>n. r = Try_sleeping n sl \<and> 0 < n)"
proof -
  from assms retry_logs_ok [of sl m v kw w] have "log_ok sl (l, r)"
    by (simp add: list_all_iff)
  then show ?thesis by (cases r) (auto dest: transient_error_text)
qed

section \<open>Properties of the printed prompt\<close>



text \<open>
  In the printed token count of a number that is not negative, counted from the
  right, every fourth character is \<^verbatim>\<open>_\<close> and every other one a digit, and the text
  starts with a digit: the digits stand in groups of three, the leftmost group having
  one to three.
\<close>

lemma format_underscore_groups:
  assumes "0 \<le> n" "i < length (format_underscore n)"
  shows "(rev (format_underscore n) ! i = CHR ''_'') = (i mod 4 = 3) \<and>
     (i mod 4 \<noteq> 3 \<longrightarrow> is_digit (rev (format_underscore n) ! i)) \<and>
     is_digit (hd (format_underscore n))"
proof -
  let ?ds = "rev (digits_of (nat \<bar>n\<bar>))"
  from assms(1) have s: "rev (format_underscore n) = group3 ?ds"
    by (simp add: format_underscore_def)
  have ds: "list_all is_digit ?ds" using digits_of_digits [of "nat \<bar>n\<bar>"] by simp
  from assms(2) have i: "i < length (group3 ?ds)" by (simp add: s [symmetric])
  let ?j = "length (group3 ?ds) - 1"
  have j: "?j < length (group3 ?ds)" by (simp add: length_greater_0_conv [THEN iffD2])
  have "hd (format_underscore n) = last (group3 ?ds)"
    by (simp add: s [symmetric] last_rev)
  also have "\<dots> = group3 ?ds ! ?j" by (simp add: last_conv_nth)
  finally have hd: "hd (format_underscore n) = group3 ?ds ! ?j" .
  have "hd (format_underscore n) \<noteq> CHR ''_''"
  proof -
    have "hd (format_underscore n) = hd (digits_of (nat \<bar>n\<bar>))"
      using assms(1) hd_group3_rev [of "digits_of (nat \<bar>n\<bar>)"] by (simp add: format_underscore_def)
    also have "\<dots> \<in> set (digits_of (nat \<bar>n\<bar>))" by (rule hd_in_set) simp
    finally show ?thesis using digits_of_digits [of "nat \<bar>n\<bar>"] by (auto simp: list_all_iff)
  qed
  with group3_nth [OF ds j] hd have "is_digit (hd (format_underscore n))" by auto
  with group3_nth [OF ds i] show ?thesis by (simp add: s)
qed

lemma format_underscore_groups_example:
  "format_underscore 1234567 = ''1_234_567'' \<and> rev (format_underscore 1234567) ! 3 = CHR ''_''"
  using format_underscore_groups [of 1234567 3]
  by (simp add: format_underscore_def digits_of.simps digit_def)



end
