(* ===== verification/Spec2Isabelle.thy ===== *)
theory Spec2Isabelle
  imports Session Machine Forever Interactive Format
begin

text \<open>
  A verification development for \<^verbatim>\<open>src/lm_classification/utils/api.py\<close>, the helper
  module that sends prompts to a hosted completion endpoint in batches, retries calls
  that fail for a transient reason, and can ask the operator to confirm the estimated
  cost first.

  \<^bold>\<open>The program.\<close> The module has three statements that run when it is imported,
  three functions and one table.
  \<^item> The import creates the logger, copies the variable \<^verbatim>\<open>OPENAI_API_KEY\<close> of the
    environment into the client library, and loads the tokenizer.
  \<^item> \<^verbatim>\<open>openai_method_retry\<close> calls a method of the remote client with fixed keyword
    arguments; when the call raises \<^verbatim>\<open>ServiceUnavailableError\<close> or \<^verbatim>\<open>RateLimitError\<close> it
    logs, sleeps and tries again, up to \<^verbatim>\<open>max_num_tries\<close> times, and then raises the
    last error it caught.
  \<^item> \<^verbatim>\<open>_openai_api_call_is_ok\<close> estimates the number of tokens and, in floating
    point, the cost of a request from the table \<^verbatim>\<open>model_to_cost_per_1k\<close>, and asks
    for \<^verbatim>\<open>y\<close> or \<^verbatim>\<open>n\<close>.
  \<^item> \<^verbatim>\<open>gpt3_complete\<close> normalises its input, optionally asks for confirmation, cuts
    the texts into batches of 20 with \<^verbatim>\<open>batch.constant\<close>, sends each batch through
    \<^verbatim>\<open>openai_method_retry\<close> and concatenates the choices of the responses.

  \<^bold>\<open>The theories\<close>, in the order of their imports.
  \<^item> \<open>Prelude\<close>: the fact collections (\<open>py_eval\<close>, \<open>frame\<close>, \<open>trace_ext\<close>), results as
    sums, ceiling division, floors of rational literals, counting and summing in lists.
  \<^item> \<open>Floats\<close>: the floating-point arithmetic of the estimate. A \<open>double\<close> is a sign
    and an exact magnitude; \<open>fl\<close> rounds a rational to 53 bits, to the nearest and a
    tie to even, with \<open>expo\<close> for the binary exponent and \<open>round_half_even\<close> for the
    rounding of the scaled number. \<open>nearest\<close> is a float literal, \<open>float_of_int\<close> the
    conversion of an \<^verbatim>\<open>int\<close> operand (\<open>None\<close> where Python raises \<^verbatim>\<open>OverflowError\<close>),
    \<open>fmul\<close> and \<open>fdiv\<close> the operators \<^verbatim>\<open>*\<close> and \<^verbatim>\<open>/\<close>, \<open>py_round\<close> the built-in
    \<^verbatim>\<open>round\<close> with a number of digits. Floats are ordered by their values, a
    preorder because of the two zeros.
  \<^item> \<open>Effects\<close>: the interface between the components and their environment. Values
    of keyword arguments (\<open>pyval\<close>), exceptions (\<open>error\<close>, with \<open>is_transient\<close> for the
    two kinds the \<^verbatim>\<open>except\<close> clause names), and the \<open>world\<close> record: the state of the
    endpoint, the lines waiting on standard input, and the trace of events (calls,
    sleeps, log records, prompts, progress-bar events) in the order they happened. The
    primitives \<open>invoke\<close>, \<open>time_sleep\<close>, \<open>logger_info\<close>, \<open>logger_error\<close>, \<open>py_input\<close>,
    \<open>bar_open\<close>, \<open>bar_update\<close> and \<open>bar_close\<close> model one call of the method,
    \<^verbatim>\<open>time.sleep\<close>, the logger, \<^verbatim>\<open>input\<close> and the \<^verbatim>\<open>tqdm\<close> bar. The endpoint is any
    function from keyword arguments and a state to a result and a new state; the
    components are polymorphic in both. \<open>extends\<close> and \<open>new_events\<close> compare two
    worlds; \<open>scripted\<close> and \<open>flaky\<close> are endpoints for concrete runs and for runs
    with transient faults.
  \<^item> \<open>Batch\<close>: \<^verbatim>\<open>batch.constant\<close>, whose module is not among the sources; \<open>slices\<close>
    and \<open>batch_constant\<close> follow section 4.1 of the specification, \<open>is_batching\<close>
    states its contract, and the lemmas show that \<open>slices\<close> is its only solution.
  \<^item> \<open>Retry\<close>: \<^verbatim>\<open>openai_method_retry\<close>. \<open>retry_loop\<close> is the \<^verbatim>\<open>while\<close> loop, a total
    recursive function over the counter \<^verbatim>\<open>num_tries\<close> and the local \<^verbatim>\<open>exception\<close>
    (\<open>None\<close> while it is unbound); \<open>openai_method_retry\<close> starts it at \<open>0\<close> and
    \<open>None\<close>. The bound and the sleep are \<open>pyval\<close>s, because \<^verbatim>\<open>gpt3_complete\<close> passes
    them on from its own keyword arguments unchecked: a bound that is no number is a
    \<^verbatim>\<open>TypeError\<close> at the comparison, a sleep that is no number or negative an error at
    \<^verbatim>\<open>time.sleep\<close>. \<open>run_replies\<close> is the same loop as a pure function of the replies
    the endpoint gives, and \<open>retry_loop_refines\<close> the refinement between the two.
  \<^item> \<open>Machine\<close>: the same loop as a transition system. A \<open>config\<close> holds the locals,
    the world and the \<open>phase\<close> (the states of section 4.2 of the specification);
    \<open>step\<close> has one rule per statement group of the code, \<open>step_of\<close> is the same as
    a function, \<open>run\<close> iterates it with fuel.
  \<^item> \<open>Forever\<close>: the same loop for a bound that may be \<^verbatim>\<open>float('inf')\<close>, which the
    comparison accepts and which makes the test hold in every iteration.
    \<open>retry_loop_inf\<close> is a partial function in the option monad over a \<open>bound\<close>, a
    value or \<open>Infinity\<close>; \<open>None\<close> means that the call does not return.
  \<^item> \<open>Confirm\<close>: the cost table and \<^verbatim>\<open>_openai_api_call_is_ok\<close>. The rates \<open>costs\<close> are
    the doubles nearest to the decimals of the source; \<open>num_tokens_of\<close> counts the
    tokens in integers; \<open>cost_of\<close> is the expression
    \<^verbatim>\<open>round(num_tokens * cost_per_1k_tokens / 1_000, 2)\<close> operation by operation, an
    \<^verbatim>\<open>OverflowError\<close> when the number of tokens has no double; \<open>ask_loop\<close> is the
    input loop, and \<open>openai_api_call_is_ok\<close> the function. The tokenizer is a parameter.
  \<^item> \<open>Interactive\<close>: the input loop of the gate at a terminal, where standard input
    is a stream of lines that never ends: \<open>ask_stream\<close> is a partial function in the
    option monad, \<open>None\<close> meaning that the call does not return, and \<open>gate_stream\<close>
    the gate with this loop.
  \<^item> \<open>Format\<close>: the texts the module prints. For the prompt, \<open>format_underscore\<close> is
    \<^verbatim>\<open>{num_tokens:_}\<close>, \<open>cost_text\<close> is \<^verbatim>\<open>{cost}\<close> and \<open>prompt_text\<close> the whole
    f-string; \<open>read_int\<close> and \<open>read_float2\<close> read the numbers back. For the log,
    \<open>log_text\<close> renders the three messages of \<^verbatim>\<open>openai_method_retry\<close> from the values a
    log record holds.
  \<^item> \<open>Complete\<close>: \<^verbatim>\<open>gpt3_complete\<close>. \<open>normalise_texts\<close> is the \<^verbatim>\<open>isinstance\<close> test,
    \<open>bind_retry_call\<close> binds \<^verbatim>\<open>**openai_completion_kwargs\<close> to the parameters of
    \<^verbatim>\<open>openai_method_retry\<close> as Python does, \<open>complete_loop\<close> is the \<^verbatim>\<open>for\<close> loop with
    the list \<^verbatim>\<open>choices\<close> as its accumulator, and \<open>gpt3_complete\<close> puts the gate, the
    \<^verbatim>\<open>with\<close> block of the bar and the loop together; the bar is closed on every exit.
  \<^item> \<open>Complete_Runs\<close>: what holds of every run of \<^verbatim>\<open>gpt3_complete\<close>, by induction
    over the batches with one case analysis of an iteration.
  \<^item> \<open>Session\<close>: the module as a whole. \<open>import_module\<close> is lines 19 to 25, with
    \<^verbatim>\<open>os.environ\<close> and \<^verbatim>\<open>GPT2Tokenizer.from_pretrained\<close> as parameters; its result,
    a \<open>module\<close> record, holds the logger, the key and the tokenizer. A \<open>call\<close> is a
    call of one of the two public functions with its arguments, \<open>perform\<close> runs one
    against the imported module (the gate with the tokenizer that was loaded, the
    client library under the key that was read), \<open>session\<close> a sequence of them, and
    \<open>program\<close> the import followed by a session. \<open>bar_step\<close> and \<open>bar_run\<close> are
    the protocol of the progress bar as an automaton over the events of a trace.
  \<^item> This theory: the properties that need the gate, the batcher, the retrying caller
    and the orchestration together.

  \<^bold>\<open>What is proved.\<close>
  \<^item> The retrying caller: the result and the exact trace when the method fails some
    times and then answers, when it fails every time, when it raises another error,
    when the bound is not positive (the local \<^verbatim>\<open>exception\<close> is then unbound) and when
    the sleep is invalid; a characterisation of the runs that return; the shape of
    every run (which events, how many calls and sleeps); that the caller depends on the
    method through its replies only; the refinement of \<open>run_replies\<close>.
  \<^item> The machine: determinism, termination within \<open>2 * \<lceil>max_num_tries\<rceil> + 1\<close> steps,
    agreement of every reachable final configuration with \<open>openai_method_retry\<close>, and
    the invariants of the reachable configurations, among them that giving up is always
    preceded by as many sleeps as calls.
  \<^item> The infinite bound: for a value as the bound the partial function is the total
    one; with \<^verbatim>\<open>float('inf')\<close> the call gives what the calls with all large enough
    bounds give, and it does not return exactly when every call of the endpoint
    raises a transient error and the sleep is valid.
  \<^item> The arithmetic: \<open>fl\<close> is rounding to nearest (its result has 53 bits and no
    number with 53 bits is nearer), its relative error is at most \<open>2\<^sup>-\<^sup>5\<^sup>3\<close>, and the
    integers without a double are those from \<open>2\<^sup>1\<^sup>0\<^sup>2\<^sup>4 - 2\<^sup>9\<^sup>7\<^sup>0\<close> on. For the estimate:
    every float it computes is zero or a normal double, so the model's rounding is
    the machine's; the cost is within half a cent and a relative \<open>2\<^sup>-\<^sup>5\<^sup>0\<close> of the exact
    one; it is the exact cost rounded to cents unless that lies within \<open>2\<^sup>-\<^sup>5\<^sup>0\<close>
    of a tie, where the binary values decide (\<open>cost_of_half_cents\<close>); and it is
    monotone in the number of tokens, in the order of the floats (\<open>cost_of_mono\<close>).
  \<^item> The gate: the outcome and the prompts for every finite input, exactly when it
    raises \<^verbatim>\<open>OverflowError\<close>, and that it leaves the endpoint alone; on an endless
    input, that it returns exactly when an answer is eventually typed, and that the
    finite model agrees with the endless one; for the prompt, that the printed count
    and cost read back as the numbers the code holds and that the digits stand in
    groups of three; for the log, that the records of a run hold transient errors and
    the numbers of the tries, and that these read back from the messages.
  \<^item> The orchestration: against an endpoint that answers, the choices of the texts in
    order and one call per batch; a bare string is one text; a declined gate sends
    nothing; reserved keyword arguments raise; and for every endpoint: the requests are
    requests for the batches, the bar is opened, updated per answered batch and closed,
    errors propagate with no partial result, the number of calls is bounded, the result
    has one choice per text if the endpoint gives one per prompt, and transient faults
    below the bound do not change the result.
  \<^item> The module as a whole: the import raises exactly when the tokenizer cannot be
    loaded, and then nothing else happens; of the environment a program reads the key
    only; every program, whatever it calls and whatever raises, only adds to the trace,
    only consumes standard input and uses the bar by its protocol, leaving none open;
    a session reaches the endpoint at most as often as the bounds of its calls add up
    to (\<open>session_calls_bounded\<close>);
    and without a key in the environment, against a client library that refuses such
    requests, \<^verbatim>\<open>gpt3_complete\<close> raises after one call, without retrying.

  \<^bold>\<open>Bounds and fuel.\<close> \<open>retry_loop\<close> is total by the measure \<open>tries_left\<close>, the bound
  rounded up less the counter; \<open>ask_loop\<close> by the number of lines left on standard
  input; \<open>ask_stream\<close> and \<open>retry_loop_inf\<close> are partial, and
  \<open>gate_stream_returns_iff\<close> and \<open>retry_inf_hangs_iff\<close> say exactly when they
  return. The only fuel is that of \<open>run\<close> in \<open>Machine\<close>: \<open>2 * \<lceil>max_num_tries\<rceil> + 1\<close>
  steps are proved to be enough (\<open>machine_terminates\<close>), two per failed attempt and one
  for the last test or call.

  The bounds of the arithmetic are those of the format: 53 bits of mantissa, exponents
  from \<open>-1022\<close> to \<open>1023\<close>. \<open>fl\<close> itself has no bound on the exponent;
  \<open>cost_values_are_doubles\<close> shows that the estimate stays within the range where
  this makes no difference. The printed cost is modelled below \<open>2\<^sup>4\<^sup>5\<close>, where doubles
  are less than a hundredth apart.

  \<^bold>\<open>Idealisations.\<close> The floats of the estimate are doubles with their rounding;
  NaN, the infinities and subnormal numbers are not modelled, and the estimate does
  not produce them. A float that reaches the module as a keyword argument
  (\<^verbatim>\<open>max_num_tries\<close>, \<^verbatim>\<open>sleep_sec\<close>) is the rational it stands for, which is all the
  comparison and \<^verbatim>\<open>time.sleep\<close> look at; of the special floats only \<^verbatim>\<open>float('inf')\<close> as
  the bound is modelled, in \<open>Forever\<close>, and the keyword arguments of \<^verbatim>\<open>gpt3_complete\<close>
  cannot hold it. \<^verbatim>\<open>time.sleep\<close> has no largest duration in the model; CPython raises
  \<^verbatim>\<open>OverflowError\<close> for a duration, of either sign, beyond the range of the platform's
  clock, about \<open>2\<^sup>6\<^sup>3\<close> nanoseconds. An event of
  the trace holds the values a format string prints, and \<open>Format\<close> renders them; the
  text of a float from \<open>2\<^sup>4\<^sup>5\<close> on, and of a float or a list as \<^verbatim>\<open>sleep_sec\<close>, is a
  parameter there. Standard input is a finite list of lines in \<open>Confirm\<close>, where
  reading past its end raises \<^verbatim>\<open>EOFError\<close> as \<^verbatim>\<open>input\<close> does, and a stream in
  \<open>Interactive\<close>. Keyword arguments are an association list.

  \<^bold>\<open>Not modelled.\<close> The remote service, the tokenizer and the client library
  themselves: they are not among the sources and are parameters here, the service as
  an endpoint with a state, the tokenizer as a function and its loader as a function
  that may raise, the client library as an endpoint for each key. What the client
  library does with a key, or without one, is a hypothesis where a theorem needs it.
  The \<^verbatim>\<open>import\<close> statements of lines 6 to 16, the handlers and the format of the logger,
  and the rendering of the progress bar are not modelled either: they do not affect
  what the functions return. Everything else of the file is modelled; what is left of
  its lines are the docstring, comments and blank lines.
\<close>

section \<open>Properties that span the components\<close>

text \<open>
  C13: A bound on what a call can cost. Whatever the endpoint does, \<^verbatim>\<open>gpt3_complete\<close>
  calls it at most \<open>\<lceil>N / 20\<rceil> * \<lceil>max_num_tries\<rceil>\<close> times for \<open>N\<close> texts, and it never
  sleeps more often than it calls.
\<close>

theorem gpt3_complete_calls_bounded:
  "length (calls (new_events w
      (snd (gpt3_complete tokenizer create texts model_name False max_toks kw w))))
     \<le> ceil_div (length (normalise_texts texts)) 20 * tries_left (bound_of kw) 0 \<and>
   length (sleeps (new_events w
      (snd (gpt3_complete tokenizer create texts model_name False max_toks kw w))))
     \<le> length (calls (new_events w
      (snd (gpt3_complete tokenizer create texts model_name False max_toks kw w))))"
  using complete_loop_calls_bound [of "bar_open (length (normalise_texts texts)) w" create
      model_name max_toks kw "slices 20 (normalise_texts texts)" "[]"]
  unfolding gpt3_complete_unasked_events by simp

text \<open>
  C10: The whole pipeline with the gate. When the operator answers \<^verbatim>\<open>y\<close>, after any
  number of lines that are no answer, and the endpoint answers every request with the
  choices of its prompts, \<^verbatim>\<open>gpt3_complete\<close> with \<^verbatim>\<open>ask_if_ok\<close> returns the choices of
  the texts in order. The trace shows the prompts first, one per line read, then the
  bar opened, one call and one update per batch, and the bar closed; the lines after
  the answer are left on standard input.
\<close>

theorem gpt3_complete_confirmed:
  assumes "cost_of model_name (num_tokens_of tokenizer (normalise_texts texts) max_toks) = Inr c"
    and "stdin w = junk @ ''y'' # rest" "list_all (\<lambda>l. \<not> is_answer l) junk"
    and "clean kw" "as_rat (bound_of kw) = Some b" "0 < b" "scores create f"
  shows "gpt3_complete tokenizer create texts model_name True max_toks kw w =
     (Inr (map (f model_name max_toks (extra_of kw)) (normalise_texts texts)),
      w\<lparr>service := serve create
            (map (request_of model_name max_toks kw) (slices 20 (normalise_texts texts))) (service w),
        stdin := rest,
        trace := trace w @
          replicate (Suc (length junk))
            (Prompted (Prompt c (num_tokens_of tokenizer (normalise_texts texts) max_toks))) @
          Bar_open (length (normalise_texts texts)) #
          concat (map (batch_events model_name max_toks kw) (slices 20 (normalise_texts texts)))
          @ [Bar_close]\<rparr>)"
  using assms(2) span_first_answer [OF assms(3), of "''y''" rest]
  by (simp add: gpt3_complete_asks_first gate_closed [OF assms(1)] is_answer_def
      gpt3_complete_scores [OF assms(4-7)])

theorem gpt3_complete_confirmed_witness:
  "gpt3_complete (map (map (\<lambda>c. 0))) (\<lambda>req s. (Inr \<lparr>choices = map length (prompt req)\<rparr>, Suc s))
     (Seq [''good'', ''film'']) ''text-davinci-003'' True 121 []
     \<lparr>service = 0, stdin = [''maybe'', ''y'', ''later''], trace = []\<rparr> =
   (Inr [4, 4],
    \<lparr>service = 1, stdin = [''later''],
     trace = [Prompted (Prompt (Cost (nearest (1 / 100))) 250),
              Prompted (Prompt (Cost (nearest (1 / 100))) 250), Bar_open 2,
              Call \<lparr>prompt = [''good'', ''film''], model = ''text-davinci-003'', max_tokens = 121,
                    extra = []\<rparr>,
              Bar_update 2, Bar_close]\<rparr>)"
proof -
  have "cost_of ''text-davinci-003'' 250 = Inr (Cost (Double (250 < (0 :: int)) (fl (of_int 1 / 100))))"
    by (rule cost_of_eval [where p = "2 / 100" and m = 5 and q = "fl (5 / 1000)"]; code_simp)
  then have cost: "cost_of ''text-davinci-003'' 250 = Inr (Cost (nearest (1 / 100)))"
    by (simp add: nearest_def)
  show ?thesis
    using gpt3_complete_confirmed [where junk = "[''maybe'']" and rest = "[''later'']"
      and kw = "[]" and b = 5 and c = "Cost (nearest (1 / 100))"
      and create = "\<lambda>req s. (Inr \<lparr>choices = map length (prompt req)\<rparr>, Suc s)"
      and f = "\<lambda>_ _ _. length" and texts = "Seq [''good'', ''film'']"
      and tokenizer = "map (map (\<lambda>c. 0))" and model_name = "''text-davinci-003''"
      and max_toks = 121
      and w = "\<lparr>service = 0 :: nat, stdin = [''maybe'', ''y'', ''later''], trace = []\<rparr>"]
    by (simp add: clean_def bound_of_def default_max_num_tries_def scores_def is_answer_def
      normalise_texts_def num_tokens_of_def cost slices_short batch_events_def request_of_def
      extra_of_def)
qed

text \<open>
  C36: The keyword arguments \<^verbatim>\<open>max_num_tries\<close> and \<^verbatim>\<open>sleep_sec\<close> of \<^verbatim>\<open>gpt3_complete\<close>
  configure the retrying caller and never reach the endpoint. In particular
  \<^verbatim>\<open>gpt3_complete(texts, model, max_num_tries=0)\<close>, with at least one text, raises
  \<^verbatim>\<open>UnboundLocalError\<close> at the first batch: the bar is opened and closed and nothing is
  sent.
\<close>

theorem gpt3_complete_keywords_configure_retry:
  assumes "clean kw" "map_of kw ''max_num_tries'' = Some v" "as_rat v = Some b" "b \<le> 0"
    and "normalise_texts texts \<noteq> []"
  shows "gpt3_complete tokenizer create texts model_name False max_toks kw w =
     (Inl UnboundLocalError,
      w\<lparr>trace := trace w @ [Bar_open (length (normalise_texts texts)), Bar_close]\<rparr>) \<and>
     ''max_num_tries'' \<notin> fst ` set (extra (request_of model_name max_toks kw b')) \<and>
     ''sleep_sec'' \<notin> fst ` set (extra (request_of model_name max_toks kw b'))"
proof -
  from assms(2) have bound: "bound_of kw = v" by (simp add: bound_of_def)
  from assms(3,4) have "py_int_less 0 v = Inr False" by (simp add: py_int_less_False_iff)
  then have "openai_method_retry create v sl req w0 = (Inl UnboundLocalError, w0)" for sl req w0
    by (simp add: openai_method_retry_def retry_loop_unbound)
  with assms(1,5) bound show ?thesis
    by (simp add: gpt3_complete_unasked_eq slices_rec complete_loop_Cons extra_of_keys
        bar_open_def bar_close_def emit_def)
qed

theorem gpt3_complete_keywords_configure_retry_witness:
  "gpt3_complete (map (map (\<lambda>c. 0))) scripted (Seq [''good'', ''bad'']) ''text-ada-001'' False 0
     [(''max_num_tries'', VInt 0)]
     \<lparr>service = [Inr \<lparr>choices = [''a'', ''b'']\<rparr>], stdin = [], trace = []\<rparr> =
   (Inl UnboundLocalError,
    \<lparr>service = [Inr \<lparr>choices = [''a'', ''b'']\<rparr>], stdin = [], trace = [Bar_open 2, Bar_close]\<rparr>)"
  using gpt3_complete_keywords_configure_retry [where create = scripted
      and texts = "Seq [''good'', ''bad'']" and kw = "[(''max_num_tries'', VInt 0)]"
      and v = "VInt 0" and b = 0
      and tokenizer = "map (map (\<lambda>c. 0))" and model_name = "''text-ada-001''" and max_toks = 0
      and w = "\<lparr>service = [Inr \<lparr>choices = [''a'', ''b'']\<rparr>], stdin = [], trace = []\<rparr>"]
  by (simp add: normalise_texts_def clean_def reserved_def)

end
